(* ===== verification/Ftc_Base.thy ===== *)
theory Ftc_Base
  imports Main "HOL-Library.Word"
begin

text \<open>
  The prelude of the FT-Cache development: the names of the types the components share, the
  faults a C or C++ statement can raise, the conversions between the integer types of the
  source, and the generic lemmas on lists and maps the component proofs rest on.

  An operation that can abort, overrun a buffer or divide by zero returns a value of
  \<open>fault + 'a\<close>; \<open>Inl\<close> is the fault that ends the process at that point and
  \<open>Inr\<close> the result of a run that reaches the end of the function.
\<close>

named_theorems rpc_effects
  \<comment> \<open>what a step of a request leaves unchanged and what it sends\<close>

named_theorems rpc_faults
  \<comment> \<open>which faults a step of a request can raise\<close>

section \<open>Types\<close>

type_synonym byte = "8 word"
type_synonym path = string

text \<open>
  \<open>Assertion\<close>: a failed \<^verbatim>\<open>assert\<close>; \<open>Overrun\<close>: an access outside a character array;
  \<open>Null_Arg\<close>: a null pointer handed to a function that reads through it; \<open>Div_Zero\<close>:
  an integer division by zero; \<open>Vector_Range\<close>: an index outside a \<^verbatim>\<open>std::vector\<close>;
  \<open>Length_Error\<close>: a \<^verbatim>\<open>resize\<close> beyond what a vector can hold; \<open>Uninitialised\<close>: the use of
  a variable nothing was stored in; \<open>Dangling\<close>: an access through a pointer to a stack frame that
  is gone; \<open>Thrown\<close>: an exception that nothing catches; \<open>Exited\<close>: a call of \<^verbatim>\<open>exit\<close>;
  \<open>Never_Returns\<close>: a wait that nothing ends.
\<close>

datatype fault =
    Assertion
  | Overrun
  | Null_Arg
  | Div_Zero
  | Vector_Range
  | Length_Error
  | Uninitialised
  | Dangling
  | Thrown string
  | Exited int
  | Never_Returns

type_synonym 'a res = "fault + 'a"

section \<open>Integer conversions\<close>

text \<open>
  Values are mathematical integers; each assignment that narrows a value in the source is one
  of these conversions. \<open>wrap32\<close> is the conversion to \<^verbatim>\<open>int\<close> and \<^verbatim>\<open>int32_t\<close>, \<open>wrap64\<close> to
  \<^verbatim>\<open>ssize_t\<close> and \<^verbatim>\<open>int64_t\<close>, \<open>uwrap32\<close> to \<^verbatim>\<open>uint32_t\<close>, \<open>uwrap64\<close> to \<^verbatim>\<open>size_t\<close> and
  \<^verbatim>\<open>hg_size_t\<close>.
\<close>

definition wrap32 :: "int \<Rightarrow> int" where
  "wrap32 x = (x + 2147483648) mod 4294967296 - 2147483648"

definition wrap64 :: "int \<Rightarrow> int" where
  "wrap64 x = (x + 9223372036854775808) mod 18446744073709551616 - 9223372036854775808"

definition uwrap32 :: "int \<Rightarrow> int" where
  "uwrap32 x = x mod 4294967296"

definition uwrap64 :: "int \<Rightarrow> int" where
  "uwrap64 x = x mod 18446744073709551616"

lemmas wrap_defs = wrap32_def wrap64_def uwrap32_def uwrap64_def

lemma wrap32_id [simp]: "- 2147483648 \<le> x \<Longrightarrow> x < 2147483648 \<Longrightarrow> wrap32 x = x"
  by (simp add: wrap32_def)

lemma wrap64_id [simp]:
  "- 9223372036854775808 \<le> x \<Longrightarrow> x < 9223372036854775808 \<Longrightarrow> wrap64 x = x"
  by (simp add: wrap64_def)

lemma uwrap32_id [simp]: "0 \<le> x \<Longrightarrow> x < 4294967296 \<Longrightarrow> uwrap32 x = x"
  by (simp add: uwrap32_def)

lemma uwrap64_id [simp]: "0 \<le> x \<Longrightarrow> x < 18446744073709551616 \<Longrightarrow> uwrap64 x = x"
  by (simp add: uwrap64_def)

lemma wrap32_range: "- 2147483648 \<le> wrap32 x" "wrap32 x < 2147483648"
  by (simp_all add: wrap32_def)

lemma uwrap32_range: "0 \<le> uwrap32 x" "uwrap32 x < 4294967296"
  by (simp_all add: uwrap32_def)

lemma uwrap64_range: "0 \<le> uwrap64 x" "uwrap64 x < 18446744073709551616"
  by (simp_all add: uwrap64_def)

text \<open>The upper half of the unsigned range is read as negative.\<close>

lemma wrap32_high:
  assumes "2147483648 \<le> x" and "x < 4294967296"
  shows "wrap32 x = x - 4294967296"
proof -
  have "(x + 2147483648) mod 4294967296 = (x + 2147483648 - 4294967296) mod 4294967296"
    by (rule minus_mod_self2 [symmetric])
  also have "\<dots> = x - 2147483648" using assms by simp
  finally show ?thesis by (simp add: wrap32_def)
qed

lemma wrap32_idem [simp]: "wrap32 (wrap32 x) = wrap32 x"
  using wrap32_range [of x] by simp

text \<open>The conversions are the readings of a machine word of the same width.\<close>

lemma wrap32_word: "wrap32 x = sint (word_of_int x :: 32 word)"
  by (simp add: wrap32_def sint_sbintrunc' signed_take_bit_eq_take_bit_shift take_bit_eq_mod)

lemma wrap64_word: "wrap64 x = sint (word_of_int x :: 64 word)"
  by (simp add: wrap64_def sint_sbintrunc' signed_take_bit_eq_take_bit_shift take_bit_eq_mod)

lemma uwrap32_word: "uwrap32 x = uint (word_of_int x :: 32 word)"
  by (simp add: uwrap32_def uint_word_of_int)

lemma uwrap64_word: "uwrap64 x = uint (word_of_int x :: 64 word)"
  by (simp add: uwrap64_def uint_word_of_int)

section \<open>Results\<close>

text \<open>\<open>andThen r k\<close> runs the rest of a function after a statement that may fault.\<close>

definition andThen :: "'a res \<Rightarrow> ('a \<Rightarrow> 'b res) \<Rightarrow> 'b res" where
  "andThen r k = (case r of Inl e \<Rightarrow> Inl e | Inr x \<Rightarrow> k x)"

lemma andThen_simps [simp]:
  "andThen (Inl e) k = Inl e"
  "andThen (Inr x) k = k x"
  by (simp_all add: andThen_def)

lemma andThen_Inr_iff:
  "andThen r k = Inr y \<longleftrightarrow> (\<exists>x. r = Inr x \<and> k x = Inr y)"
  by (cases r) simp_all

lemma andThen_Inl_iff:
  "andThen r k = Inl e \<longleftrightarrow> r = Inl e \<or> (\<exists>x. r = Inr x \<and> k x = Inl e)"
  by (cases r) simp_all

lemmas andThen_iffs = andThen_Inr_iff andThen_Inl_iff

definition assert_that :: "bool \<Rightarrow> unit res" where
  "assert_that b = (if b then Inr () else Inl Assertion)"

lemma assert_that_simps [simp]:
  "assert_that True = Inr ()"
  "assert_that False = Inl Assertion"
  "assert_that b = Inr u \<longleftrightarrow> b"
  "assert_that b = Inl e \<longleftrightarrow> \<not> b \<and> e = Assertion"
  by (auto simp: assert_that_def)

section \<open>Maps and buffers\<close>

text \<open>
  The subscript operator of \<^verbatim>\<open>std::map\<close> inserts a default value for a key that is not there and
  then reads it: \<open>subscript d m k\<close> is the value read and the map left behind.
\<close>

definition subscript :: "'v \<Rightarrow> ('k \<rightharpoonup> 'v) \<Rightarrow> 'k \<Rightarrow> 'v \<times> ('k \<rightharpoonup> 'v)" where
  "subscript d m k = (case m k of Some v \<Rightarrow> (v, m) | None \<Rightarrow> (d, m(k \<mapsto> d)))"

lemma subscript_Some [simp]: "m k = Some v \<Longrightarrow> subscript d m k = (v, m)"
  by (simp add: subscript_def)

lemma subscript_None [simp]: "m k = None \<Longrightarrow> subscript d m k = (d, m(k \<mapsto> d))"
  by (simp add: subscript_def)

lemma subscript_map: "snd (subscript d m k) = m(k \<mapsto> fst (subscript d m k))"
  by (auto simp: subscript_def split: option.splits)

lemma subscript_other: "j \<noteq> k \<Longrightarrow> snd (subscript d m k) j = m j"
  by (auto simp: subscript_def split: option.splits)

text \<open>Storing the bytes \<open>d\<close> at the start of a buffer leaves the rest of it as it was.\<close>

definition store_bytes :: "'a list \<Rightarrow> 'a list \<Rightarrow> 'a list" where
  "store_bytes buf d = d @ drop (length d) buf"

lemma length_store_bytes: "length d \<le> length buf \<Longrightarrow> length (store_bytes buf d) = length buf"
  by (simp add: store_bytes_def)

lemma take_store_bytes [simp]: "take (length d) (store_bytes buf d) = d"
  by (simp add: store_bytes_def)

lemma store_bytes_Nil [simp]: "store_bytes buf [] = buf"
  by (simp add: store_bytes_def)

lemma store_bytes_twice:
  "length d \<le> length e \<Longrightarrow> store_bytes (store_bytes buf d) e = store_bytes buf e"
  by (simp add: store_bytes_def)

end
