(* ===== verification/C_Strings.thy ===== *)
theory C_Strings
  imports Ftc_Base
begin

text \<open>
  The parts of the C and C++ string library the source uses: character arrays of a fixed size
  with \<^verbatim>\<open>strncpy\<close> and the explicit terminator, searching, decimal printing (\<^verbatim>\<open>%d\<close>,
  \<^verbatim>\<open>std::to_string\<close>), \<^verbatim>\<open>snprintf\<close> into an array, \<^verbatim>\<open>atoi\<close> and the \<^verbatim>\<open>%d\<close> and \<^verbatim>\<open>%s\<close>
  conversions of \<^verbatim>\<open>fscanf\<close>. The lemmas give the round trip between printing and scanning
  and the contents an array holds after a bounded copy.
\<close>

section \<open>Character arrays\<close>

text \<open>
  A character array is the list of its bytes, of the array's size. A C string is the list of
  its characters without the terminator.
\<close>

definition NUL :: char where
  "NUL = CHR 0x00"

definition no_nul :: "string \<Rightarrow> bool" where
  "no_nul s \<longleftrightarrow> NUL \<notin> set s"

text \<open>The string a C function reads from an array; reading runs off an array with no terminator.\<close>

definition cstr :: "char list \<Rightarrow> string res" where
  "cstr buf = (if NUL \<in> set buf then Inr (takeWhile (\<lambda>c. c \<noteq> NUL) buf) else Inl Overrun)"

text \<open>
  \<^verbatim>\<open>strncpy(dst, src, n)\<close> writes exactly \<open>n\<close> bytes: the first \<open>n\<close> of the source, or all of
  it followed by terminators. It adds no terminator when the source has \<open>n\<close> bytes or more.
\<close>

definition strncpy :: "char list \<Rightarrow> string \<Rightarrow> nat \<Rightarrow> char list res" where
  "strncpy dst src n =
     (if n \<le> length dst then Inr (take n (src @ replicate n NUL) @ drop n dst) else Inl Overrun)"

definition put_char :: "char list \<Rightarrow> nat \<Rightarrow> char \<Rightarrow> char list res" where
  "put_char buf i c = (if i < length buf then Inr (buf[i := c]) else Inl Overrun)"

text \<open>\<^verbatim>\<open>snprintf(buf, n, ...)\<close> stores at most \<open>n - 1\<close> characters of the text and a terminator.\<close>

definition snprintf_text :: "nat \<Rightarrow> string \<Rightarrow> string" where
  "snprintf_text n s = take (n - 1) s"

definition snprintf_buf :: "char list \<Rightarrow> string \<Rightarrow> char list" where
  "snprintf_buf buf s =
     (let t = snprintf_text (length buf) s in t @ NUL # drop (length t + 1) buf)"

text \<open>The pair of statements \<^verbatim>\<open>strncpy(a, s, sizeof(a) - 1); a[sizeof(a) - 1] = 0\<close>.\<close>

definition copy_terminated :: "char list \<Rightarrow> string \<Rightarrow> char list res" where
  "copy_terminated buf s =
     andThen (strncpy buf s (length buf - 1)) (\<lambda>b. put_char b (length b - 1) NUL)"

lemma no_nul_simps [simp]:
  "no_nul []"
  "no_nul (c # s) \<longleftrightarrow> c \<noteq> NUL \<and> no_nul s"
  "no_nul (s @ t) \<longleftrightarrow> no_nul s \<and> no_nul t"
  by (auto simp: no_nul_def)

lemma takeWhile_not_nul [simp]: "no_nul s \<Longrightarrow> takeWhile (\<lambda>c. c \<noteq> NUL) (s @ NUL # r) = s"
  by (induction s) (auto simp: no_nul_def)

lemma no_nul_take [simp]: "no_nul s \<Longrightarrow> no_nul (take n s)"
  by (auto simp: no_nul_def dest: in_set_takeD)

lemma cstr_terminated [simp]: "no_nul s \<Longrightarrow> cstr (s @ NUL # r) = Inr s"
  by (simp add: cstr_def)

lemma length_strncpy: "strncpy dst src n = Inr b \<Longrightarrow> length b = length dst"
  by (auto simp: strncpy_def split: if_splits)

lemma take_pad:
  "take n (s @ replicate n c) = take n s @ replicate (n - length s) c"
  by (simp add: take_append min_def)

text \<open>A copy of \<open>n\<close> bytes followed by a terminator at position \<open>n\<close> holds the first \<open>n\<close> characters.\<close>

lemma strncpy_put:
  assumes "n < length dst" and "no_nul src"
  obtains b where "andThen (strncpy dst src n) (\<lambda>b. put_char b n NUL) = Inr b"
    and "cstr b = Inr (take n src)" and "length b = length dst"
proof -
  let ?t = "take n src" and ?p = "replicate (n - length src) NUL"
  have drop: "drop n dst = dst ! n # drop (Suc n) dst"
    using assms(1) by (simp add: Cons_nth_drop_Suc)
  have len: "length (?t @ ?p) = n" by simp
  have "andThen (strncpy dst src n) (\<lambda>b. put_char b n NUL) =
      Inr ((?t @ ?p @ drop n dst)[n := NUL])"
    using assms(1) by (simp add: strncpy_def put_char_def take_pad)
  moreover have "(?t @ ?p @ drop n dst)[n := NUL] = ?t @ ?p @ NUL # drop (Suc n) dst"
    using list_update_append [of "?t @ ?p" "drop n dst" n NUL] len drop by simp
  moreover have "cstr (?t @ ?p @ NUL # drop (Suc n) dst) = Inr ?t"
  proof (cases "n - length src")
    case 0
    then show ?thesis using assms(2) by simp
  next
    case (Suc k)
    then show ?thesis using assms(2) by simp
  qed
  moreover have "length (?t @ ?p @ NUL # drop (Suc n) dst) = length dst"
    using assms(1) by simp
  ultimately show thesis using that by metis
qed

lemma copy_terminated_ok:
  assumes "0 < length buf" and "no_nul s"
  shows "\<exists>b. copy_terminated buf s = Inr b \<and> cstr b = Inr (take (length buf - 1) s) \<and>
    length b = length buf"
proof -
  obtain b where b: "andThen (strncpy buf s (length buf - 1))
      (\<lambda>b. put_char b (length buf - 1) NUL) = Inr b"
    "cstr b = Inr (take (length buf - 1) s)" "length b = length buf"
    using strncpy_put [of "length buf - 1" buf s] assms by auto
  then have "copy_terminated buf s = Inr b"
    using length_strncpy by (fastforce simp: copy_terminated_def andThen_iffs)
  with b show ?thesis by blast
qed

lemma snprintf_buf_ok:
  assumes "0 < length buf" and "no_nul s"
  shows "cstr (snprintf_buf buf s) = Inr (take (length buf - 1) s)"
    and "length (snprintf_buf buf s) = length buf"
proof -
  show "cstr (snprintf_buf buf s) = Inr (take (length buf - 1) s)"
    using assms by (simp add: snprintf_buf_def snprintf_text_def Let_def)
  have "min (length s) (length buf - 1) + 1 \<le> length buf"
    using assms(1) by linarith
  then show "length (snprintf_buf buf s) = length buf"
    by (simp add: snprintf_buf_def snprintf_text_def Let_def)
qed

section \<open>Searching\<close>

text \<open>\<^verbatim>\<open>strchr\<close>: the position of the first occurrence.\<close>

fun strchr :: "string \<Rightarrow> char \<Rightarrow> nat option" where
  "strchr [] c = None"
| "strchr (x # xs) c = (if x = c then Some 0 else map_option Suc (strchr xs c))"

lemma strchr_None_iff: "strchr s c = None \<longleftrightarrow> c \<notin> set s"
  by (induction s) auto

lemma strchr_append: "c \<notin> set s \<Longrightarrow> strchr (s @ c # r) c = Some (length s)"
  by (induction s) auto

lemma strchr_Some_less: "strchr s c = Some i \<Longrightarrow> i < length s"
  by (induction s arbitrary: i) (auto split: if_splits)

lemma strchr_Some_split:
  "strchr s c = Some i \<Longrightarrow> s = take i s @ c # drop (Suc i) s \<and> c \<notin> set (take i s)"
  by (induction s arbitrary: i) (auto split: if_splits)

text \<open>\<^verbatim>\<open>strstr\<close> and \<^verbatim>\<open>std::string::find\<close>: whether one string occurs in another.\<close>

fun starts_with :: "string \<Rightarrow> string \<Rightarrow> bool" where
  "starts_with [] s = True"
| "starts_with (x # xs) [] = False"
| "starts_with (x # xs) (y # ys) = (x = y \<and> starts_with xs ys)"

fun contains :: "string \<Rightarrow> string \<Rightarrow> bool" where
  "contains pat [] = (pat = [])"
| "contains pat (x # xs) = (starts_with pat (x # xs) \<or> contains pat xs)"

lemma starts_with_iff: "starts_with p s \<longleftrightarrow> (\<exists>r. s = p @ r)"
  by (induction p s rule: starts_with.induct) auto

lemma contains_iff: "contains p s \<longleftrightarrow> (\<exists>a b. s = a @ p @ b)"
proof (induction s)
  case Nil
  then show ?case by auto
next
  case (Cons x s)
  have "contains p (x # s) \<longleftrightarrow> (\<exists>r. x # s = p @ r) \<or> (\<exists>a b. s = a @ p @ b)"
    using Cons.IH by (simp add: starts_with_iff)
  also have "\<dots> \<longleftrightarrow> (\<exists>a b. x # s = a @ p @ b)"
    by (metis append_Cons append_Nil append_eq_Cons_conv)
  finally show ?case .
qed

text \<open>The part of a path after its last slash (\<^verbatim>\<open>fs::path::filename\<close>) and the part before it.\<close>

definition filename_of :: "path \<Rightarrow> string" where
  "filename_of p = rev (takeWhile (\<lambda>c. c \<noteq> CHR ''/'') (rev p))"

definition parent_of :: "path \<Rightarrow> path" where
  "parent_of p =
     (let d = rev (dropWhile (\<lambda>c. c \<noteq> CHR ''/'') (rev p))
      in if d = ''/'' then d else butlast d)"

lemma filename_of_split:
  "CHR ''/'' \<notin> set f \<Longrightarrow> filename_of (d @ ''/'' @ f) = f"
  by (simp add: filename_of_def takeWhile_append)

section \<open>Decimal printing\<close>

definition digit_char :: "nat \<Rightarrow> char" where
  "digit_char n = char_of (48 + n)"

definition is_digit :: "char \<Rightarrow> bool" where
  "is_digit c \<longleftrightarrow> 48 \<le> (of_char c :: nat) \<and> (of_char c :: nat) \<le> 57"

definition digit_val :: "char \<Rightarrow> nat" where
  "digit_val c = of_char c - 48"

lemma of_digit_char: "d < 10 \<Longrightarrow> (of_char (digit_char d) :: nat) = 48 + d"
  by (simp add: digit_char_def)

lemma is_digit_digit_char [simp]: "d < 10 \<Longrightarrow> is_digit (digit_char d)"
  by (simp add: is_digit_def of_digit_char)

lemma digit_val_digit_char [simp]: "d < 10 \<Longrightarrow> digit_val (digit_char d) = d"
  by (simp add: digit_val_def of_digit_char)

fun show_nat :: "nat \<Rightarrow> string" where
  "show_nat n = (if n < 10 then [digit_char n] else show_nat (n div 10) @ [digit_char (n mod 10)])"

declare show_nat.simps [simp del]

definition show_int :: "int \<Rightarrow> string" where
  "show_int x = (if x < 0 then CHR ''-'' # show_nat (nat (- x)) else show_nat (nat x))"

lemma show_nat_nonempty [simp]: "show_nat n \<noteq> []"
  by (subst show_nat.simps) simp

lemma show_nat_digits: "\<forall>c \<in> set (show_nat n). is_digit c"
proof (induction n rule: show_nat.induct)
  case (1 n)
  show ?case
  proof (cases "n < 10")
    case True
    then show ?thesis by (simp add: show_nat.simps [of n])
  next
    case False
    with 1 show ?thesis by (simp add: show_nat.simps [of n])
  qed
qed

lemma length_show_nat: "n < 10 ^ k \<Longrightarrow> 0 < k \<Longrightarrow> length (show_nat n) \<le> k"
proof (induction n arbitrary: k rule: show_nat.induct)
  case (1 n)
  show ?case
  proof (cases "n < 10")
    case True
    with 1 show ?thesis by (simp add: show_nat.simps [of n])
  next
    case False
    then have "k \<noteq> 1" using "1.prems" by auto
    then obtain j where j: "k = Suc j" "0 < j"
      using "1.prems" by (cases k) auto
    then have "n div 10 < 10 ^ j" using "1.prems" by (simp add: div_less_iff_less_mult)
    then have "length (show_nat (n div 10)) \<le> j" using "1.IH" False j by blast
    with False j show ?thesis by (simp add: show_nat.simps [of n])
  qed
qed

lemma length_show_nat_ge: "10 ^ k \<le> n \<Longrightarrow> k < length (show_nat n)"
proof (induction n arbitrary: k rule: show_nat.induct)
  case (1 n)
  show ?case
  proof (cases k)
    case 0
    then show ?thesis by simp
  next
    case (Suc j)
    then have big: "\<not> n < 10" using "1.prems"
      by (metis not_less one_le_numeral one_le_power order_trans mult_le_mono2 mult.right_neutral power_Suc)
    have "10 ^ j \<le> n div 10" using "1.prems" Suc by (simp add: less_eq_div_iff_mult_less_eq mult.commute)
    then have "j < length (show_nat (n div 10))" using "1.IH" big by blast
    with big Suc show ?thesis by (simp add: show_nat.simps [of n])
  qed
qed

section \<open>Scanning integers\<close>

definition is_space :: "char \<Rightarrow> bool" where
  "is_space c \<longleftrightarrow> (let n = (of_char c :: nat) in n = 32 \<or> (9 \<le> n \<and> n \<le> 13))"

definition skip_space :: "string \<Rightarrow> string" where
  "skip_space s = dropWhile is_space s"

fun scan_digits :: "nat \<Rightarrow> string \<Rightarrow> nat \<times> string" where
  "scan_digits acc [] = (acc, [])"
| "scan_digits acc (c # cs) =
     (if is_digit c then scan_digits (10 * acc + digit_val c) cs else (acc, c # cs))"

text \<open>
  An optional sign and at least one digit after white space, as \<^verbatim>\<open>strtol\<close> and the \<^verbatim>\<open>%d\<close>
  conversion accept it; \<open>None\<close> is a matching failure. Both convert through \<^verbatim>\<open>long\<close>, which
  saturates, and then store an \<^verbatim>\<open>int\<close>.
\<close>

definition scan_long :: "string \<Rightarrow> (int \<times> string) option" where
  "scan_long s =
     (let t = skip_space s;
          neg = (t \<noteq> [] \<and> hd t = CHR ''-'');
          u = (if t \<noteq> [] \<and> (hd t = CHR ''-'' \<or> hd t = CHR ''+'') then tl t else t)
      in if u \<noteq> [] \<and> is_digit (hd u)
         then (let (n, r) = scan_digits 0 u in Some (if neg then - int n else int n, r))
         else None)"

definition long_to_int :: "int \<Rightarrow> int" where
  "long_to_int v = wrap32 (max (- 9223372036854775808) (min 9223372036854775807 v))"

definition atoi :: "string \<Rightarrow> int" where
  "atoi s = (case scan_long s of None \<Rightarrow> 0 | Some (v, _) \<Rightarrow> long_to_int v)"

lemma digit_not_sign: "is_digit c \<Longrightarrow> c \<noteq> CHR ''-'' \<and> c \<noteq> CHR ''+''"
  by (auto simp: is_digit_def)

lemma digit_not_space: "is_digit c \<Longrightarrow> \<not> is_space c"
  by (auto simp: is_digit_def is_space_def Let_def)

lemma scan_digits_append:
  "\<forall>c \<in> set ds. is_digit c \<Longrightarrow> r = [] \<or> \<not> is_digit (hd r) \<Longrightarrow>
   scan_digits acc (ds @ r) = (foldl (\<lambda>a c. 10 * a + digit_val c) acc ds, r)"
proof (induction ds arbitrary: acc)
  case Nil
  then show ?case by (cases r) auto
next
  case (Cons d ds)
  then show ?case by simp
qed

lemma foldl_show_nat: "foldl (\<lambda>a c. 10 * a + digit_val c) 0 (show_nat n) = n"
proof (induction n rule: show_nat.induct)
  case (1 n)
  then show ?case by (cases "n < 10") (simp_all add: show_nat.simps [of n])
qed

lemma scan_show_nat:
  "r = [] \<or> \<not> is_digit (hd r) \<Longrightarrow> scan_digits 0 (show_nat n @ r) = (n, r)"
  by (simp add: scan_digits_append show_nat_digits foldl_show_nat)

lemma hd_show_nat: "is_digit (hd (show_nat n))"
  using show_nat_digits list.set_sel(1) [OF show_nat_nonempty] by blast

lemma skip_space_digit [simp]: "s \<noteq> [] \<Longrightarrow> is_digit (hd s) \<Longrightarrow> skip_space s = s"
  by (cases s) (auto simp: skip_space_def dest: digit_not_space)

text \<open>Scanning what was printed gives the number back and stops where the number ends.\<close>

lemma scan_show_int:
  assumes "r = [] \<or> \<not> is_digit (hd r)"
  shows "scan_long (show_int x @ r) = Some (x, r)"
proof (cases "x < 0")
  case True
  have "skip_space (show_int x @ r) = CHR ''-'' # show_nat (nat (- x)) @ r"
    using True by (simp add: show_int_def skip_space_def is_space_def)
  then show ?thesis
    using True assms hd_show_nat by (simp add: scan_long_def scan_show_nat)
next
  case False
  have s: "show_int x @ r = show_nat (nat x) @ r" using False by (simp add: show_int_def)
  have h: "is_digit (hd (show_nat (nat x) @ r))" using hd_show_nat by simp
  have "skip_space (show_nat (nat x) @ r) = show_nat (nat x) @ r" using h by simp
  then show ?thesis
    using False assms h digit_not_sign [OF h] by (simp add: s scan_long_def scan_show_nat Let_def)
qed

lemma long_to_int_id [simp]: "- 2147483648 \<le> x \<Longrightarrow> x < 2147483648 \<Longrightarrow> long_to_int x = x"
  by (simp add: long_to_int_def)

lemma atoi_show_int:
  assumes "- 2147483648 \<le> x" and "x < 2147483648"
  shows "atoi (show_int x) = x"
  using scan_show_int [of "[]" x] assms by (simp add: atoi_def)

lemma show_int_inject: "show_int x = show_int y \<longleftrightarrow> x = y"
proof
  assume eq: "show_int x = show_int y"
  have "scan_long (show_int x) = Some (x, [])" "scan_long (show_int y) = Some (y, [])"
    using scan_show_int [of "[]" x] scan_show_int [of "[]" y] by simp_all
  then have "Some (x, []) = (Some (y, []) :: (int \<times> string) option)"
    unfolding eq by (rule trans [OF sym])
  then show "x = y" by simp
qed simp

lemma no_nul_show_nat: "no_nul (show_nat n)"
proof -
  have "\<not> is_digit NUL" by (simp add: is_digit_def NUL_def)
  then show ?thesis using show_nat_digits unfolding no_nul_def by blast
qed

lemma no_nul_show_int: "no_nul (show_int x)"
proof -
  have "CHR ''-'' \<noteq> NUL" by (simp add: NUL_def)
  then show ?thesis by (simp add: show_int_def no_nul_show_nat)
qed

end
