(* ===== verification/Address_Book.thy ===== *)
theory Address_Book
  imports C_Strings
begin

text \<open>
  The addresses servers and clients work with: \<open>extract_ip_portion\<close>, which cuts the host part
  out of a Mercury address and decides whether a peer runs on the same node; the file
  \<^verbatim>\<open>./.ports.cfg.<job>\<close> in which every server posts its rank and address
  (\<open>ftc_comm_list_addr\<close> of ftc_comm.cpp); and the client's search of that file
  (\<open>ftc_client_comm_lookup_addr\<close> of ftc_comm_client.cpp). The lemmas show that the cut never
  leaves its array, what it keeps, and that what the servers post is what a client finds.
\<close>

section \<open>The host part of an address\<close>

text \<open>\<^verbatim>\<open>max_len - 1\<close> on an unsigned \<^verbatim>\<open>size_t\<close>: zero wraps around.\<close>

definition size_pred :: "nat \<Rightarrow> nat" where
  "size_pred n = (if n = 0 then 2 ^ 64 - 1 else n - 1)"

definition second_colon :: "string \<Rightarrow> nat option" where
  "second_colon full =
     (case strchr full CHR '':'' of
        None \<Rightarrow> None
      | Some p \<Rightarrow> map_option (\<lambda>q. Suc p + q) (strchr (drop (Suc p) full) CHR '':''))"

definition extract_ip_portion :: "string \<Rightarrow> char list \<Rightarrow> nat \<Rightarrow> char list res" where
  "extract_ip_portion full_address ip_portion max_len =
     (case second_colon full_address of
        Some pos \<Rightarrow>
          (let len = pos + 1
           in if len < max_len
              then andThen (strncpy ip_portion full_address len) (\<lambda>b. put_char b len NUL)
              else andThen (strncpy ip_portion full_address (size_pred max_len))
                     (\<lambda>b. put_char b (size_pred max_len) NUL))
      | None \<Rightarrow>
          andThen (strncpy ip_portion full_address (size_pred max_len))
            (\<lambda>b. put_char b (size_pred max_len) NUL))"

text \<open>\<^verbatim>\<open>strcmp(a, b) == 0 ? 1 : 0\<close> on two character arrays.\<close>

definition strcmp_flag :: "char list \<Rightarrow> char list \<Rightarrow> int res" where
  "strcmp_flag a b =
     andThen (cstr a) (\<lambda>x. andThen (cstr b) (\<lambda>y. Inr (if x = y then 1 else 0)))"

text \<open>What the cut keeps: up to and including the second colon, or everything.\<close>

definition ip_length :: "string \<Rightarrow> nat" where
  "ip_length full = (case second_colon full of Some pos \<Rightarrow> pos + 1 | None \<Rightarrow> length full)"

lemma second_colon_split:
  assumes "CHR '':'' \<notin> set a" and "CHR '':'' \<notin> set b"
  shows "second_colon (a @ '':'' @ b @ '':'' @ c) = Some (length a + 1 + length b)"
  using assms by (simp add: second_colon_def strchr_append)

lemma second_colon_less:
  assumes "second_colon s = Some p"
  shows "p < length s"
  using assms
  by (auto simp: second_colon_def split: option.splits dest!: strchr_Some_less)

lemma ip_length_le: "ip_length s \<le> length s"
  using second_colon_less by (force simp: ip_length_def split: option.splits)

lemma extract_ip_portion_ok:
  assumes "0 < length buf" and "no_nul full"
  shows "\<exists>b. extract_ip_portion full buf (length buf) = Inr b \<and>
    cstr b = Inr (take (min (ip_length full) (length buf - 1)) full) \<and> length b = length buf"
proof -
  obtain short where short:
    "andThen (strncpy buf full (length buf - 1)) (\<lambda>b. put_char b (length buf - 1) NUL) = Inr short"
    "cstr short = Inr (take (length buf - 1) full)" "length short = length buf"
    using strncpy_put [of "length buf - 1" buf full] assms by auto
  have pred: "size_pred (length buf) = length buf - 1"
    using assms(1) by (simp add: size_pred_def)
  show ?thesis
  proof (cases "second_colon full")
    case None
    have "take (length buf - 1) full = take (min (length full) (length buf - 1)) full"
      by (simp add: min_def)
    with None short pred show ?thesis
      by (simp add: extract_ip_portion_def ip_length_def)
  next
    case (Some pos)
    show ?thesis
    proof (cases "pos + 1 < length buf")
      case True
      then obtain b where
        "andThen (strncpy buf full (pos + 1)) (\<lambda>b. put_char b (pos + 1) NUL) = Inr b"
        "cstr b = Inr (take (pos + 1) full)" "length b = length buf"
        using strncpy_put [of "pos + 1" buf full] assms by auto
      moreover have "min (pos + 1) (length buf - 1) = pos + 1"
        using True by linarith
      ultimately show ?thesis
        using True Some by (simp add: extract_ip_portion_def ip_length_def Let_def)
    next
      case False
      then have "min (pos + 1) (length buf - 1) = length buf - 1" by linarith
      with False Some short pred show ?thesis
        by (simp add: extract_ip_portion_def ip_length_def Let_def)
    qed
  qed
qed

text \<open>Cutting two addresses into two arrays of the same size and comparing them.\<close>

lemma strcmp_extract:
  assumes "0 < n" and "no_nul x" and "no_nul y"
    and "extract_ip_portion x bx n = Inr ax" and "length bx = n"
    and "extract_ip_portion y by' n = Inr ay" and "length by' = n"
  shows "strcmp_flag ax ay =
    Inr (if take (min (ip_length x) (n - 1)) x = take (min (ip_length y) (n - 1)) y
         then 1 else 0)"
proof -
  from assms(1,2,4,5) extract_ip_portion_ok [of bx x]
  have "cstr ax = Inr (take (min (ip_length x) (n - 1)) x)" by auto
  moreover from assms(1,3,6,7) extract_ip_portion_ok [of by' y]
  have "cstr ay = Inr (take (min (ip_length y) (n - 1)) y)" by auto
  ultimately show ?thesis by (simp add: strcmp_flag_def)
qed

section \<open>The address file\<close>

definition PATH_MAX :: nat where
  "PATH_MAX = 4096"

text \<open>\<^verbatim>\<open>printf\<close> of a null \<^verbatim>\<open>char *\<close>, as glibc prints it.\<close>

definition text_of_env :: "string option \<Rightarrow> string" where
  "text_of_env v = (case v of None \<Rightarrow> ''(null)'' | Some s \<Rightarrow> s)"

text \<open>An unbounded \<^verbatim>\<open>sprintf\<close> into an array of \<open>n\<close> bytes.\<close>

definition sprintf_text :: "nat \<Rightarrow> string \<Rightarrow> string res" where
  "sprintf_text n s = (if length s < n then Inr s else Inl Overrun)"

definition ports_filename :: "string option \<Rightarrow> path res" where
  "ports_filename jobid = sprintf_text PATH_MAX (''./.ports.cfg.'' @ text_of_env jobid)"

definition newline :: char where
  "newline = CHR 0x0A"

definition ports_line :: "int \<Rightarrow> string \<Rightarrow> string" where
  "ports_line rank addr = show_int rank @ '' '' @ addr @ [newline]"

text \<open>
  \<open>openable\<close> tells whether \<^verbatim>\<open>fopen\<close> succeeds on a name, \<open>files\<close> holds the text files of the
  working directory, \<open>self_addr\<close> is what Mercury reports as the process's own address.
\<close>

definition ftc_comm_list_addr ::
  "string option \<Rightarrow> (path \<Rightarrow> bool) \<Rightarrow> string \<Rightarrow> int \<Rightarrow> char list \<Rightarrow> (path \<rightharpoonup> string) \<Rightarrow>
   (char list \<times> (path \<rightharpoonup> string)) res" where
  "ftc_comm_list_addr jobid openable self_addr rank server_addr_str files =
     andThen (ports_filename jobid) (\<lambda>filename.
     andThen (extract_ip_portion self_addr server_addr_str (length server_addr_str)) (\<lambda>addr_str.
     if \<not> openable filename then Inl (Exited 0)
     else (let old = (case files filename of None \<Rightarrow> [] | Some t \<Rightarrow> t)
           in Inr (addr_str, files(filename \<mapsto> old @ ports_line rank self_addr)))))"

text \<open>\<^verbatim>\<open>fscanf(f, "%d %s\n", ...) == 2\<close>: the two values and the text left, or \<open>None\<close>.\<close>

definition fscanf_port :: "string \<Rightarrow> (int \<times> string \<times> string) option" where
  "fscanf_port s =
     (case scan_long s of
        None \<Rightarrow> None
      | Some (v, r) \<Rightarrow>
          (let t = skip_space r;
               tok = takeWhile (\<lambda>c. \<not> is_space c) t;
               rest = dropWhile (\<lambda>c. \<not> is_space c) t
           in if tok = [] then None else Some (long_to_int v, tok, skip_space rest)))"

lemma scan_digits_length: "length (snd (scan_digits acc s)) \<le> length s"
  by (induction acc s rule: scan_digits.induct) auto

lemma scan_long_length: "scan_long s = Some (v, r) \<Longrightarrow> length r \<le> length s"
proof -
  assume s: "scan_long s = Some (v, r)"
  have sk: "length (skip_space s) \<le> length s"
    by (simp add: skip_space_def length_dropWhile_le)
  let ?u = "if skip_space s \<noteq> [] \<and> (hd (skip_space s) = CHR ''-'' \<or> hd (skip_space s) = CHR ''+'')
    then tl (skip_space s) else skip_space s"
  from s have "r = snd (scan_digits 0 ?u)"
    by (auto simp: scan_long_def Let_def split: if_splits prod.splits)
  moreover have "length ?u \<le> length (skip_space s)" by simp
  ultimately obtain u where "length u \<le> length (skip_space s)" "r = snd (scan_digits 0 u)"
    by blast
  then show ?thesis using sk scan_digits_length [of 0 u] by simp
qed

lemma fscanf_port_length: "fscanf_port s = Some (v, tok, rest) \<Longrightarrow> length rest < length s"
proof -
  assume a: "fscanf_port s = Some (v, tok, rest)"
  then obtain w r where r: "scan_long s = Some (w, r)"
    and tok: "tok = takeWhile (\<lambda>c. \<not> is_space c) (skip_space r)" "tok \<noteq> []"
    and rest: "rest = skip_space (dropWhile (\<lambda>c. \<not> is_space c) (skip_space r))"
    by (auto simp: fscanf_port_def Let_def split: option.splits if_splits)
  have "length tok + length (dropWhile (\<lambda>c. \<not> is_space c) (skip_space r)) = length (skip_space r)"
    unfolding tok(1) by (metis length_append takeWhile_dropWhile_id)
  moreover have "length (skip_space r) \<le> length r" "length rest \<le>
      length (dropWhile (\<lambda>c. \<not> is_space c) (skip_space r))"
    by (simp_all add: rest skip_space_def length_dropWhile_le)
  moreover have "0 < length tok" using tok(2) by simp
  ultimately show ?thesis using scan_long_length [OF r] by linarith
qed

text \<open>
  The loop of \<open>ftc_client_comm_lookup_addr\<close>: read pairs until one has the wanted rank. The
  token is stored in an array of \<open>PATH_MAX\<close> bytes without a width limit.
\<close>

function scan_ports :: "string \<Rightarrow> int \<Rightarrow> string option res" where
  "scan_ports s rank =
     (case fscanf_port s of
        None \<Rightarrow> Inr None
      | Some (svr_rank, svr_str, rest) \<Rightarrow>
          if PATH_MAX \<le> length svr_str then Inl Overrun
          else if svr_rank = rank then Inr (Some svr_str)
          else scan_ports rest rank)"
  by pat_completeness auto
termination
  by (relation "measure (\<lambda>(s, rank). length s)") (auto dest: fscanf_port_length)

declare scan_ports.simps [simp del]

text \<open>
  \<open>lookup2\<close> is \<^verbatim>\<open>HG_Addr_lookup2\<close>: the handle it stores, or \<open>None\<close> when it fails and stores
  nothing. A rank that is not in the file leaves the returned variable unset.
\<close>

datatype 'a hg_addr = HG_ADDR_NULL | HG_ADDR 'a

definition hg_addr_of :: "'a option \<Rightarrow> 'a hg_addr res" where
  "hg_addr_of r = (case r of None \<Rightarrow> Inl Uninitialised | Some a \<Rightarrow> Inr (HG_ADDR a))"

definition ftc_client_comm_lookup_addr ::
  "(string \<Rightarrow> 'a option) \<Rightarrow> string option \<Rightarrow> (path \<rightharpoonup> string) \<Rightarrow> int \<Rightarrow> (int \<rightharpoonup> string) \<Rightarrow>
   ('a hg_addr \<times> (int \<rightharpoonup> string)) res" where
  "ftc_client_comm_lookup_addr lookup2 jobid files rank address_cache =
     (case address_cache rank of
        Some a \<Rightarrow> andThen (hg_addr_of (lookup2 a)) (\<lambda>t. Inr (t, address_cache))
      | None \<Rightarrow>
          andThen (ports_filename jobid) (\<lambda>filename.
          case files filename of
            None \<Rightarrow> Inr (HG_ADDR_NULL, address_cache)
          | Some na_config \<Rightarrow>
              andThen (scan_ports na_config rank) (\<lambda>found.
              case found of
                None \<Rightarrow> Inl Uninitialised
              | Some svr_str \<Rightarrow>
                  andThen (hg_addr_of (lookup2 svr_str)) (\<lambda>t.
                  Inr (t, address_cache(rank \<mapsto> svr_str))))))"

subsection \<open>Printing and scanning the file\<close>

text \<open>What a server can post so that a client can read it back.\<close>

definition postable :: "int \<Rightarrow> string \<Rightarrow> bool" where
  "postable rank addr \<longleftrightarrow> - 2147483648 \<le> rank \<and> rank < 2147483648 \<and> addr \<noteq> [] \<and>
     (\<forall>c \<in> set addr. \<not> is_space c) \<and> length addr < PATH_MAX"

lemma space_chars: "is_space CHR '' ''" "is_space newline"
  by (simp_all add: is_space_def newline_def)

lemma skip_space_nonspace: "\<forall>c \<in> set a. \<not> is_space c \<Longrightarrow> a \<noteq> [] \<Longrightarrow> skip_space (a @ r) = a @ r"
  by (cases a) (auto simp: skip_space_def)

lemma fscanf_port_line:
  assumes "postable rank addr" and "r = [] \<or> \<not> is_space (hd r)"
  shows "fscanf_port (ports_line rank addr @ r) = Some (rank, addr, r)"
proof -
  let ?r1 = "CHR '' '' # addr @ newline # r"
  have "\<not> is_digit (hd ?r1)" by (simp add: is_digit_def)
  then have scan: "scan_long (ports_line rank addr @ r) = Some (rank, ?r1)"
    using scan_show_int [of ?r1 rank] by (simp add: ports_line_def)
  have ns: "\<forall>c \<in> set addr. \<not> is_space c" "addr \<noteq> []"
    using assms(1) by (simp_all add: postable_def)
  have skip1: "skip_space ?r1 = addr @ newline # r"
    using skip_space_nonspace [OF ns] by (simp add: skip_space_def space_chars)
  have tok: "takeWhile (\<lambda>c. \<not> is_space c) (addr @ newline # r) = addr"
    using ns(1) by (simp add: takeWhile_append2 space_chars)
  have rest: "dropWhile (\<lambda>c. \<not> is_space c) (addr @ newline # r) = newline # r"
    using ns(1) by (simp add: dropWhile_append2 space_chars)
  have skip2: "skip_space (newline # r) = r"
    using assms(2) by (cases r) (auto simp: skip_space_def space_chars)
  show ?thesis
    using scan assms(1) ns(2)
    by (simp add: fscanf_port_def Let_def skip1 tok rest skip2 postable_def)
qed

lemma hd_ports_line: "\<not> is_space (hd (ports_line rank addr @ r))" "ports_line rank addr \<noteq> []"
proof -
  have "\<not> is_space (hd (show_int rank))"
    using hd_show_nat [THEN digit_not_space] by (simp add: show_int_def is_space_def)
  moreover have "show_int rank \<noteq> []" by (simp add: show_int_def)
  ultimately show "\<not> is_space (hd (ports_line rank addr @ r))" "ports_line rank addr \<noteq> []"
    by (simp_all add: ports_line_def)
qed

definition ports_text :: "(int \<times> string) list \<Rightarrow> string" where
  "ports_text es = concat (map (\<lambda>(r, a). ports_line r a) es)"

lemma ports_text_simps [simp]:
  "ports_text [] = []"
  "ports_text ((r, a) # es) = ports_line r a @ ports_text es"
  "ports_text (es @ fs) = ports_text es @ ports_text fs"
  by (simp_all add: ports_text_def)

lemma hd_ports_text: "ports_text es = [] \<or> \<not> is_space (hd (ports_text es))"
  using hd_ports_line(1) by (cases es) auto

lemma scan_ports_text:
  assumes "list_all (\<lambda>(r, a). postable r a) es"
  shows "scan_ports (ports_text es) rank = Inr (map_of es rank)"
  using assms
proof (induction es)
  case Nil
  have "fscanf_port [] = None" by (simp add: fscanf_port_def scan_long_def skip_space_def)
  then show ?case by (simp add: scan_ports.simps [of "[]"])
next
  case (Cons e es)
  obtain r a where e: "e = (r, a)" by (cases e)
  with Cons.prems have p: "postable r a" and ps: "list_all (\<lambda>(r, a). postable r a) es"
    by simp_all
  have line: "fscanf_port (ports_text (e # es)) = Some (r, a, ports_text es)"
    unfolding e ports_text_simps by (rule fscanf_port_line [OF p hd_ports_text])
  show ?case
    unfolding scan_ports.simps [of "ports_text (e # es)"]
    unfolding line using Cons.IH [OF ps] p by (simp add: e postable_def)
qed

section \<open>The file as a registry\<close>

text \<open>
  What clients rely on: a registry that servers post to and clients search, where the first
  posting of a rank is the one that is found. \<open>valid\<close> holds of the contents postings can leave.
\<close>

locale registry =
  fixes empty :: 't
    and post :: "int \<Rightarrow> string \<Rightarrow> 't \<Rightarrow> 't"
    and find :: "'t \<Rightarrow> int \<Rightarrow> string option res"
    and valid :: "'t \<Rightarrow> bool"
    and accepts :: "int \<Rightarrow> string \<Rightarrow> bool"
  assumes valid_empty: "valid empty"
    and find_empty: "find empty r = Inr None"
    and valid_post: "valid t \<Longrightarrow> accepts r a \<Longrightarrow> valid (post r a t)"
    and find_ok: "valid t \<Longrightarrow> \<exists>b. find t r = Inr b"
    and find_post: "valid t \<Longrightarrow> accepts r a \<Longrightarrow>
      find (post r a t) q =
        (if q = r \<and> find t q = Inr None then Inr (Some a) else find t q)"
begin

lemma valid_posts: "valid t \<Longrightarrow> list_all (\<lambda>(r, a). accepts r a) es \<Longrightarrow>
    valid (fold (\<lambda>(r, a). post r a) es t)"
  by (induction es arbitrary: t) (auto simp: valid_post)

text \<open>An address that was found once is found after any further postings.\<close>

lemma find_stable:
  assumes "valid t" and "list_all (\<lambda>(r, a). accepts r a) es" and "find t q = Inr (Some b)"
  shows "find (fold (\<lambda>(r, a). post r a) es t) q = Inr (Some b)"
  using assms by (induction es arbitrary: t) (auto simp: valid_post find_post)

text \<open>From an empty registry, the postings resolve like the list of their pairs.\<close>

lemma find_posts:
  assumes "valid t" and "list_all (\<lambda>(r, a). accepts r a) es" and "find t q = Inr None"
  shows "find (fold (\<lambda>(r, a). post r a) es t) q = Inr (map_of es q)"
  using assms
proof (induction es arbitrary: t)
  case Nil
  then show ?case by simp
next
  case (Cons e es)
  obtain r a where e: "e = (r, a)" by (cases e)
  with Cons.prems have ok: "accepts r a" "list_all (\<lambda>(r, a). accepts r a) es"
    "valid (post r a t)" by (auto simp: valid_post)
  show ?case
  proof (cases "q = r")
    case True
    then have "find (post r a t) q = Inr (Some a)"
      using Cons.prems ok by (simp add: find_post)
    with True ok show ?thesis by (simp add: e find_stable)
  next
    case False
    then have "find (post r a t) q = Inr None"
      using Cons.prems ok by (simp add: find_post)
    with False ok show ?thesis by (simp add: e Cons.IH)
  qed
qed

lemma find_all: "list_all (\<lambda>(r, a). accepts r a) es \<Longrightarrow>
    find (fold (\<lambda>(r, a). post r a) es empty) q = Inr (map_of es q)"
  by (simp add: find_posts valid_empty find_empty)

end

definition post_line :: "int \<Rightarrow> string \<Rightarrow> string \<Rightarrow> string" where
  "post_line r a t = t @ ports_line r a"

definition ports_valid :: "string \<Rightarrow> bool" where
  "ports_valid t \<longleftrightarrow> (\<exists>es. list_all (\<lambda>(r, a). postable r a) es \<and> t = ports_text es)"

interpretation ports: registry "[]" post_line scan_ports ports_valid postable
proof unfold_locales
  show "ports_valid []"
    unfolding ports_valid_def by (intro exI [of _ "[]"]) simp
  show "scan_ports [] r = Inr None" for r
    using scan_ports_text [of "[]" r] by simp
  show "ports_valid (post_line r a t)" if "ports_valid t" "postable r a" for r a t
  proof -
    from that(1) obtain es where "list_all (\<lambda>(r, a). postable r a) es" "t = ports_text es"
      unfolding ports_valid_def by blast
    with that(2) show ?thesis
      unfolding ports_valid_def by (intro exI [of _ "es @ [(r, a)]"]) (simp add: post_line_def)
  qed
  show "\<exists>b. scan_ports t r = Inr b" if "ports_valid t" for t r
    using that scan_ports_text unfolding ports_valid_def by blast
  show "scan_ports (post_line r a t) q =
      (if q = r \<and> scan_ports t q = Inr None then Inr (Some a) else scan_ports t q)"
    if t: "ports_valid t" and a: "postable r a" for t r a q
  proof -
    from t obtain es where es: "list_all (\<lambda>(r, a). postable r a) es" "t = ports_text es"
      unfolding ports_valid_def by blast
    then have "post_line r a t = ports_text (es @ [(r, a)])" by (simp add: post_line_def)
    moreover have "list_all (\<lambda>(r, a). postable r a) (es @ [(r, a)])" using es a by simp
    ultimately have "scan_ports (post_line r a t) q = Inr (map_of (es @ [(r, a)]) q)"
      using scan_ports_text by metis
    with es show ?thesis
      by (auto simp: scan_ports_text map_add_def split: option.splits)
  qed
qed

end
