(* ===== verification/Request_Log.thy ===== *)
theory Request_Log
  imports Address_Book
begin

text \<open>
  The request log both sides keep: the structure \<open>log_info_t\<close> of ftc_comm.h, the per-rank log file
  with \<open>initialize_log\<close> and \<open>logging_info\<close> of ftc_comm.cpp, and the set-up of the log4c logger in
  ftc_logging.c (priority, file prefix, the thread's redirect flag). The lemmas show when a log
  record can be printed without reading past an array, that logging only appends to one file,
  and that two ranks write to different files as long as the name fits its array.
\<close>

section \<open>Log records\<close>

text \<open>
  \<open>cstr_array n s\<close> is an array of \<open>n\<close> bytes after \<^verbatim>\<open>strncpy(a, s, n - 1); a[n - 1] = 0\<close>, or after
  \<^verbatim>\<open>snprintf(a, n, ...)\<close> printed \<open>s\<close>; \<open>strncpy_array n s\<close> is the array after
  \<^verbatim>\<open>strncpy(a, s, n)\<close> alone. Neither depends on what the array held before.
\<close>

definition cstr_array :: "nat \<Rightarrow> string \<Rightarrow> char list" where
  "cstr_array n s = take (n - 1) s @ replicate (n - min (n - 1) (length s)) NUL"

definition strncpy_array :: "nat \<Rightarrow> string \<Rightarrow> char list" where
  "strncpy_array n s = take n (s @ replicate n NUL)"

lemma strncpy_array_eq: "strncpy buf s (length buf) = Inr (strncpy_array (length buf) s)"
  by (simp add: strncpy_def strncpy_array_def)

lemma copy_terminated_array:
  assumes "0 < length buf"
  shows "copy_terminated buf s = Inr (cstr_array (length buf) s)"
proof -
  obtain n where n: "length buf = Suc n" using assms by (cases buf) auto
  have "drop n buf = [buf ! n]"
    using n by (metis Cons_nth_drop_Suc drop_all le_refl lessI)
  moreover have "take n (s @ replicate n NUL) = take n s @ replicate (n - length s) NUL"
    by (rule take_pad)
  ultimately have "strncpy buf s n = Inr ((take n s @ replicate (n - length s) NUL) @ [buf ! n])"
    using n by (simp add: strncpy_def)
  moreover have "length (take n s @ replicate (n - length s) NUL) = n" by simp
  then have "((take n s @ replicate (n - length s) NUL) @ [buf ! n])[n := NUL] =
      (take n s @ replicate (n - length s) NUL) @ [NUL]"
    by (metis list_update_length)
  moreover have "(take n s @ replicate (n - length s) NUL) @ [NUL] = cstr_array (Suc n) s"
    by (simp add: cstr_array_def replicate_append_same min_def)
      (metis Suc_diff_le diff_is_0_eq nat_le_linear replicate_0 replicate_Suc
        append_Nil replicate_append_same)
  moreover have "min (length s) n + (n - length s) = n" by simp
  ultimately show ?thesis
    using n by (simp add: copy_terminated_def put_char_def)
qed

lemma length_cstr_array: "0 < n \<Longrightarrow> length (cstr_array n s) = n"
  by (simp add: cstr_array_def)

lemma NUL_in_cstr_array [simp]: "0 < n \<Longrightarrow> NUL \<in> set (cstr_array n s)"
  by (auto simp: cstr_array_def)

lemma cstr_cstr_array: "0 < n \<Longrightarrow> no_nul s \<Longrightarrow> cstr (cstr_array n s) = Inr (take (n - 1) s)"
proof -
  assume a: "0 < n" "no_nul s"
  then obtain k where "n - min (n - 1) (length s) = Suc k"
    by (metis Suc_diff_Suc diff_less less_one min.strict_coboundedI1)
  then show ?thesis using a by (simp add: cstr_array_def)
qed

lemma NUL_in_strncpy_array: "NUL \<in> set (strncpy_array n s) \<longleftrightarrow> NUL \<in> set (take n s) \<or> length s < n"
  by (auto simp: strncpy_array_def take_pad)

record log_info =
  filepath :: "char list"
  request :: "char list"
  flag :: int
  log_client_rank :: int
  log_server_rank :: int
  expn :: "char list"
  n_epoch :: int
  n_batch :: int
  clocktime :: "int \<times> int"

text \<open>The strings a record's three arrays hold can be read without leaving them.\<close>

definition log_ok :: "log_info \<Rightarrow> bool" where
  "log_ok i \<longleftrightarrow> NUL \<in> set (filepath i) \<and> NUL \<in> set (request i) \<and> NUL \<in> set (expn i)"

section \<open>Log files\<close>

text \<open>The environment of the logger: \<^verbatim>\<open>FT_Cache_LOG_DIR\<close> and which names \<^verbatim>\<open>fopen\<close> can open.\<close>

record log_env =
  log_dir :: "string option"
  log_openable :: "path \<Rightarrow> bool"

type_synonym logs = "path \<rightharpoonup> string"

definition log_filename :: "log_env \<Rightarrow> string \<Rightarrow> int \<Rightarrow> path" where
  "log_filename e type rank =
     snprintf_text 64 (text_of_env (log_dir e) @ ''/'' @ type @ ''_node_'' @ show_int rank @ ''.log'')"

definition initialize_log :: "log_env \<Rightarrow> int \<Rightarrow> string \<Rightarrow> logs \<Rightarrow> logs res" where
  "initialize_log e rank type L =
     (let f = log_filename e type rank
      in if \<not> log_openable e f then Inl (Exited 1)
         else Inr (L(f \<mapsto> ''Log file for '' @ type @ '' rank '' @ show_int rank @ [newline])))"

definition bracketed :: "string \<Rightarrow> string" where
  "bracketed s = ''['' @ s @ '']''"

text \<open>\<^verbatim>\<open>%06ld\<close>\<close>

definition show_pad6 :: "int \<Rightarrow> string" where
  "show_pad6 x =
     (let s = show_int x
      in if x < 0 then ''-'' @ replicate (6 - length s) CHR ''0'' @ tl s
         else replicate (6 - length s) CHR ''0'' @ s)"

definition log_line :: "log_info \<Rightarrow> string res" where
  "log_line i =
     andThen (cstr (filepath i)) (\<lambda>fp.
     andThen (cstr (request i)) (\<lambda>rq.
     andThen (cstr (expn i)) (\<lambda>ex.
     Inr (bracketed fp @ bracketed rq @ bracketed (show_int (flag i)) @
       bracketed (show_int (log_client_rank i)) @ bracketed (show_int (log_server_rank i)) @
       bracketed ex @ bracketed (show_int (n_epoch i)) @ bracketed (show_int (n_batch i)) @
       bracketed (show_int (fst (clocktime i)) @ ''.'' @ show_pad6 (snd (clocktime i))) @
       [newline]))))"

definition logging_info :: "log_env \<Rightarrow> log_info \<Rightarrow> string \<Rightarrow> logs \<Rightarrow> logs res" where
  "logging_info e info type L =
     (let f = log_filename e type (log_server_rank info)
      in if \<not> log_openable e f then Inr L
         else andThen (log_line info) (\<lambda>line.
              Inr (L(f \<mapsto> (case L f of None \<Rightarrow> [] | Some t \<Rightarrow> t) @ line))))"

lemma log_line_ok: "log_ok i \<Longrightarrow> \<exists>s. log_line i = Inr s"
  by (simp add: log_line_def log_ok_def cstr_def)

lemma log_line_overrun: "\<not> log_ok i \<Longrightarrow> log_line i = Inl Overrun"
  by (auto simp: log_line_def log_ok_def cstr_def)

text \<open>A record whose arrays are terminated is logged without a fault.\<close>

definition log_append :: "log_env \<Rightarrow> log_info \<Rightarrow> string \<Rightarrow> logs \<Rightarrow> logs" where
  "log_append e i type L = (case logging_info e i type L of Inr M \<Rightarrow> M | Inl _ \<Rightarrow> L)"

lemma logging_info_ok:
  assumes "log_ok i"
  shows "logging_info e i type L = Inr (log_append e i type L)"
proof -
  obtain s where "log_line i = Inr s" using log_line_ok [OF assms] by blast
  then show ?thesis by (simp add: logging_info_def log_append_def Let_def)
qed

lemma logging_info_other:
  assumes "logging_info e i type L = Inr M" and "f \<noteq> log_filename e type (log_server_rank i)"
  shows "M f = L f"
  using assms by (auto simp: logging_info_def Let_def andThen_iffs split: if_splits)

text \<open>Nothing that was logged before is lost.\<close>

lemma logging_info_extends:
  assumes "logging_info e i type L = Inr M" and "L f = Some t"
  shows "\<exists>u. M f = Some (t @ u)"
  using assms by (auto simp: logging_info_def Let_def andThen_iffs split: if_splits)

lemma log_filename_inject:
  assumes "length (text_of_env (log_dir e) @ ''/'' @ type @ ''_node_'' @ show_int r @ ''.log'') < 64"
    and "length (text_of_env (log_dir e) @ ''/'' @ type @ ''_node_'' @ show_int q @ ''.log'') < 64"
    and "log_filename e type r = log_filename e type q"
  shows "r = q"
proof -
  have "show_int r @ ''.log'' = show_int q @ ''.log''"
    using assms by (simp add: log_filename_def snprintf_text_def)
  then have "show_int r = show_int q" by simp
  then show ?thesis by (simp add: show_int_inject)
qed

section \<open>The log4c set-up\<close>

text \<open>
  The priority \<open>ftc_init_logging\<close> gives the root category: the environment's level, clamped to
  the range from \<^verbatim>\<open>LOG4C_PRIORITY_FATAL\<close> to \<^verbatim>\<open>LOG4C_PRIORITY_TRACE\<close>, and
  \<^verbatim>\<open>LOG4C_PRIORITY_NOTICE\<close> without one.
\<close>

abbreviation (input) LOG4C_PRIORITY_FATAL :: int where "LOG4C_PRIORITY_FATAL \<equiv> 0"
abbreviation (input) LOG4C_PRIORITY_NOTICE :: int where "LOG4C_PRIORITY_NOTICE \<equiv> 500"
abbreviation (input) LOG4C_PRIORITY_TRACE :: int where "LOG4C_PRIORITY_TRACE \<equiv> 800"

definition log_priority :: "string option \<Rightarrow> int" where
  "log_priority env =
     (case env of
        Some v \<Rightarrow>
          (let level = atoi v
           in if level < LOG4C_PRIORITY_FATAL then LOG4C_PRIORITY_FATAL
              else if level > LOG4C_PRIORITY_TRACE then LOG4C_PRIORITY_TRACE
              else level)
      | None \<Rightarrow> LOG4C_PRIORITY_NOTICE)"

text \<open>
  The prefix of the log4c file: \<^verbatim>\<open>sprintf\<close> of the prefix, a dot and the process id into a heap
  block of the prefix's length and seven more bytes.
\<close>

definition prefix_and_pid :: "string \<Rightarrow> int \<Rightarrow> string res" where
  "prefix_and_pid prefix pid = sprintf_text (length prefix + 7) (prefix @ ''.'' @ show_int pid)"

text \<open>
  The whole of \<open>ftc_init_logging\<close>: \<open>rc\<close> is the result of \<^verbatim>\<open>log4c_init\<close>, and the result is what the
  appender is configured with, or \<open>None\<close> when logging stays off.
\<close>

record log4c_config =
  l4_priority :: int
  l4_dir :: string
  l4_prefix :: string
  l4_max_size :: int
  l4_max_files :: int
  l4_layout :: string

definition ftc_init_logging ::
  "string \<Rightarrow> string \<Rightarrow> int \<Rightarrow> (string \<Rightarrow> string option) \<Rightarrow> int \<Rightarrow> log4c_config option res" where
  "ftc_init_logging default_dir default_prefix rc getenv pid =
     (if rc \<noteq> 0 then Inr None
      else (let dir = (case getenv ''FT_Cache_LOG_DIR'' of None \<Rightarrow> default_dir | Some d \<Rightarrow> d);
                prefix = (case getenv ''FT_Cache_LOG_PREFIX'' of None \<Rightarrow> default_prefix | Some d \<Rightarrow> d)
            in andThen (prefix_and_pid prefix pid) (\<lambda>pp.
               Inr (Some \<lparr>l4_priority = log_priority (getenv ''FT_Cache_LOG_LEVEL''),
                 l4_dir = dir, l4_prefix = pp, l4_max_size = 104857600, l4_max_files = 10,
                 l4_layout = ''dated''\<rparr>))))"

lemma log_priority_range: "0 \<le> log_priority env \<and> log_priority env \<le> 800"
  by (simp add: log_priority_def Let_def split: option.splits)

lemma prefix_and_pid_iff:
  assumes "0 \<le> pid"
  shows "prefix_and_pid prefix pid = Inr (prefix @ ''.'' @ show_int pid) \<longleftrightarrow> pid < 100000"
    and "prefix_and_pid prefix pid = Inl Overrun \<longleftrightarrow> 100000 \<le> pid"
proof -
  have "length (show_nat (nat pid)) \<le> 5" if "pid < 100000"
    using length_show_nat [of "nat pid" 5] that assms by simp
  moreover have "5 < length (show_nat (nat pid))" if "100000 \<le> pid"
    using length_show_nat_ge [of 5 "nat pid"] that assms by simp
  ultimately have "length (show_int pid) \<le> 5 \<longleftrightarrow> pid < 100000"
    using assms by (fastforce simp: show_int_def)
  then show "prefix_and_pid prefix pid = Inr (prefix @ ''.'' @ show_int pid) \<longleftrightarrow> pid < 100000"
    and "prefix_and_pid prefix pid = Inl Overrun \<longleftrightarrow> 100000 \<le> pid"
    by (auto simp: prefix_and_pid_def sprintf_text_def)
qed

end
