(* ===== verification/Posix_Files.thy ===== *)
theory Posix_Files
  imports C_Strings
begin

text \<open>
  The operating system the client and the server run on. It is no code of the repository: every
  operation of the model that makes a system call takes the calls as an argument, a value of the
  record \<open>os\<close> over an unspecified type of worlds. The locale \<open>posix_files\<close> names what POSIX and
  the C++ file-system library document about these calls for regular files; theorems that need
  more than the shape of a call assume it. The end of the theory builds a small file system,
  with a descriptor table, offsets and directories, and interprets the locale on it.
\<close>

section \<open>System calls\<close>

text \<open>
  \<open>sys_read\<close> and \<open>sys_pread\<close> give the return value and the bytes stored at the start of the
  caller's buffer. \<open>sys_mkdtemp\<close> gives the contents of the template array after the call, which
  is all the source looks at. \<open>fs_copy\<close> is \<^verbatim>\<open>std::filesystem::copy\<close>; \<open>False\<close> is an exception.
  \<open>fs_canonical\<close> is \<^verbatim>\<open>std::filesystem::canonical\<close>; \<open>None\<close> is an exception.
\<close>

record 'w os =
  sys_open :: "path \<Rightarrow> int \<Rightarrow> 'w \<Rightarrow> int \<times> 'w"
  sys_close :: "int \<Rightarrow> 'w \<Rightarrow> int \<times> 'w"
  sys_read :: "int \<Rightarrow> int \<Rightarrow> 'w \<Rightarrow> (int \<times> byte list) \<times> 'w"
  sys_pread :: "int \<Rightarrow> int \<Rightarrow> int \<Rightarrow> 'w \<Rightarrow> (int \<times> byte list) \<times> 'w"
  sys_lseek :: "int \<Rightarrow> int \<Rightarrow> int \<Rightarrow> 'w \<Rightarrow> int \<times> 'w"
  sys_mkdtemp :: "path \<Rightarrow> 'w \<Rightarrow> path \<times> 'w"
  fs_copy :: "path \<Rightarrow> path \<Rightarrow> 'w \<Rightarrow> bool \<times> 'w"
  fs_canonical :: "path \<Rightarrow> 'w \<Rightarrow> path option"
  fs_current_path :: "'w \<Rightarrow> path"

abbreviation (input) O_RDONLY :: int where "O_RDONLY \<equiv> 0"
abbreviation (input) O_WRONLY :: int where "O_WRONLY \<equiv> 1"
abbreviation (input) O_RDWR :: int where "O_RDWR \<equiv> 2"
abbreviation (input) O_ACCMODE :: int where "O_ACCMODE \<equiv> 3"
abbreviation (input) O_CREAT :: int where "O_CREAT \<equiv> 64"
abbreviation (input) O_APPEND :: int where "O_APPEND \<equiv> 1024"

section \<open>What the calls promise for regular files\<close>

text \<open>
  \<open>content w p\<close> is the data of the regular file \<open>p\<close>; \<open>ofd w fd\<close> is the file and the offset of a
  descriptor open on a regular file. A descriptor for which \<open>ofd\<close> is \<open>None\<close> is closed, or is a
  socket or a terminal.

  Opening for reading, closing, reading and seeking leave every file's data alone. A successful
  open uses a descriptor that was free. A read either fails with no effect or returns the bytes
  at the offset, up to the count and the end of the file. A copy never replaces a file
  (\<^verbatim>\<open>std::filesystem::copy\<close> without options refuses an existing target); when it returns
  normally the target holds the source's data, and when it throws no file that existed has
  changed.
\<close>

locale posix_files =
  fixes os :: "'w os"
    and content :: "'w \<Rightarrow> path \<rightharpoonup> byte list"
    and ofd :: "'w \<Rightarrow> int \<rightharpoonup> path \<times> int"
  assumes open_content: "content (snd (sys_open os p O_RDONLY w)) = content w"
    and open_ofd:
      "sys_open os p O_RDONLY w = (fd, w') \<Longrightarrow>
         (fd = -1 \<and> ofd w' = ofd w) \<or>
         (0 \<le> fd \<and> ofd w fd = None \<and> ofd w' = (ofd w)(fd \<mapsto> (p, 0)))"
    and close_content: "content (snd (sys_close os fd w)) = content w"
    and close_ofd: "sys_close os fd w = (0, w') \<Longrightarrow> ofd w' = (ofd w)(fd := None)"
    and read_content: "content (snd (sys_read os fd n w)) = content w"
    and read_other: "ofd w fd = None \<Longrightarrow> ofd (snd (sys_read os fd n w)) = ofd w"
    and read_file:
      "ofd w fd = Some (p, off) \<Longrightarrow> content w p = Some d \<Longrightarrow> 0 \<le> n \<Longrightarrow>
         sys_read os fd n w = ((r, bs), w') \<Longrightarrow>
         (r = -1 \<and> bs = [] \<and> ofd w' = ofd w) \<or>
         (bs = take (nat n) (drop (nat off) d) \<and> r = int (length bs) \<and>
          ofd w' = (ofd w)(fd \<mapsto> (p, off + r)))"
    and read_path: "map_option fst (ofd (snd (sys_read os fd n w)) g) = map_option fst (ofd w g)"
    and pread_world: "content (snd (sys_pread os fd n k w)) = content w"
      "ofd (snd (sys_pread os fd n k w)) = ofd w"
    and pread_bad: "fd < 0 \<Longrightarrow> fst (sys_pread os fd n k w) = (-1, [])"
    and pread_file:
      "ofd w fd = Some (p, off) \<Longrightarrow> content w p = Some d \<Longrightarrow> 0 \<le> n \<Longrightarrow> 0 \<le> k \<Longrightarrow>
         sys_pread os fd n k w = ((r, bs), w') \<Longrightarrow>
         (r = -1 \<and> bs = []) \<or>
         (bs = take (nat n) (drop (nat k) d) \<and> r = int (length bs))"
    and lseek_content: "content (snd (sys_lseek os fd k wh w)) = content w"
    and lseek_path: "map_option fst (ofd (snd (sys_lseek os fd k wh w)) g) = map_option fst (ofd w g)"
    and mkdtemp_world: "content (snd (sys_mkdtemp os t w)) = content w"
      "ofd (snd (sys_mkdtemp os t w)) = ofd w"
    and copy_ofd: "ofd (snd (fs_copy os src dst w)) = ofd w"
    and copy_keeps:
      "content w q = Some d \<Longrightarrow> content (snd (fs_copy os src dst w)) q = Some d"
    and copy_done:
      "fs_copy os src dst w = (True, w') \<Longrightarrow>
         \<exists>d. content w src = Some d \<and> content w' dst = Some d"
begin

text \<open>The file behind a descriptor, without its offset.\<close>

definition file_of :: "'w \<Rightarrow> int \<rightharpoonup> path" where
  "file_of w fd = map_option fst (ofd w fd)"

lemma file_of_open:
  assumes "sys_open os p O_RDONLY w = (fd, w')"
  shows "file_of w' = (if fd = -1 then file_of w else (file_of w)(fd \<mapsto> p))"
  using open_ofd [OF assms] by (auto simp: file_of_def fun_eq_iff)

lemma file_of_close: "sys_close os fd w = (0, w') \<Longrightarrow> file_of w' = (file_of w)(fd := None)"
  by (auto simp: file_of_def fun_eq_iff dest!: close_ofd)

lemma file_of_same:
  "file_of (snd (sys_read os fd n w)) = file_of w"
  "file_of (snd (sys_pread os fd n k w)) = file_of w"
  "file_of (snd (sys_lseek os fd k wh w)) = file_of w"
  "file_of (snd (sys_mkdtemp os t w)) = file_of w"
  "file_of (snd (fs_copy os src dst w)) = file_of w"
  by (simp_all add: file_of_def fun_eq_iff read_path pread_world lseek_path mkdtemp_world copy_ofd)

lemmas content_same =
  open_content close_content read_content pread_world(1) lseek_content mkdtemp_world(1)

end

section \<open>A file system\<close>

text \<open>
  Regular files by path, directories, a descriptor table and a counter for the names of
  temporary directories.
\<close>

record fsys =
  fs_files :: "path \<rightharpoonup> byte list"
  fs_dirs :: "path \<Rightarrow> bool"
  fs_table :: "int \<rightharpoonup> path \<times> int"
  fs_temp :: nat
  fs_cwd :: path

fun first_free :: "nat \<Rightarrow> int \<Rightarrow> (int \<rightharpoonup> 'a) \<Rightarrow> int option" where
  "first_free 0 i m = None"
| "first_free (Suc n) i m = (if m i = None then Some i else first_free n (i + 1) m)"

definition fsys_open :: "path \<Rightarrow> int \<Rightarrow> fsys \<Rightarrow> int \<times> fsys" where
  "fsys_open p flags w =
     (case fs_files w p of
        None \<Rightarrow> (-1, w)
      | Some d \<Rightarrow>
          (case first_free 1024 0 (fs_table w) of
             None \<Rightarrow> (-1, w)
           | Some fd \<Rightarrow> (fd, w\<lparr>fs_table := (fs_table w)(fd \<mapsto> (p, 0))\<rparr>)))"

definition fsys_close :: "int \<Rightarrow> fsys \<Rightarrow> int \<times> fsys" where
  "fsys_close fd w =
     (if fs_table w fd = None then (-1, w) else (0, w\<lparr>fs_table := (fs_table w)(fd := None)\<rparr>))"

definition fsys_data :: "fsys \<Rightarrow> int \<rightharpoonup> path \<times> int \<times> byte list" where
  "fsys_data w fd =
     (case fs_table w fd of
        None \<Rightarrow> None
      | Some (p, off) \<Rightarrow> map_option (\<lambda>d. (p, off, d)) (fs_files w p))"

definition fsys_read :: "int \<Rightarrow> int \<Rightarrow> fsys \<Rightarrow> (int \<times> byte list) \<times> fsys" where
  "fsys_read fd n w =
     (case fsys_data w fd of
        None \<Rightarrow> ((-1, []), w)
      | Some (p, off, d) \<Rightarrow>
          (let bs = take (nat n) (drop (nat off) d); r = int (length bs)
           in ((r, bs), w\<lparr>fs_table := (fs_table w)(fd \<mapsto> (p, off + r))\<rparr>)))"

definition fsys_pread :: "int \<Rightarrow> int \<Rightarrow> int \<Rightarrow> fsys \<Rightarrow> (int \<times> byte list) \<times> fsys" where
  "fsys_pread fd n k w =
     (case fsys_data w fd of
        None \<Rightarrow> ((-1, []), w)
      | Some (p, off, d) \<Rightarrow>
          if fd < 0 \<or> k < 0 then ((-1, []), w)
          else (let bs = take (nat n) (drop (nat k) d) in ((int (length bs), bs), w)))"

definition fsys_lseek :: "int \<Rightarrow> int \<Rightarrow> int \<Rightarrow> fsys \<Rightarrow> int \<times> fsys" where
  "fsys_lseek fd k wh w =
     (case fsys_data w fd of
        None \<Rightarrow> (-1, w)
      | Some (p, off, d) \<Rightarrow>
          (let target = (if wh = 0 then Some k else if wh = 1 then Some (off + k)
                         else if wh = 2 then Some (int (length d) + k) else None)
           in case target of
                None \<Rightarrow> (-1, w)
              | Some t \<Rightarrow>
                  if t < 0 then (-1, w)
                  else (t, w\<lparr>fs_table := (fs_table w)(fd \<mapsto> (p, t))\<rparr>)))"

definition fsys_mkdtemp :: "path \<Rightarrow> fsys \<Rightarrow> path \<times> fsys" where
  "fsys_mkdtemp t w =
     (let d = take (length t - 6) t @ show_nat (fs_temp w)
      in (d, w\<lparr>fs_dirs := (fs_dirs w)(d := True), fs_temp := Suc (fs_temp w)\<rparr>))"

definition fsys_copy :: "path \<Rightarrow> path \<Rightarrow> fsys \<Rightarrow> bool \<times> fsys" where
  "fsys_copy src dst w =
     (case fs_files w src of
        None \<Rightarrow> (False, w)
      | Some d \<Rightarrow>
          if fs_files w dst \<noteq> None \<or> \<not> fs_dirs w (parent_of dst) then (False, w)
          else (True, w\<lparr>fs_files := (fs_files w)(dst \<mapsto> d)\<rparr>))"

definition fsys_os :: "fsys os" where
  "fsys_os =
     \<lparr>sys_open = fsys_open, sys_close = fsys_close, sys_read = fsys_read,
      sys_pread = fsys_pread, sys_lseek = fsys_lseek, sys_mkdtemp = fsys_mkdtemp,
      fs_copy = fsys_copy,
      fs_canonical = (\<lambda>p w. if fs_files w p = None then None else Some p),
      fs_current_path = fs_cwd\<rparr>"

lemmas fsys_ops = fsys_open_def fsys_close_def fsys_read_def fsys_pread_def fsys_lseek_def
  fsys_mkdtemp_def fsys_copy_def fsys_data_def

lemma fsys_os_sel [simp]:
  "sys_open fsys_os = fsys_open" "sys_close fsys_os = fsys_close" "sys_read fsys_os = fsys_read"
  "sys_pread fsys_os = fsys_pread" "sys_lseek fsys_os = fsys_lseek"
  "sys_mkdtemp fsys_os = fsys_mkdtemp" "fs_copy fsys_os = fsys_copy"
  "fs_canonical fsys_os p w = (if fs_files w p = None then None else Some p)"
  "fs_current_path fsys_os w = fs_cwd w"
  by (simp_all add: fsys_os_def)

lemma first_free_Some: "first_free n i m = Some fd \<Longrightarrow> i \<le> fd \<and> m fd = None"
  by (induction n i m rule: first_free.induct) (auto split: if_splits)

lemma fsys_open_ofd:
  assumes "fsys_open p f w = (fd, w')"
  shows "(fd = -1 \<and> fs_table w' = fs_table w) \<or>
    (0 \<le> fd \<and> fs_table w fd = None \<and> fs_table w' = (fs_table w)(fd \<mapsto> (p, 0)))"
  using assms first_free_Some by (fastforce simp: fsys_open_def split: option.splits)

interpretation fsys: posix_files fsys_os fs_files fs_table
proof unfold_locales
  show "sys_open fsys_os p O_RDONLY w = (fd, w') \<Longrightarrow>
      (fd = -1 \<and> fs_table w' = fs_table w) \<or>
      (0 \<le> fd \<and> fs_table w fd = None \<and> fs_table w' = (fs_table w)(fd \<mapsto> (p, 0)))" for p w fd w'
    by (simp add: fsys_open_ofd)
qed (auto simp: fsys_ops Let_def split: option.splits if_splits)

end
