(* ===== verification/Rpc_Messages.thy ===== *)
theory Rpc_Messages
  imports Ftc_Base
begin

text \<open>
  The messages between client and server, as the \<^verbatim>\<open>MERCURY_GEN_PROC\<close> declarations of ftc_comm.h
  give them. Mercury encodes and decodes them; the model keeps the decoded structures. The
  constructors \<open>mk_...\<close> fill a structure the way the client does, with the conversion each
  field's type makes.
\<close>

record open_in =
  open_path :: string
  open_client_rank :: int
  open_localfd :: int

record rpc_in =
  input_val :: int
  bulk_handle :: nat
  accessfd :: int
  read_localfd :: int
  offset :: int
  read_client_rank :: int

record seek_in =
  seek_fd :: int
  seek_offset :: int
  whence :: int

record close_in =
  close_fd :: int
  close_client_rank :: int

datatype rpc_request =
    Open_Req open_in
  | Read_Req rpc_in
  | Seek_Req seek_in
  | Close_Req close_in

datatype rpc_response =
    Open_Out int
  | Read_Out int
  | Seek_Out int

definition mk_rpc_in :: "int \<Rightarrow> nat \<Rightarrow> int \<Rightarrow> int \<Rightarrow> int \<Rightarrow> int \<Rightarrow> rpc_in" where
  "mk_rpc_in count bulk remote_fd localfd off rank =
     \<lparr>input_val = wrap32 count, bulk_handle = bulk, accessfd = wrap32 remote_fd,
      read_localfd = wrap32 localfd, offset = wrap64 off, read_client_rank = wrap32 rank\<rparr>"

definition mk_seek_in :: "int \<Rightarrow> int \<Rightarrow> int \<Rightarrow> seek_in" where
  "mk_seek_in remote_fd off wh =
     \<lparr>seek_fd = wrap32 remote_fd, seek_offset = wrap32 off, whence = wrap32 wh\<rparr>"

end
