(* ===== verification/Data_Mover.thy ===== *)
theory Data_Mover
  imports Server_Handlers
begin

text \<open>
  The data mover thread (ftc_data_mover.cpp): it drains the queue the close handler fills, copies
  each file into a temporary directory on the node-local storage and enters the copy in the
  map. The mover's shared-state accesses are separate functions, because the handlers run
  between them; \<open>ftc_data_mover_round\<close> is one round of the thread's endless loop. The lemmas show
  that the drain keeps the order, that a round ends, and what it does with every file.
\<close>

section \<open>The steps of a round\<close>

text \<open>The inner loop under \<^verbatim>\<open>data_mutex\<close>: pop every element and push it on the local list.\<close>

fun drain_queue :: "path list \<Rightarrow> path list \<Rightarrow> path list \<times> path list" where
  "drain_queue [] local = ([], local)"
| "drain_queue (x # queue) local = drain_queue queue (local @ [x])"

definition mover_drain :: "'w server \<Rightarrow> 'w server" where
  "mover_drain s =
     (let (queue, local) = drain_queue (data_queue s) (local_list s)
      in s\<lparr>data_queue := queue, local_list := local\<rparr>)"

definition nvme_template :: "string \<Rightarrow> path" where
  "nvme_template bbpath = bbpath @ ''/XXXXXX''"

text \<open>
  The copy of the file at the front of the list. An exception is caught, reported, and the file
  dropped; otherwise the copy waits to be entered in the map.
\<close>

definition mover_copy :: "'w os \<Rightarrow> path \<Rightarrow> 'w server \<Rightarrow> 'w server" where
  "mover_copy os nvmepath s =
     (case local_list s of
        [] \<Rightarrow> s
      | p # ps \<Rightarrow>
          (let (dirpath, w1) = sys_mkdtemp os nvmepath (world s);
               filename = dirpath @ ''/'' @ filename_of p;
               (copied, w2) = fs_copy os p filename w1
           in if copied then s\<lparr>world := w2, mover_file := Some filename\<rparr>
              else s\<lparr>world := w2, mover_file := None, mover_errors := mover_errors s @ [p],
                     local_list := ps\<rparr>))"

text \<open>The entry in the map, under \<^verbatim>\<open>path_map_mutex\<close>, and the pop that follows it.\<close>

definition mover_publish :: "'w server \<Rightarrow> 'w server" where
  "mover_publish s =
     (case (local_list s, mover_file s) of
        (p # ps, Some filename) \<Rightarrow>
          s\<lparr>path_cache_map := (path_cache_map s)(p \<mapsto> filename), mover_file := None,
            local_list := ps\<rparr>
      | _ \<Rightarrow> s)"

definition mover_iter :: "'w os \<Rightarrow> path \<Rightarrow> 'w server \<Rightarrow> 'w server" where
  "mover_iter os nvmepath s =
     (let s1 = mover_copy os nvmepath s
      in if mover_file s1 = None then s1 else mover_publish s1)"

lemma length_mover_iter:
  "local_list s \<noteq> [] \<Longrightarrow> length (local_list (mover_iter os t s)) < length (local_list s)"
  by (auto simp: mover_iter_def mover_copy_def mover_publish_def Let_def neq_Nil_conv
    split: prod.splits)

function mover_loop :: "'w os \<Rightarrow> path \<Rightarrow> 'w server \<Rightarrow> 'w server" where
  "mover_loop os nvmepath s =
     (if local_list s = [] then s else mover_loop os nvmepath (mover_iter os nvmepath s))"
  by pat_completeness auto
termination
  by (relation "measure (\<lambda>(os, t, s). length (local_list s))") (auto intro: length_mover_iter [simplified])

declare mover_loop.simps [simp del]

text \<open>
  One round of the thread. Without \<^verbatim>\<open>BBPATH\<close> the thread builds a string from a null pointer;
  with an empty queue it waits.
\<close>

definition ftc_data_mover_round :: "'w os \<Rightarrow> string option \<Rightarrow> 'w server \<Rightarrow> 'w server res" where
  "ftc_data_mover_round os bbpath s =
     (case bbpath of
        None \<Rightarrow> Inl Null_Arg
      | Some b \<Rightarrow>
          if data_queue s = [] then Inr s
          else Inr (mover_loop os (nvme_template b) (mover_drain s)))"

section \<open>What the steps do\<close>

lemma drain_queue_eq: "drain_queue q l = ([], l @ q)"
  by (induction q l rule: drain_queue.induct) auto

lemma mover_drain_eq: "mover_drain s = s\<lparr>data_queue := [], local_list := local_list s @ data_queue s\<rparr>"
  by (simp add: mover_drain_def drain_queue_eq)

lemma mover_copy_cases:
  assumes "local_list s = p # ps"
  obtains (copied) d w1 w2 where "sys_mkdtemp os t (world s) = (d, w1)"
      "fs_copy os p (d @ ''/'' @ filename_of p) w1 = (True, w2)"
      "mover_copy os t s = s\<lparr>world := w2, mover_file := Some (d @ ''/'' @ filename_of p)\<rparr>"
  | (failed) d w1 w2 where "sys_mkdtemp os t (world s) = (d, w1)"
      "fs_copy os p (d @ ''/'' @ filename_of p) w1 = (False, w2)"
      "mover_copy os t s = s\<lparr>world := w2, mover_file := None,
         mover_errors := mover_errors s @ [p], local_list := ps\<rparr>"
proof -
  obtain d w1 where m: "sys_mkdtemp os t (world s) = (d, w1)" by fastforce
  obtain c w2 where c: "fs_copy os p (d @ ''/'' @ filename_of p) w1 = (c, w2)" by fastforce
  show thesis
    using copied failed m c assms by (cases c) (simp_all add: mover_copy_def)
qed

text \<open>One iteration takes the first file off the list and either enters it in the map or reports it.\<close>

lemma mover_iter_cases:
  assumes "local_list s = p # ps"
  shows "local_list (mover_iter os t s) = ps \<and> mover_file (mover_iter os t s) = None \<and>
    data_queue (mover_iter os t s) = data_queue s \<and> fd_to_path (mover_iter os t s) = fd_to_path s \<and>
    ((\<exists>f. path_cache_map (mover_iter os t s) = (path_cache_map s)(p \<mapsto> f) \<and>
          mover_errors (mover_iter os t s) = mover_errors s) \<or>
     (path_cache_map (mover_iter os t s) = path_cache_map s \<and>
      mover_errors (mover_iter os t s) = mover_errors s @ [p]))"
  using assms
  by (rule mover_copy_cases [of s p ps os t]) (auto simp: mover_iter_def mover_publish_def assms)

lemma mover_loop_ends:
  assumes "mover_file s = None"
  shows "local_list (mover_loop os t s) = [] \<and> mover_file (mover_loop os t s) = None \<and>
    data_queue (mover_loop os t s) = data_queue s \<and> fd_to_path (mover_loop os t s) = fd_to_path s"
  using assms
proof (induction os t s rule: mover_loop.induct)
  case (1 os t s)
  show ?case
  proof (cases "local_list s")
    case Nil
    with "1.prems" show ?thesis by (simp add: mover_loop.simps)
  next
    case (Cons p ps)
    from mover_iter_cases [OF Cons, of os t] "1.IH" show ?thesis
      by (simp add: mover_loop.simps [of os t s] Cons)
  qed
qed

text \<open>
  The sets of cached (\<open>D\<close>), reported (\<open>E\<close>) and remaining (\<open>L\<close>) paths over one iteration: \<open>D1\<close>,
  \<open>E1\<close>, \<open>L1\<close> after it, \<open>D2\<close> and \<open>E2\<close> at the end of the loop.
\<close>

lemma cover_step:
  assumes "D1 = insert p D \<and> E1 = E \<or> D1 = D \<and> E1 = insert p E" and "L = insert p L1"
    and "D1 \<union> L1 \<subseteq> D2 \<union> E2 \<and> D1 \<subseteq> D2 \<and> E1 \<subseteq> E2 \<and> D2 \<subseteq> D1 \<union> L1"
  shows "D \<union> L \<subseteq> D2 \<union> E2 \<and> D \<subseteq> D2 \<and> E \<subseteq> E2 \<and> D2 \<subseteq> D \<union> L"
  using assms by auto

lemma mover_loop_covers:
  "dom (path_cache_map s) \<union> set (local_list s) \<subseteq>
     dom (path_cache_map (mover_loop os t s)) \<union> set (mover_errors (mover_loop os t s)) \<and>
   dom (path_cache_map s) \<subseteq> dom (path_cache_map (mover_loop os t s)) \<and>
   set (mover_errors s) \<subseteq> set (mover_errors (mover_loop os t s)) \<and>
   dom (path_cache_map (mover_loop os t s)) \<subseteq> dom (path_cache_map s) \<union> set (local_list s)"
proof (induction os t s rule: mover_loop.induct)
  case (1 os t s)
  show ?case
  proof (cases "local_list s")
    case Nil
    then show ?thesis by (auto simp: mover_loop.simps)
  next
    case (Cons p ps)
    let ?s1 = "mover_iter os t s"
    note step = mover_iter_cases [OF Cons, of os t]
    have loop: "mover_loop os t s = mover_loop os t ?s1"
      by (simp add: mover_loop.simps [of os t s] Cons)
    have "dom (path_cache_map ?s1) = insert p (dom (path_cache_map s)) \<and>
          set (mover_errors ?s1) = set (mover_errors s) \<or>
        dom (path_cache_map ?s1) = dom (path_cache_map s) \<and>
          set (mover_errors ?s1) = insert p (set (mover_errors s))"
      using step by auto
    moreover have "set (local_list s) = insert p (set (local_list ?s1))"
      using step Cons by simp
    moreover have "local_list s \<noteq> []" using Cons by simp
    ultimately show ?thesis unfolding loop by (intro cover_step [OF _ _ "1.IH"])
  qed
qed

end
