(* ===== verification/Server_System.thy ===== *)
theory Server_System
  imports Data_Mover
begin

text \<open>
  The server as a whole: the handlers, run one after the other by the Mercury progress thread,
  interleaved with the steps of the data mover thread. Clients are unconstrained: any message,
  with any descriptor, offset and size, may arrive at any time. The invariant says that what
  the maps promise is true of the files: a cached copy holds the data of its original, and a
  descriptor the server handed out for a path reads the data of that path.
\<close>

section \<open>Steps and runs\<close>

inductive server_step :: "'w os \<Rightarrow> log_env \<Rightarrow> path \<Rightarrow> 'w server \<Rightarrow> 'w server \<Rightarrow> bool"
  for os le tmpl where
  open_step: "ftc_open_rpc_handler os le hg oin s = Inr (s', out) \<Longrightarrow> server_step os le tmpl s s'"
| read_step: "ftc_rpc_handler os le hg rin s = Inr (s', out) \<Longrightarrow> server_step os le tmpl s s'"
| close_step: "ftc_close_rpc_handler os le hg cin s = Inr (s', out) \<Longrightarrow> server_step os le tmpl s s'"
| seek_step: "ftc_seek_rpc_handler os hg sin s = Inr (s', out) \<Longrightarrow> server_step os le tmpl s s'"
| drain_step: "local_list s = [] \<Longrightarrow> mover_file s = None \<Longrightarrow> data_queue s \<noteq> [] \<Longrightarrow>
    server_step os le tmpl s (mover_drain s)"
| copy_step: "local_list s \<noteq> [] \<Longrightarrow> mover_file s = None \<Longrightarrow>
    server_step os le tmpl s (mover_copy os tmpl s)"
| publish_step: "local_list s \<noteq> [] \<Longrightarrow> mover_file s = Some f \<Longrightarrow>
    server_step os le tmpl s (mover_publish s)"

inductive server_run :: "'w os \<Rightarrow> log_env \<Rightarrow> path \<Rightarrow> 'w server \<Rightarrow> 'w server \<Rightarrow> bool"
  for os le tmpl where
  run_refl: "server_run os le tmpl s s"
| run_step: "server_run os le tmpl s t \<Longrightarrow> server_step os le tmpl t u \<Longrightarrow> server_run os le tmpl s u"

lemma server_run_trans:
  assumes "server_run os le tmpl s t" and "server_run os le tmpl t u"
  shows "server_run os le tmpl s u"
  using assms(2,1) by (induction rule: server_run.induct) (auto intro: server_run.intros)

lemma server_run_one: "server_step os le tmpl s t \<Longrightarrow> server_run os le tmpl s t"
  by (auto intro: server_run.intros)

text \<open>The state a server starts in: empty maps and an empty queue, over any world.\<close>

definition server_start :: "'w server \<Rightarrow> bool" where
  "server_start s \<longleftrightarrow> fd_to_path s = Map.empty \<and> path_cache_map s = Map.empty \<and>
     data_queue s = [] \<and> local_list s = [] \<and> mover_file s = None"

text \<open>A round of the mover is a run of its steps.\<close>

lemma mover_iter_run:
  assumes "local_list s = p # ps" and "mover_file s = None"
  shows "server_run os le tmpl s (mover_iter os tmpl s)"
proof -
  have copy: "server_run os le tmpl s (mover_copy os tmpl s)"
    using assms by (intro server_run_one copy_step) auto
  from assms(1) show ?thesis
  proof (rule mover_copy_cases [of s p ps os tmpl])
    fix d w1 w2
    assume c: "mover_copy os tmpl s = s\<lparr>world := w2, mover_file := Some (d @ ''/'' @ filename_of p)\<rparr>"
    then have "server_run os le tmpl (mover_copy os tmpl s) (mover_publish (mover_copy os tmpl s))"
      using assms(1) by (intro server_run_one publish_step) auto
    with copy c show ?thesis by (auto simp: mover_iter_def intro: server_run_trans)
  qed (use copy in \<open>simp add: mover_iter_def\<close>)
qed

lemma mover_loop_run:
  "mover_file s = None \<Longrightarrow> server_run os le tmpl s (mover_loop os tmpl s)"
proof (induction os tmpl s rule: mover_loop.induct)
  case (1 os t s)
  show ?case
  proof (cases "local_list s")
    case Nil
    then show ?thesis by (simp add: mover_loop.simps run_refl)
  next
    case (Cons p ps)
    have "server_run os le t s (mover_iter os t s)"
      using Cons "1.prems" by (rule mover_iter_run)
    moreover have "server_run os le t (mover_iter os t s) (mover_loop os t (mover_iter os t s))"
      using "1.IH" mover_iter_cases [OF Cons, of os t] Cons by simp
    ultimately show ?thesis
      by (auto simp: mover_loop.simps [of os t s] Cons intro: server_run_trans)
  qed
qed

lemma mover_round_is_run:
  assumes "local_list s = []" and "mover_file s = None"
    and "ftc_data_mover_round os (Some b) s = Inr s'"
  shows "server_run os le (nvme_template b) s s'"
proof (cases "data_queue s = []")
  case True
  with assms(3) show ?thesis by (simp add: ftc_data_mover_round_def run_refl)
next
  case False
  have "server_run os le (nvme_template b) s (mover_drain s)"
    using assms False by (intro server_run_one drain_step)
  moreover have "server_run os le (nvme_template b) (mover_drain s) s'"
    using mover_loop_run [of "mover_drain s" os le "nvme_template b"] assms False
    by (simp add: mover_drain_eq ftc_data_mover_round_def)
  ultimately show ?thesis by (rule server_run_trans)
qed

section \<open>The invariant\<close>

text \<open>Two files are there and hold the same data.\<close>

definition same_data :: "('w \<Rightarrow> path \<rightharpoonup> byte list) \<Rightarrow> 'w \<Rightarrow> path \<Rightarrow> path \<Rightarrow> bool" where
  "same_data content w p q \<longleftrightarrow> (\<exists>d. content w p = Some d \<and> content w q = Some d)"

definition cache_ok :: "('w \<Rightarrow> path \<rightharpoonup> byte list) \<Rightarrow> 'w server \<Rightarrow> bool" where
  "cache_ok content s \<longleftrightarrow>
     (\<forall>p q. path_cache_map s p = Some q \<longrightarrow> same_data content (world s) p q)"

definition mover_ok :: "('w \<Rightarrow> path \<rightharpoonup> byte list) \<Rightarrow> 'w server \<Rightarrow> bool" where
  "mover_ok content s \<longleftrightarrow>
     (\<forall>f. mover_file s = Some f \<longrightarrow>
        local_list s \<noteq> [] \<and> same_data content (world s) (hd (local_list s)) f)"

definition fds_ok ::
  "('w \<Rightarrow> path \<rightharpoonup> byte list) \<Rightarrow> ('w \<Rightarrow> int \<rightharpoonup> path \<times> int) \<Rightarrow> 'w server \<Rightarrow> bool" where
  "fds_ok content ofd s \<longleftrightarrow>
     (\<forall>fd p. fd_to_path s fd = Some p \<longrightarrow> 0 \<le> fd \<longrightarrow>
        (\<exists>q. map_option fst (ofd (world s) fd) = Some q \<and>
             (q = p \<or> same_data content (world s) p q)))"

definition server_ok ::
  "('w \<Rightarrow> path \<rightharpoonup> byte list) \<Rightarrow> ('w \<Rightarrow> int \<rightharpoonup> path \<times> int) \<Rightarrow> 'w server \<Rightarrow> bool" where
  "server_ok content ofd s \<longleftrightarrow> cache_ok content s \<and> mover_ok content s \<and> fds_ok content ofd s"

text \<open>Files only ever gain data: nothing the server does changes a file that exists.\<close>

definition keeps :: "('w \<Rightarrow> path \<rightharpoonup> byte list) \<Rightarrow> 'w \<Rightarrow> 'w \<Rightarrow> bool" where
  "keeps content w w' \<longleftrightarrow> (\<forall>p d. content w p = Some d \<longrightarrow> content w' p = Some d)"

lemma keeps_refl [simp]: "keeps content w w"
  by (simp add: keeps_def)

lemma keeps_same: "content w' = content w \<Longrightarrow> keeps content w w'"
  by (simp add: keeps_def)

lemma keeps_trans: "keeps content u v \<Longrightarrow> keeps content v w \<Longrightarrow> keeps content u w"
  by (simp add: keeps_def)

lemma same_data_keeps: "same_data content w p q \<Longrightarrow> keeps content w w' \<Longrightarrow> same_data content w' p q"
  by (auto simp: same_data_def keeps_def)

text \<open>
  A step that keeps the files, the descriptors' files and the mover's variables, and takes
  nothing into the maps, keeps the invariant.
\<close>

lemma server_ok_frame:
  assumes "server_ok content ofd s" and "keeps content (world s) (world s')"
    and "path_cache_map s' = path_cache_map s" and "local_list s' = local_list s"
    and "mover_file s' = mover_file s"
    and "\<And>fd p. fd_to_path s' fd = Some p \<Longrightarrow> 0 \<le> fd \<Longrightarrow>
      (fd_to_path s fd = Some p \<and>
       map_option fst (ofd (world s') fd) = map_option fst (ofd (world s) fd)) \<or>
      (\<exists>q. map_option fst (ofd (world s') fd) = Some q \<and>
           (q = p \<or> same_data content (world s') p q))"
  shows "server_ok content ofd s'"
  unfolding server_ok_def cache_ok_def mover_ok_def fds_ok_def
proof (intro conjI allI impI)
  fix p q
  assume "path_cache_map s' p = Some q"
  with assms(1,3) have "same_data content (world s) p q" by (simp add: server_ok_def cache_ok_def)
  then show "same_data content (world s') p q" using assms(2) by (rule same_data_keeps)
next
  fix f
  assume "mover_file s' = Some f"
  with assms(5) have "mover_file s = Some f" by (rule trans [OF sym])
  with assms(1,4) have "local_list s' \<noteq> []"
      "same_data content (world s) (hd (local_list s')) f"
    by (simp_all add: server_ok_def mover_ok_def)
  then show "local_list s' \<noteq> []" "same_data content (world s') (hd (local_list s')) f"
    using assms(2) by (blast intro: same_data_keeps)+
next
  fix fd p
  assume p: "fd_to_path s' fd = Some p" and fd: "0 \<le> fd"
  from assms(6) [OF p fd]
  show "\<exists>q. map_option fst (ofd (world s') fd) = Some q \<and> (q = p \<or> same_data content (world s') p q)"
  proof
    assume old: "fd_to_path s fd = Some p \<and>
       map_option fst (ofd (world s') fd) = map_option fst (ofd (world s) fd)"
    with assms(1) fd obtain q where "map_option fst (ofd (world s) fd) = Some q"
      "q = p \<or> same_data content (world s) p q"
      unfolding server_ok_def fds_ok_def by blast
    with old same_data_keeps [OF _ assms(2)] show ?thesis by auto
  qed
qed

lemma server_ok_start: "server_start s \<Longrightarrow> server_ok content ofd s"
  by (simp add: server_start_def server_ok_def cache_ok_def mover_ok_def fds_ok_def)

section \<open>Every step keeps the invariant\<close>

context posix_files
begin

lemma read_world_same:
  "content (read_world os inp w) = content w"
  "map_option fst (ofd (read_world os inp w) g) = map_option fst (ofd w g)"
  by (auto simp: read_world_def sequential_read_def pread_world read_content read_path
    split: prod.splits dest: arg_cong [where f = snd])
    (metis read_content read_path snd_conv)+

lemma open_keeps_ok:
  assumes "server_ok content ofd s" and "ftc_open_rpc_handler os le hg inp s = Inr (s', out)"
  shows "server_ok content ofd s' \<and> keeps content (world s) (world s')"
  using assms(2)
proof (cases rule: open_handler_effect)
  case no_info
  with assms(1) show ?thesis by simp
next
  case (opened fd)
  let ?q = "redirect s (open_path inp)"
  have same: "content (world s') = content (world s)"
    using open_content [of ?q "world s"] opened(1) by simp
  have q: "?q = open_path inp \<or> same_data content (world s') (open_path inp) ?q"
    using assms(1) same
    by (auto simp: redirect_def server_ok_def cache_ok_def same_data_def split: option.splits)
  have "server_ok content ofd s'"
  proof (rule server_ok_frame [OF assms(1)])
    fix g p
    assume g: "fd_to_path s' g = Some p" "0 \<le> g"
    show "(fd_to_path s g = Some p \<and>
         map_option fst (ofd (world s') g) = map_option fst (ofd (world s) g)) \<or>
        (\<exists>q. map_option fst (ofd (world s') g) = Some q \<and>
           (q = p \<or> same_data content (world s') p q))"
      using open_ofd [OF opened(1)] opened(4) g q by (cases "g = fd") auto
  qed (use opened same in \<open>auto simp: frame_def keeps_same\<close>)
  with same show ?thesis by (simp add: keeps_same)
qed

lemma close_keeps_ok:
  assumes "server_ok content ofd s" and "ftc_close_rpc_handler os le hg inp s = Inr (s', out)"
  shows "server_ok content ofd s' \<and> keeps content (world s) (world s')"
  using assms(2)
proof (cases rule: close_handler_effect)
  case no_info
  then have "server_ok content ofd s'"
    by (intro server_ok_frame [OF assms(1)]) (auto split: if_splits)
  with no_info show ?thesis by simp
next
  case closed
  have same: "content (world s') = content (world s)"
    using close_content [of "close_fd inp" "world s"] closed(1) by simp
  have "server_ok content ofd s'"
    using closed close_ofd [OF closed(1)] same
    by (intro server_ok_frame [OF assms(1)]) (auto simp: frame_def keeps_same split: if_splits)
  with same show ?thesis by (simp add: keeps_same)
qed

lemma read_keeps_ok:
  assumes "server_ok content ofd s" and "ftc_rpc_handler os le hg inp s = Inr (s', out)"
  shows "server_ok content ofd s' \<and> keeps content (world s) (world s')"
proof -
  note effect = read_handler_effect [OF assms(2)]
  have same: "content (world s') = content (world s)"
    "map_option fst (ofd (world s') g) = map_option fst (ofd (world s) g)" for g
    using effect read_world_same by auto
  have "server_ok content ofd s'"
    using effect same by (intro server_ok_frame [OF assms(1)]) (auto simp: frame_def keeps_same)
  with same show ?thesis by (simp add: keeps_same)
qed

lemma seek_keeps_ok:
  assumes "server_ok content ofd s" and "ftc_seek_rpc_handler os hg inp s = Inr (s', out)"
  shows "server_ok content ofd s' \<and> keeps content (world s) (world s')"
proof -
  note effect = seek_handler_effect(1) [OF assms(2)]
  have same: "content (world s') = content (world s)"
    "map_option fst (ofd (world s') g) = map_option fst (ofd (world s) g)" for g
    using effect lseek_content lseek_path by simp_all
  have "server_ok content ofd s'"
    using effect same by (intro server_ok_frame [OF assms(1)]) (auto simp: keeps_same)
  with same show ?thesis by (simp add: keeps_same)
qed

lemma copy_keeps_ok:
  assumes "server_ok content ofd s" and "mover_file s = None" and "local_list s = p # ps"
  shows "server_ok content ofd (mover_copy os t s) \<and>
    keeps content (world s) (world (mover_copy os t s))"
  using assms(3)
proof (cases rule: mover_copy_cases [where os = os and t = t])
  case (copied d w1 w2)
  let ?f = "d @ ''/'' @ filename_of p" and ?s' = "mover_copy os t s"
  have w1: "content w1 = content (world s)" "ofd w1 = ofd (world s)"
    using mkdtemp_world [of t "world s"] copied(1) by simp_all
  have keep: "keeps content (world s) w2" and ofd2: "ofd w2 = ofd (world s)"
    using copy_keeps [of w1 _ _ p ?f] copy_ofd [of p ?f w1] copied(2) w1
    by (auto simp: keeps_def)
  obtain b where "content w1 p = Some b" "content w2 ?f = Some b"
    using copy_done [OF copied(2)] by blast
  with keep w1 have f: "same_data content w2 p ?f" by (auto simp: same_data_def keeps_def)
  have "server_ok content ofd (?s'\<lparr>mover_file := None\<rparr>)"
    using copied(3) keep ofd2 assms(2) by (intro server_ok_frame [OF assms(1)]) auto
  with f copied(3) assms(3) keep show ?thesis
    by (simp add: server_ok_def mover_ok_def cache_ok_def fds_ok_def)
next
  case (failed d w1 w2)
  let ?f = "d @ ''/'' @ filename_of p"
  have w1: "content w1 = content (world s)" "ofd w1 = ofd (world s)"
    using mkdtemp_world [of t "world s"] failed(1) by simp_all
  have keep: "keeps content (world s) w2" and ofd2: "ofd w2 = ofd (world s)"
    using copy_keeps [of w1 _ _ p ?f] copy_ofd [of p ?f w1] failed(2) w1
    by (auto simp: keeps_def)
  have "server_ok content ofd (s\<lparr>world := w2\<rparr>)"
    using keep ofd2 by (intro server_ok_frame [OF assms(1)]) auto
  with failed(3) keep show ?thesis
    by (simp add: server_ok_def mover_ok_def cache_ok_def fds_ok_def)
qed

lemma publish_keeps_ok:
  assumes "server_ok content ofd s"
  shows "server_ok content ofd (mover_publish s) \<and>
    keeps content (world s) (world (mover_publish s))"
  using assms
  by (auto simp: mover_publish_def server_ok_def mover_ok_def cache_ok_def fds_ok_def
    split: list.splits option.splits)

lemma step_keeps_ok:
  assumes "server_step os le t s s'" and "server_ok content ofd s"
  shows "server_ok content ofd s' \<and> keeps content (world s) (world s')"
  using assms
proof (induction rule: server_step.induct)
  case (drain_step s)
  then have "server_ok content ofd (mover_drain s)"
    by (simp add: mover_drain_eq server_ok_def mover_ok_def cache_ok_def fds_ok_def)
  then show ?case by (simp add: mover_drain_eq)
next
  case (copy_step s)
  then show ?case using copy_keeps_ok by (auto simp: neq_Nil_conv)
qed (auto dest: open_keeps_ok close_keeps_ok read_keeps_ok seek_keeps_ok publish_keeps_ok)

lemma run_keeps_ok:
  assumes "server_run os le t s s'" and "server_ok content ofd s"
  shows "server_ok content ofd s' \<and> keeps content (world s) (world s')"
  using assms
  by (induction rule: server_run.induct) (auto dest: step_keeps_ok intro: keeps_trans)

text \<open>The data a descriptor reads is the data of the path it was opened for.\<close>

lemma fd_data:
  assumes "server_ok content ofd s" and "fd_to_path s fd = Some p" and "0 \<le> fd"
    and "content (world s) p = Some d"
  obtains q off where "ofd (world s) fd = Some (q, off)" and "content (world s) q = Some d"
proof -
  from assms(1-3) obtain q where "map_option fst (ofd (world s) fd) = Some q"
    "q = p \<or> same_data content (world s) p q"
    unfolding server_ok_def fds_ok_def by blast
  with that assms(4) show thesis by (auto simp: same_data_def)
qed

end

end
