(* ===== verification/Server_Startup.thy ===== *)
theory Server_Startup
  imports Server_System
begin

text \<open>
  The start of a server process: \<open>main\<close> and \<open>ftc_start_comm_server\<close> of ftc_server.cpp and the part
  of \<open>ftc_init_comm\<close> (ftc_comm.cpp) that is not Mercury's: reading the rank and creating the log
  file. The lemmas show what state a start-up leaves, which is where the runs of
  \<open>Server_System\<close> begin.
\<close>

section \<open>Start-up\<close>

text \<open>
  \<open>listen\<close> tells servers from clients. A server reads \<^verbatim>\<open>PMIX_RANK\<close> before it tests the pointer;
  the result is the rank both static variables hold and the log files.
\<close>

definition ftc_init_comm ::
  "log_env \<Rightarrow> bool \<Rightarrow> string option \<Rightarrow> int \<Rightarrow> logs \<Rightarrow> (int \<times> logs) res" where
  "ftc_init_comm le listen pmix_rank rank L =
     (if \<not> listen then Inr (rank, L)
      else
        (case pmix_rank of
           None \<Rightarrow> Inl Null_Arg
         | Some rank_str \<Rightarrow>
             andThen (initialize_log le (atoi rank_str) ''server'' L) (\<lambda>L1.
             Inr (atoi rank_str, L1))))"

text \<open>
  The environment of a server: the log files, \<^verbatim>\<open>getenv\<close>, the address Mercury reports and which
  names \<^verbatim>\<open>fopen\<close> can open for appending.
\<close>

record server_env =
  se_log :: log_env
  se_getenv :: "string \<Rightarrow> string option"
  se_self_addr :: string
  se_openable :: "path \<Rightarrow> bool"

text \<open>
  The state after \<open>ftc_start_comm_server\<close> registered its handlers, and the working directory's
  files with the line it posted. \<^verbatim>\<open>server_addr_str\<close> is a zeroed global of 128 bytes.
\<close>

definition ftc_start_comm_server ::
  "server_env \<Rightarrow> 'w \<Rightarrow> logs \<Rightarrow> (path \<rightharpoonup> string) \<Rightarrow> ('w server \<times> (path \<rightharpoonup> string)) res" where
  "ftc_start_comm_server env w L files =
     andThen (ftc_init_comm (se_log env) True (se_getenv env ''PMIX_RANK'') (-1) L) (\<lambda>(rank, L1).
     andThen (ftc_comm_list_addr (se_getenv env ''MY_JOBID'') (se_openable env) (se_self_addr env)
                rank (replicate 128 NUL) files) (\<lambda>(addr_str, files1).
     Inr (\<lparr>fd_to_path = Map.empty, path_cache_map = Map.empty, data_queue = [], local_list = [],
           mover_file = None, mover_errors = [], server_rank = rank, server_addr_str = addr_str,
           server_logs = L1, world = w\<rparr>, files1)))"

text \<open>\<^verbatim>\<open>main\<close>: the server count is the first argument; \<open>argv\<close> holds the arguments after the name.\<close>

definition ftc_server_main ::
  "server_env \<Rightarrow> string list \<Rightarrow> 'w \<Rightarrow> logs \<Rightarrow> (path \<rightharpoonup> string) \<Rightarrow>
   (int \<times> 'w server \<times> (path \<rightharpoonup> string)) res" where
  "ftc_server_main env argv w L files =
     (case argv of
        [] \<Rightarrow> Inl (Exited (-1))
      | a # as \<Rightarrow>
          andThen (ftc_start_comm_server env w L files) (\<lambda>(s, files1).
          Inr (uwrap32 (atoi a), s, files1)))"

section \<open>What a start-up leaves\<close>

lemma list_addr_effect:
  assumes "ftc_comm_list_addr jobid openable addr rank buf files = Inr (b, files')"
  obtains f where "ports_filename jobid = Inr f"
    "extract_ip_portion addr buf (length buf) = Inr b"
    "files' = files(f \<mapsto> post_line rank addr (case files f of None \<Rightarrow> [] | Some t \<Rightarrow> t))"
  using assms by (auto simp: ftc_comm_list_addr_def andThen_iffs Let_def post_line_def split: if_splits)

lemma start_effect:
  assumes "ftc_start_comm_server env w L files = Inr (s, files')"
  obtains f r where "ports_filename (se_getenv env ''MY_JOBID'') = Inr f"
    "se_getenv env ''PMIX_RANK'' = Some r" "server_rank s = atoi r"
    "extract_ip_portion (se_self_addr env) (replicate 128 NUL) 128 = Inr (server_addr_str s)"
    "files' = files(f \<mapsto> post_line (atoi r) (se_self_addr env)
       (case files f of None \<Rightarrow> [] | Some t \<Rightarrow> t))"
    "server_start s" "world s = w"
  using assms
  by (auto simp: ftc_start_comm_server_def ftc_init_comm_def andThen_iffs server_start_def
      split: option.splits elim!: list_addr_effect)

lemma NUL_in_ip:
  assumes "no_nul a" and "extract_ip_portion a (replicate 128 NUL) 128 = Inr b"
  shows "NUL \<in> set b"
proof -
  have "\<exists>t. cstr b = Inr t"
    using extract_ip_portion_ok [of "replicate 128 NUL" a] assms by auto
  then show ?thesis by (auto simp: cstr_def split: if_splits)
qed

section \<open>The server's own address\<close>

lemma step_keeps_address: "server_step os le t s s' \<Longrightarrow> server_addr_str s' = server_addr_str s"
proof (induction rule: server_step.induct)
  case (open_step hg oin s s' out)
  then show ?case by (cases rule: open_handler_effect) (auto simp: frame_def)
next
  case (close_step hg cin s s' out)
  then show ?case by (cases rule: close_handler_effect) (auto simp: frame_def)
qed (auto simp: frame_def mover_drain_eq mover_copy_def mover_publish_def Let_def
    dest: read_handler_effect seek_handler_effect(1) split: list.splits option.splits prod.splits)

lemma run_keeps_address: "server_run os le t s s' \<Longrightarrow> server_addr_str s' = server_addr_str s"
  by (induction rule: server_run.induct) (auto dest: step_keeps_address)

text \<open>The faults of the handlers once both addresses can be read.\<close>

lemma handler_faults:
  assumes "NUL \<in> set (server_addr_str s)" and "\<And>a. get_info hg = Some a \<Longrightarrow> no_nul a"
  shows "ftc_open_rpc_handler os le hg oin s = Inl e \<Longrightarrow> e = Assertion"
    and "ftc_rpc_handler os le hg rin s = Inl e \<Longrightarrow> e = Assertion"
    and "ftc_close_rpc_handler os le hg cin s = Inl e \<Longrightarrow> e = Assertion"
    and "ftc_seek_rpc_handler os hg sin s = Inl e \<Longrightarrow> e = Assertion"
proof -
  have peer: "\<exists>fl. peer_flag (server_addr_str s) a = Inr fl" if "get_info hg = Some a" for a
    using peer_flag_ok [OF assms(1) assms(2) [OF that]] .
  show "ftc_open_rpc_handler os le hg oin s = Inl e \<Longrightarrow> e = Assertion"
    using peer by (auto simp: ftc_open_rpc_handler_def andThen_Inl_iff server_log_eq Let_def
        split: option.splits prod.splits)
  show "ftc_rpc_handler os le hg rin s = Inl e \<Longrightarrow> e = Assertion"
  proof -
    obtain r bs w where seq: "sequential_read os rin (input_val rin) (world s) = ((r, bs), w)"
      by (metis prod.collapse)
    obtain r' bs' w' where pos:
      "sys_pread os (accessfd rin) (input_val rin) (offset rin) (world s) = ((r', bs'), w')"
      by (metis prod.collapse)
    show "ftc_rpc_handler os le hg rin s = Inl e \<Longrightarrow> e = Assertion"
      using peer by (auto simp: ftc_rpc_handler_def andThen_Inl_iff server_log_eq start_transfer_def
          Let_def seq pos split: option.splits if_splits)
  qed
  show "ftc_close_rpc_handler os le hg cin s = Inl e \<Longrightarrow> e = Assertion"
  proof -
    obtain r w where cl: "sys_close os (close_fd cin) (world s) = (r, w)" by fastforce
    show "ftc_close_rpc_handler os le hg cin s = Inl e \<Longrightarrow> e = Assertion"
      using peer by (auto simp: ftc_close_rpc_handler_def andThen_Inl_iff server_log_eq Let_def cl
          split: option.splits prod.splits if_splits)
  qed
  show "ftc_seek_rpc_handler os hg sin s = Inl e \<Longrightarrow> e = Assertion"
    by (auto simp: ftc_seek_rpc_handler_def andThen_Inl_iff split: prod.splits)
qed

end
