(* ===== verification/Demo.thy ===== *)
theory Demo
  imports Server_Startup
begin

text \<open>
  A small concrete deployment on the file system of \<open>Posix_Files\<close>: one data file \<^verbatim>\<open>/d/a\<close>, one
  server, and the states it goes through when a client opens, reads and closes the file and the
  data mover copies it. The witnesses of the properties evaluate the handlers here.
\<close>

definition demo_data :: "byte list" where
  "demo_data = [10, 20, 30, 40, 50]"

definition demo_fs :: fsys where
  "demo_fs = \<lparr>fs_files = [''/d/a'' \<mapsto> demo_data], fs_dirs = (\<lambda>d. d = ''/d'' \<or> d = ''/n''),
     fs_table = Map.empty, fs_temp = 0, fs_cwd = ''/d''\<rparr>"

definition demo_le :: log_env where
  "demo_le = \<lparr>log_dir = None, log_openable = (\<lambda>f. False)\<rparr>"

definition demo_call :: hg_call where
  "demo_call = \<lparr>get_input_ret = 0, get_info = Some ''c'', addr_to_string_ret = 0, calloc_ok = True,
     bulk_create_ret = 0, bulk_transfer_ret = 0, clock = (\<lambda>k. (0, 0))\<rparr>"

definition demo_server :: "fsys server" where
  "demo_server = \<lparr>fd_to_path = Map.empty, path_cache_map = Map.empty, data_queue = [],
     local_list = [], mover_file = None, mover_errors = [], server_rank = 0,
     server_addr_str = [CHR ''s'', NUL], server_logs = Map.empty, world = demo_fs\<rparr>"

definition state_of :: "('w server \<times> outcome) res \<Rightarrow> 'w server" where
  "state_of r = (case r of Inr (s, out) \<Rightarrow> s | Inl e \<Rightarrow> undefined)"

definition demo_open_in :: open_in where
  "demo_open_in = \<lparr>open_path = ''/d/a'', open_client_rank = 0, open_localfd = 7\<rparr>"

definition demo_close_in :: close_in where
  "demo_close_in = \<lparr>close_fd = 0, close_client_rank = 0\<rparr>"

definition demo_read_in :: "int \<Rightarrow> int \<Rightarrow> rpc_in" where
  "demo_read_in n off = \<lparr>input_val = n, bulk_handle = 0, accessfd = 0, read_localfd = 7,
     offset = off, read_client_rank = 0\<rparr>"

definition demo_opened :: "fsys server" where
  "demo_opened = state_of (ftc_open_rpc_handler fsys_os demo_le demo_call demo_open_in demo_server)"

definition demo_closed :: "fsys server" where
  "demo_closed = state_of (ftc_close_rpc_handler fsys_os demo_le demo_call demo_close_in demo_opened)"

definition demo_round :: "fsys server" where
  "demo_round = mover_loop fsys_os (nvme_template ''/n'') (mover_drain demo_closed)"

lemma first_free_hit: "0 < n \<Longrightarrow> m i = None \<Longrightarrow> first_free n i m = Some i"
  by (cases n) simp_all

lemma first_free_zero: "m 0 = None \<Longrightarrow> first_free 1024 0 m = Some 0"
  by (simp add: first_free_hit)

lemma demo_peer: "peer_flag [CHR ''s'', NUL] ''c'' = Inr 0"
  by code_simp

lemma demo_log: "logging_info demo_le i ty L = Inr L"
  by (simp add: logging_info_def demo_le_def Let_def)

lemma demo_server_log: "server_log demo_le i s = Inr s"
  by (simp add: server_log_def demo_log)

lemma demo_open_eq:
  "ftc_open_rpc_handler fsys_os demo_le demo_call demo_open_in demo_server =
     Inr (demo_server\<lparr>fd_to_path := [0 \<mapsto> ''/d/a''],
            world := demo_fs\<lparr>fs_table := [0 \<mapsto> (''/d/a'', 0)]\<rparr>\<rparr>, answered 0 (Open_Out 0))"
  by (simp add: ftc_open_rpc_handler_def demo_server_log demo_call_def demo_server_def demo_peer
      demo_open_in_def fsys_open_def demo_fs_def first_free_zero Let_def)

lemma demo_opened_eq: "demo_opened = demo_server\<lparr>fd_to_path := [0 \<mapsto> ''/d/a''],
    world := demo_fs\<lparr>fs_table := [0 \<mapsto> (''/d/a'', 0)]\<rparr>\<rparr>"
  by (simp add: demo_opened_def demo_open_eq state_of_def)

lemma demo_close_eq:
  "ftc_close_rpc_handler fsys_os demo_le demo_call demo_close_in demo_opened =
     Inr (demo_server\<lparr>data_queue := [''/d/a'']\<rparr>, quiet 0 [R_Handle])"
  by (simp add: ftc_close_rpc_handler_def demo_server_log demo_call_def demo_opened_eq demo_server_def
      demo_peer demo_close_in_def fsys_close_def demo_fs_def Let_def)

lemma demo_closed_eq: "demo_closed = demo_server\<lparr>data_queue := [''/d/a'']\<rparr>"
  by (simp add: demo_closed_def demo_close_eq state_of_def)

lemma demo_start: "server_start demo_server"
  by (simp add: server_start_def demo_server_def)

lemma demo_opened_run: "server_run fsys_os demo_le t demo_server demo_opened"
  by (rule server_run_one, rule open_step [where hg = demo_call and oin = demo_open_in])
    (simp add: demo_open_eq demo_opened_eq)

lemma demo_closed_run: "server_run fsys_os demo_le t demo_server demo_closed"
  by (rule run_step [OF demo_opened_run],
      rule close_step [where hg = demo_call and cin = demo_close_in])
    (simp add: demo_close_eq demo_closed_eq)

lemma demo_round_eq: "ftc_data_mover_round fsys_os (Some ''/n'') demo_closed = Inr demo_round"
  by (simp add: ftc_data_mover_round_def demo_round_def demo_closed_eq demo_server_def)

lemma demo_round_run: "server_run fsys_os demo_le (nvme_template ''/n'') demo_server demo_round"
  by (rule server_run_trans [OF demo_closed_run], rule mover_round_is_run [OF _ _ demo_round_eq])
    (simp_all add: demo_closed_eq demo_server_def)

lemma demo_copy_name: "fsys_mkdtemp ''/n/XXXXXX'' demo_fs =
    (''/n/0'', demo_fs\<lparr>fs_dirs := (fs_dirs demo_fs)(''/n/0'' := True), fs_temp := Suc 0\<rparr>)"
proof -
  have "show_nat 0 = ''0''" by code_simp
  then show ?thesis by (simp add: fsys_mkdtemp_def demo_fs_def Let_def)
qed

lemma mover_loop_single:
  assumes "local_list s = [p]"
  shows "mover_loop os t s = mover_iter os t s"
  using mover_iter_cases [OF assms, of os t] assms
  by (simp add: mover_loop.simps [of os t s] mover_loop.simps [of os t "mover_iter os t s"])

text \<open>The state after the round: the copy is entered in the map, and the queue is empty.\<close>

lemma demo_round_state:
  "demo_round = demo_server\<lparr>path_cache_map := [''/d/a'' \<mapsto> ''/n/0/a''],
     world := demo_fs\<lparr>fs_dirs := (fs_dirs demo_fs)(''/n/0'' := True), fs_temp := Suc 0,
       fs_files := (fs_files demo_fs)(''/n/0/a'' \<mapsto> demo_data)\<rparr>\<rparr>"
proof -
  have names: "filename_of ''/d/a'' = ''a''" "parent_of ''/n/0/a'' = ''/n/0''" by code_simp+
  have drained: "mover_drain demo_closed = demo_server\<lparr>data_queue := [], local_list := [''/d/a'']\<rparr>"
    by (simp add: mover_drain_eq demo_closed_eq demo_server_def)
  have copied: "fsys_copy ''/d/a'' ''/n/0/a''
      (demo_fs\<lparr>fs_dirs := (fs_dirs demo_fs)(''/n/0'' := True), fs_temp := Suc 0\<rparr>) =
    (True, demo_fs\<lparr>fs_dirs := (fs_dirs demo_fs)(''/n/0'' := True), fs_temp := Suc 0,
       fs_files := (fs_files demo_fs)(''/n/0/a'' \<mapsto> demo_data)\<rparr>)"
    by (simp add: fsys_copy_def names demo_fs_def)
  have "mover_loop fsys_os (nvme_template ''/n'') (mover_drain demo_closed) =
      mover_iter fsys_os (nvme_template ''/n'') (mover_drain demo_closed)"
    by (rule mover_loop_single) (simp add: drained)
  then show ?thesis
    by (simp add: demo_round_def drained mover_iter_def mover_copy_def mover_publish_def
        nvme_template_def demo_server_def demo_copy_name names copied Let_def)
qed

section \<open>Starting the server\<close>

definition demo_env :: server_env where
  "demo_env = \<lparr>se_log = \<lparr>log_dir = Some ''l'', log_openable = (\<lambda>f. True)\<rparr>,
     se_getenv = [''PMIX_RANK'' \<mapsto> ''0'', ''MY_JOBID'' \<mapsto> ''j''],
     se_self_addr = ''t:h:1'', se_openable = (\<lambda>f. True)\<rparr>"

lemma demo_ip: "extract_ip_portion ''t:h:1'' (replicate 128 NUL) 128 = Inr (''t:h:'' @ replicate 124 NUL)"
  by code_simp

lemma demo_ports_file: "ports_filename (Some ''j'') = Inr ''./.ports.cfg.j''"
  by code_simp

lemma demo_started:
  "\<exists>s. ftc_start_comm_server demo_env demo_fs Map.empty Map.empty =
    Inr (s, [''./.ports.cfg.j'' \<mapsto> ports_line 0 ''t:h:1''])"
proof -
  have "atoi ''0'' = 0" by code_simp
  then show ?thesis
    by (simp add: ftc_start_comm_server_def ftc_init_comm_def demo_env_def initialize_log_def
        ftc_comm_list_addr_def demo_ports_file demo_ip Let_def)
qed

end
