(* ===== verification/Server_Properties.thy ===== *)
theory Server_Properties
  imports Demo
begin

text \<open>
  The properties of the server: what its maps promise about the files over every run, what each
  handler answers, what the data mover does with a closed file, and the branches in which a
  handler stops the process or answers wrongly. Each is followed by a witness on the deployment
  of \<open>Demo\<close>.
\<close>

section \<open>Coherence of the cache\<close>

text \<open>
  C5. In every state a server reaches from its start, whatever messages arrive and however the
  data mover is interleaved with them, a path that is entered in \<open>path_cache_map\<close> has a copy whose
  data is the data of the path itself.
\<close>

theorem cached_copies_are_coherent:
  assumes "posix_files os content ofd"
    and "server_start s0" and "server_run os le t s0 s"
    and "path_cache_map s p = Some q"
  shows "\<exists>d. content (world s) p = Some d \<and> content (world s) q = Some d"
  using posix_files.run_keeps_ok [OF assms(1,3) server_ok_start [OF assms(2)]] assms(4)
  by (auto simp: server_ok_def cache_ok_def same_data_def)

theorem cached_copies_are_coherent_witness:
  "\<exists>d. fs_files (world demo_round) ''/d/a'' = Some d \<and> fs_files (world demo_round) ''/n/0/a'' = Some d"
  by (rule cached_copies_are_coherent
      [OF fsys.posix_files_axioms demo_start demo_round_run])
    (simp add: demo_round_state)

text \<open>
  C7. In every reachable state, a descriptor the server has entered for a path is open on a file
  that holds the path's data: the path itself, or its copy on the node-local storage.
\<close>

theorem descriptors_read_their_path:
  assumes "posix_files os content ofd"
    and "server_start s0" and "server_run os le t s0 s"
    and "fd_to_path s fd = Some p" and "0 \<le> fd" and "content (world s) p = Some d"
  shows "\<exists>q off. ofd (world s) fd = Some (q, off) \<and> content (world s) q = Some d"
proof -
  have "server_ok content ofd s"
    using posix_files.run_keeps_ok [OF assms(1,3) server_ok_start [OF assms(2)]] by blast
  from posix_files.fd_data [OF assms(1) this assms(4-6)] show ?thesis by blast
qed

theorem descriptors_read_their_path_witness:
  "\<exists>q off. fs_table (world demo_opened) 0 = Some (q, off) \<and>
     fs_files (world demo_opened) q = Some demo_data"
  by (rule descriptors_read_their_path
      [OF fsys.posix_files_axioms demo_start demo_opened_run [of "''t''"], where p = "''/d/a''"])
    (simp_all add: demo_opened_eq demo_fs_def)



section \<open>Reading\<close>

text \<open>The outcome of a positioned read, for the property below and for the clients.\<close>

lemma pread_outcome:
  assumes "posix_files os content ofd"
    and "server_start s0" and "server_run os le t s0 s"
    and "served hg inp s" and "0 \<le> offset inp" and "input_val inp < 2147483648"
    and "fd_to_path s (accessfd inp) = Some p" and "0 \<le> accessfd inp"
    and "content (world s) p = Some d"
  shows "\<exists>s' out. ftc_rpc_handler os le hg inp s = Inr (s', out) \<and>
    (out_resp out = Some (Read_Out (-1)) \<and> out_xfer out = None \<or>
     (\<exists>st. out_resp out = None \<and> out_xfer out = Some st \<and>
        pushed st = take (nat (input_val inp)) (drop (nat (offset inp)) d) \<and>
        out_resp (ftc_rpc_handler_bulk_cb 0 0 st (out_live out)) =
          Some (Read_Out (int (length (pushed st))))))"
proof -
  have "server_ok content ofd s"
    using posix_files.run_keeps_ok [OF assms(1,3) server_ok_start [OF assms(2)]] by blast
  from posix_files.fd_data [OF assms(1) this assms(7-9)] obtain q off where
    q: "ofd (world s) (accessfd inp) = Some (q, off)" "content (world s) q = Some d" by blast
  obtain r bs w where pos:
    "sys_pread os (accessfd inp) (input_val inp) (offset inp) (world s) = ((r, bs), w)"
    by (metis prod.collapse)
  have n: "0 \<le> input_val inp" using assms(4) by (simp add: served_def)
  from posix_files.pread_file [OF assms(1) q n assms(5) pos] show ?thesis
  proof
    assume "r = -1 \<and> bs = []"
    then obtain s' where "ftc_rpc_handler os le hg inp s = Inr (s', answered 0 (Read_Out (-1)))"
      using pread_handler_runs [OF assms(4) _ pos, of le] assms(5) by auto
    moreover have "out_resp (answered 0 (Read_Out (-1))) = Some (Read_Out (-1))"
      "out_xfer (answered 0 (Read_Out (-1))) = None"
      by (simp_all add: answered_def)
    ultimately show ?thesis by blast
  next
    assume bs: "bs = take (nat (input_val inp)) (drop (nat (offset inp)) d) \<and> r = int (length bs)"
    then have len: "length bs \<le> nat (input_val inp)" by simp
    have "nat (uwrap64 r) = length bs" using bs len assms(6) n by simp
    then have "pushed (transfer inp r bs) = bs"
      unfolding pushed_def transfer_def by simp
    moreover have "wrap32 (rs_size (transfer inp r bs)) = int (length bs)"
      using bs len assms(6) n by (simp add: transfer_def)
    moreover obtain s' where
      "ftc_rpc_handler os le hg inp s = Inr (s', transferring inp r bs)"
      using pread_handler_runs [OF assms(4) _ pos, of le] assms(5) bs by auto
    ultimately have "ftc_rpc_handler os le hg inp s = Inr (s', transferring inp r bs) \<and>
        out_resp (transferring inp r bs) = None \<and>
        out_xfer (transferring inp r bs) = Some (transfer inp r bs) \<and>
        pushed (transfer inp r bs) = take (nat (input_val inp)) (drop (nat (offset inp)) d) \<and>
        out_resp (ftc_rpc_handler_bulk_cb 0 0 (transfer inp r bs) (out_live (transferring inp r bs))) =
          Some (Read_Out (int (length (pushed (transfer inp r bs)))))"
      using bs by (simp add: transferring_def ftc_rpc_handler_bulk_cb_def Let_def)
    then show ?thesis by blast
  qed
qed

text \<open>
  C9. A positioned read of an open descriptor, in any reachable state, does not fault. Either the
  file system refused the read and the client is told -1, or the bulk transfer pushes exactly
  the bytes of the path at the offset (up to the count and the end of the file) and the answer
  sent when the transfer ends is their number.
\<close>

theorem positioned_read_serves_the_path:
  assumes "posix_files os content ofd"
    and "server_start s0" and "server_run os le t s0 s"
    and "served hg inp s" and "0 \<le> offset inp" and "input_val inp < 2147483648"
    and "fd_to_path s (accessfd inp) = Some p" and "0 \<le> accessfd inp"
    and "content (world s) p = Some d"
  shows "\<exists>s' out. ftc_rpc_handler os le hg inp s = Inr (s', out) \<and>
    (out_resp out = Some (Read_Out (-1)) \<and> out_xfer out = None \<or>
     (\<exists>st. out_resp out = None \<and> out_xfer out = Some st \<and>
        pushed st = take (nat (input_val inp)) (drop (nat (offset inp)) d) \<and>
        out_resp (ftc_rpc_handler_bulk_cb 0 0 st (out_live out)) =
          Some (Read_Out (int (length (pushed st))))))"
  using assms by (rule pread_outcome)

lemma demo_served: "served demo_call (demo_read_in 3 off) demo_opened"
  by (simp add: served_def demo_call_def demo_read_in_def demo_opened_eq demo_server_def demo_peer)

theorem positioned_read_serves_the_path_witness:
  "\<exists>s' out. ftc_rpc_handler fsys_os demo_le demo_call (demo_read_in 3 1) demo_opened = Inr (s', out) \<and>
    (out_resp out = Some (Read_Out (-1)) \<and> out_xfer out = None \<or>
     (\<exists>st. out_resp out = None \<and> out_xfer out = Some st \<and>
        pushed st = take (nat (input_val (demo_read_in 3 1)))
          (drop (nat (offset (demo_read_in 3 1))) demo_data) \<and>
        out_resp (ftc_rpc_handler_bulk_cb 0 0 st (out_live out)) =
          Some (Read_Out (int (length (pushed st))))))"
  by (rule positioned_read_serves_the_path [OF fsys.posix_files_axioms demo_start
        demo_opened_run [of "''t''"] demo_served, where p = "''/d/a''"])
    (simp_all add: demo_read_in_def demo_opened_eq demo_fs_def)

text \<open>The outcome of a sequential read.\<close>

lemma sequential_outcome:
  assumes "posix_files os content ofd" and "served hg inp s"
    and "offset inp = -1" and "input_val inp < 2147483648"
    and "ofd (world s) (accessfd inp) = Some (q, off)" and "content (world s) q = Some d"
    and "fst (fst (sys_read os (accessfd inp) (input_val inp) (world s))) \<noteq> -1"
  shows "\<exists>s' out st bs. ftc_rpc_handler os le hg inp s = Inr (s', out) \<and> out_xfer out = Some st \<and>
    bs = take (nat (input_val inp)) (drop (nat off) d) \<and> pushed st = bs \<and>
    out_resp (ftc_rpc_handler_bulk_cb 0 0 st (out_live out)) = Some (Read_Out (int (length bs))) \<and>
    ofd (world s') = (ofd (world s))(accessfd inp \<mapsto> (q, off + int (length bs)))"
proof -
  obtain r bs w where rd: "sys_read os (accessfd inp) (input_val inp) (world s) = ((r, bs), w)"
    by (metis prod.collapse)
  have n: "0 \<le> input_val inp" using assms(2) by (simp add: served_def)
  from posix_files.read_file [OF assms(1,5,6) n rd] assms(7) rd
  have bs: "bs = take (nat (input_val inp)) (drop (nat off) d)" "r = int (length bs)"
    and w: "ofd w = (ofd (world s))(accessfd inp \<mapsto> (q, off + r))" by auto
  then have len: "length bs \<le> nat (input_val inp)" by simp
  have "sequential_read os inp (input_val inp) (world s) = ((r, bs), w)"
    using rd bs(2) by (simp add: sequential_read_def)
  from sequential_handler_runs [OF assms(2,3) this, of le] obtain s' where
    s': "ftc_rpc_handler os le hg inp s = Inr (s', transferring inp r bs)" "world s' = w" by blast
  have "nat (uwrap64 r) = length bs" using bs(2) len assms(4) n by simp
  then have "pushed (transfer inp r bs) = bs"
    unfolding pushed_def transfer_def by simp
  moreover have "wrap32 (rs_size (transfer inp r bs)) = int (length bs)"
    using bs(2) len assms(4) n by (simp add: transfer_def)
  moreover have "out_xfer (transferring inp r bs) = Some (transfer inp r bs)"
    by (simp add: transferring_def)
  ultimately have "out_resp (ftc_rpc_handler_bulk_cb 0 0 (transfer inp r bs)
      (out_live (transferring inp r bs))) = Some (Read_Out (int (length bs)))"
    "pushed (transfer inp r bs) = bs" "out_xfer (transferring inp r bs) = Some (transfer inp r bs)"
    by (simp_all add: ftc_rpc_handler_bulk_cb_def Let_def)
  moreover have "ofd (world s') = (ofd (world s))(accessfd inp \<mapsto> (q, off + int (length bs)))"
    unfolding s'(2) w bs(2) ..
  ultimately show ?thesis using s'(1) bs(1) by blast
qed

text \<open>
  C26. A sequential read whose descriptor is open on a file, and which the file system does not
  refuse, pushes the bytes at the descriptor's offset on the server, answers their number and
  moves that offset, and only that descriptor, past them.
\<close>

theorem sequential_read_advances:
  assumes "posix_files os content ofd" and "served hg inp s"
    and "offset inp = -1" and "input_val inp < 2147483648"
    and "ofd (world s) (accessfd inp) = Some (q, off)" and "content (world s) q = Some d"
    and "fst (fst (sys_read os (accessfd inp) (input_val inp) (world s))) \<noteq> -1"
  shows "\<exists>s' out st bs. ftc_rpc_handler os le hg inp s = Inr (s', out) \<and> out_xfer out = Some st \<and>
    bs = take (nat (input_val inp)) (drop (nat off) d) \<and> pushed st = bs \<and>
    out_resp (ftc_rpc_handler_bulk_cb 0 0 st (out_live out)) = Some (Read_Out (int (length bs))) \<and>
    ofd (world s') = (ofd (world s))(accessfd inp \<mapsto> (q, off + int (length bs)))"
  using assms by (rule sequential_outcome)

theorem sequential_read_advances_witness:
  "\<exists>s' out st bs. ftc_rpc_handler fsys_os demo_le demo_call (demo_read_in 3 (-1)) demo_opened =
      Inr (s', out) \<and> out_xfer out = Some st \<and>
    bs = take (nat (input_val (demo_read_in 3 (-1)))) (drop (nat 0) demo_data) \<and> pushed st = bs \<and>
    out_resp (ftc_rpc_handler_bulk_cb 0 0 st (out_live out)) = Some (Read_Out (int (length bs))) \<and>
    fs_table (world s') = (fs_table (world demo_opened))
      (accessfd (demo_read_in 3 (-1)) \<mapsto> (''/d/a'', 0 + int (length bs)))"
  by (rule sequential_read_advances [OF fsys.posix_files_axioms demo_served])
    (simp_all add: demo_read_in_def demo_opened_eq demo_fs_def fsys_read_def fsys_data_def Let_def)

text \<open>
  A sequential read that fails on both descriptors, the server's and the client's own number,
  is not reported: the handler starts a bulk transfer of 2^64 - 1 bytes out of a buffer of the
  requested size.
\<close>

theorem failed_sequential_read_transfers:
  assumes "served hg inp s" and "offset inp = -1"
    and "sys_read os (accessfd inp) (input_val inp) (world s) = ((-1, b1), w1)"
    and "sys_read os (read_localfd inp) (input_val inp) w1 = ((-1, []), w2)"
  shows "\<exists>s' out st. ftc_rpc_handler os le hg inp s = Inr (s', out) \<and> out_resp out = None \<and>
    out_xfer out = Some st \<and> rs_size st = 2 ^ 64 - 1 \<and>
    length (rs_buffer st) = nat (input_val inp)"
proof -
  have "sequential_read os inp (input_val inp) (world s) = ((-1, []), w2)"
    using assms(3,4) by (simp add: sequential_read_def)
  from sequential_handler_runs [OF assms(1,2) this, of le] obtain s' where
    "ftc_rpc_handler os le hg inp s = Inr (s', transferring inp (-1) [])" by blast
  then show ?thesis
    by (intro exI [of _ s'] exI [of _ "transferring inp (-1) []"] exI [of _ "transfer inp (-1) []"])
      (simp add: transferring_def transfer_def uwrap64_def)
qed

theorem failed_sequential_read_transfers_witness:
  "\<exists>s' out st. ftc_rpc_handler fsys_os demo_le demo_call (demo_read_in 3 (-1)) demo_closed =
      Inr (s', out) \<and> out_resp out = None \<and>
    out_xfer out = Some st \<and> rs_size st = 2 ^ 64 - 1 \<and>
    length (rs_buffer st) = nat (input_val (demo_read_in 3 (-1)))"
proof (rule failed_sequential_read_transfers)
  show "served demo_call (demo_read_in 3 (- 1)) demo_closed"
    by (simp add: served_def demo_call_def demo_read_in_def demo_closed_eq demo_server_def demo_peer)
  show "sys_read fsys_os (accessfd (demo_read_in 3 (- 1))) (input_val (demo_read_in 3 (- 1)))
      (world demo_closed) = ((-1, []), demo_fs)"
    and "sys_read fsys_os (read_localfd (demo_read_in 3 (- 1))) (input_val (demo_read_in 3 (- 1)))
      demo_fs = ((-1, []), demo_fs)"
    by (simp_all add: demo_read_in_def demo_closed_eq demo_server_def demo_fs_def fsys_read_def
        fsys_data_def)
qed (simp add: demo_read_in_def)

text \<open>
  A read request whose size does not fit the signed 32-bit field \<open>input_val\<close>, any count from
  2 GiB to just below 4 GiB, stops the server: the field is negative there, no buffer of that
  size can be allocated, and the assertion on the buffer fails.
\<close>

theorem huge_read_stops_the_server:
  assumes "get_input_ret hg = 0" and "2147483648 \<le> count" and "count < 4294967296"
  shows "ftc_rpc_handler os le hg (mk_rpc_in count bulk rfd lfd off rank) s = Inl Assertion"
proof -
  have "wrap32 count < 0" using assms(2,3) by (simp add: wrap32_high)
  then show ?thesis using assms(1) by (simp add: ftc_rpc_handler_def mk_rpc_in_def)
qed

theorem huge_read_stops_the_server_witness:
  "ftc_rpc_handler fsys_os demo_le demo_call (mk_rpc_in 3000000000 0 0 7 0 0) demo_opened = Inl Assertion"
  by (rule huge_read_stops_the_server) (simp_all add: demo_call_def)



section \<open>Opening, closing and the data mover\<close>

text \<open>
  C27. An open that Mercury delivers never faults: it opens the copy of a cached path and the path
  itself otherwise, answers the descriptor or -1, enters the client's path (not the copy's) under
  that number, and changes neither the cache map nor the queue.
\<close>

theorem open_goes_to_the_copy:
  assumes "posix_files os content ofd"
    and "get_input_ret hg = 0" and "get_info hg = Some a"
    and "peer_flag (server_addr_str s) a = Inr fl"
  shows "\<exists>s' fd. ftc_open_rpc_handler os le hg inp s =
      Inr (s', answered (addr_to_string_ret hg) (Open_Out fd)) \<and>
    fd_to_path s' = (fd_to_path s)(fd \<mapsto> open_path inp) \<and>
    path_cache_map s' = path_cache_map s \<and> data_queue s' = data_queue s \<and>
    (fd = -1 \<and> ofd (world s') = ofd (world s) \<or>
     0 \<le> fd \<and> ofd (world s) fd = None \<and> ofd (world s') = (ofd (world s))(fd \<mapsto>
       (case path_cache_map s (open_path inp) of None \<Rightarrow> open_path inp | Some q \<Rightarrow> q, 0)))"
proof -
  obtain fd w where op: "sys_open os (redirect s (open_path inp)) O_RDONLY (world s) = (fd, w)"
    by fastforce
  from open_handler_runs [OF assms(2-4) op, of le] obtain s' where
    "ftc_open_rpc_handler os le hg inp s = Inr (s', answered (addr_to_string_ret hg) (Open_Out fd))"
    "frame s s'" "world s' = w" "data_queue s' = data_queue s"
    "fd_to_path s' = (fd_to_path s)(fd \<mapsto> open_path inp)" by blast
  moreover from posix_files.open_ofd [OF assms(1) op]
  have "fd = -1 \<and> ofd w = ofd (world s) \<or> 0 \<le> fd \<and> ofd (world s) fd = None \<and>
      ofd w = (ofd (world s))(fd \<mapsto> (case path_cache_map s (open_path inp) of
        None \<Rightarrow> open_path inp | Some q \<Rightarrow> q, 0))"
    by (simp add: redirect_def)
  ultimately show ?thesis unfolding frame_def by blast
qed

theorem open_goes_to_the_copy_witness:
  "\<exists>s' fd. ftc_open_rpc_handler fsys_os demo_le demo_call demo_open_in demo_round =
      Inr (s', answered (addr_to_string_ret demo_call) (Open_Out fd)) \<and>
    fd_to_path s' = (fd_to_path demo_round)(fd \<mapsto> open_path demo_open_in) \<and>
    path_cache_map s' = path_cache_map demo_round \<and> data_queue s' = data_queue demo_round \<and>
    (fd = -1 \<and> fs_table (world s') = fs_table (world demo_round) \<or>
     0 \<le> fd \<and> fs_table (world demo_round) fd = None \<and>
     fs_table (world s') = (fs_table (world demo_round))(fd \<mapsto>
       (case path_cache_map demo_round (open_path demo_open_in) of
          None \<Rightarrow> open_path demo_open_in | Some q \<Rightarrow> q, 0)))"
  by (rule open_goes_to_the_copy [OF fsys.posix_files_axioms, where a = "''c''" and fl = 0])
    (simp_all add: demo_call_def demo_round_state demo_server_def demo_peer)

text \<open>
  C28. A close of a descriptor that the file system closes never faults. It drops the descriptor
  from the map, and it queues the descriptor's path for the data mover exactly when the path is
  not cached yet.
\<close>

theorem close_queues_uncached_paths:
  assumes "get_input_ret hg = 0" and "get_info hg = Some a"
    and "peer_flag (server_addr_str s) a = Inr fl"
    and "fst (sys_close os (close_fd inp) (world s)) = 0"
    and "fd_to_path s (close_fd inp) = Some p"
  shows "\<exists>s'. ftc_close_rpc_handler os le hg inp s = Inr (s', quiet 0 [R_Handle]) \<and>
    fd_to_path s' = (fd_to_path s)(close_fd inp := None) \<and>
    path_cache_map s' = path_cache_map s \<and>
    data_queue s' = data_queue s @ (if p \<in> dom (path_cache_map s) then [] else [p])"
proof -
  obtain w where cl: "sys_close os (close_fd inp) (world s) = (0, w)"
    using assms(4) by (metis prod.collapse)
  have "closed_path s (close_fd inp) = p" using assms(5) by (simp add: closed_path_def)
  with close_handler_runs [OF assms(1-3) cl, of le] show ?thesis
    by (auto simp: frame_def domIff)
qed

theorem close_queues_uncached_paths_witness:
  "\<exists>s'. ftc_close_rpc_handler fsys_os demo_le demo_call demo_close_in demo_opened =
      Inr (s', quiet 0 [R_Handle]) \<and>
    fd_to_path s' = (fd_to_path demo_opened)(close_fd demo_close_in := None) \<and>
    path_cache_map s' = path_cache_map demo_opened \<and>
    data_queue s' = data_queue demo_opened @
      (if ''/d/a'' \<in> dom (path_cache_map demo_opened) then [] else [''/d/a''])"
  by (rule close_queues_uncached_paths [where a = "''c''" and fl = 0])
    (simp_all add: demo_call_def demo_close_in_def demo_opened_eq demo_server_def demo_peer
      fsys_close_def)

text \<open>
  A close whose \<^verbatim>\<open>close\<close> fails stops the server with a failed assertion. A client sends such
  a request for every file the server could not open, because the answer -1 is kept as the
  remote descriptor.
\<close>

theorem failed_close_stops_the_server:
  assumes "get_input_ret hg = 0" and "get_info hg = Some a"
    and "peer_flag (server_addr_str s) a = Inr fl"
    and "fst (sys_close os (close_fd inp) (world s)) \<noteq> 0"
  shows "ftc_close_rpc_handler os le hg inp s = Inl Assertion"
proof -
  obtain r w where "sys_close os (close_fd inp) (world s) = (r, w)" by fastforce
  with assms show ?thesis
    by (simp add: ftc_close_rpc_handler_def server_log_eq Let_def)
qed

theorem failed_close_stops_the_server_witness:
  "ftc_close_rpc_handler fsys_os demo_le demo_call \<lparr>close_fd = -1, close_client_rank = 0\<rparr> demo_server =
     Inl Assertion"
  by (rule failed_close_stops_the_server [where a = "''c''" and fl = 0])
    (simp_all add: demo_call_def demo_server_def demo_peer fsys_close_def demo_fs_def)

text \<open>
  C17. A round of the data mover always ends. It leaves queue and list empty, every path that was
  queued is entered in the map or was reported as not copied, no entry is lost and nothing but
  queued paths is entered.
\<close>

theorem mover_round_handles_every_path:
  assumes "local_list s = []" and "mover_file s = None"
  shows "\<exists>s'. ftc_data_mover_round os (Some b) s = Inr s' \<and> data_queue s' = [] \<and>
    local_list s' = [] \<and> mover_file s' = None \<and> fd_to_path s' = fd_to_path s \<and>
    set (data_queue s) \<subseteq> dom (path_cache_map s') \<union> set (mover_errors s') \<and>
    dom (path_cache_map s) \<subseteq> dom (path_cache_map s') \<and>
    dom (path_cache_map s') \<subseteq> dom (path_cache_map s) \<union> set (data_queue s)"
proof (cases "data_queue s = []")
  case True
  then show ?thesis using assms by (simp add: ftc_data_mover_round_def)
next
  case False
  let ?t = "nvme_template b"
  have d: "mover_drain s = s\<lparr>data_queue := [], local_list := data_queue s\<rparr>"
    using assms by (simp add: mover_drain_eq)
  have "mover_file (mover_drain s) = None" using assms by (simp add: d)
  note ends = mover_loop_ends [OF this, of os ?t]
  note covers = mover_loop_covers [of "mover_drain s" os ?t]
  show ?thesis
    using False ends covers by (simp add: ftc_data_mover_round_def d)
qed

theorem mover_round_handles_every_path_witness:
  "\<exists>s'. ftc_data_mover_round fsys_os (Some ''/n'') demo_closed = Inr s' \<and> data_queue s' = [] \<and>
    local_list s' = [] \<and> mover_file s' = None \<and> fd_to_path s' = fd_to_path demo_closed \<and>
    set (data_queue demo_closed) \<subseteq> dom (path_cache_map s') \<union> set (mover_errors s') \<and>
    dom (path_cache_map demo_closed) \<subseteq> dom (path_cache_map s') \<and>
    dom (path_cache_map s') \<subseteq> dom (path_cache_map demo_closed) \<union> set (data_queue demo_closed)"
  by (rule mover_round_handles_every_path) (simp_all add: demo_closed_eq demo_server_def)



text \<open>
  C10. Caching makes progress: after a close of a descriptor with a path and one round of an idle
  data mover, that path has an entry in the cache map or has been reported as not copied.
\<close>

theorem closed_files_reach_the_cache:
  assumes "ftc_close_rpc_handler os le hg inp s = Inr (s1, out)" and "get_info hg \<noteq> None"
    and "fd_to_path s (close_fd inp) = Some p"
    and "local_list s = []" and "mover_file s = None"
  shows "\<exists>s2. ftc_data_mover_round os (Some b) s1 = Inr s2 \<and>
    (path_cache_map s2 p \<noteq> None \<or> p \<in> set (mover_errors s2))"
  using assms(1)
proof (cases rule: close_handler_effect)
  case no_info
  with assms(2) show ?thesis by simp
next
  case closed
  let ?t = "nvme_template b"
  have idle: "local_list s1 = []" "mover_file s1 = None" "path_cache_map s1 = path_cache_map s"
    using closed(2) assms(4,5) by (simp_all add: frame_def)
  have q: "data_queue s1 = (if path_cache_map s p = None then data_queue s @ [p] else data_queue s)"
    using closed(4) assms(3) by (simp add: closed_path_def)
  have drained: "local_list (mover_drain s1) = data_queue s1"
    "path_cache_map (mover_drain s1) = path_cache_map s1"
    by (simp_all add: mover_drain_eq idle)
  note covers = mover_loop_covers [of "mover_drain s1" os ?t]
  show ?thesis
  proof (cases "data_queue s1 = []")
    case True
    with q have "path_cache_map s1 p \<noteq> None" by (auto simp: idle split: if_splits)
    with True show ?thesis by (simp add: ftc_data_mover_round_def)
  next
    case False
    have "p \<in> dom (path_cache_map s1) \<union> set (data_queue s1)"
      using q by (auto simp: idle domIff)
    with covers have "p \<in> dom (path_cache_map (mover_loop os ?t (mover_drain s1))) \<union>
        set (mover_errors (mover_loop os ?t (mover_drain s1)))"
      unfolding drained by blast
    with False show ?thesis by (auto simp: ftc_data_mover_round_def domIff)
  qed
qed

theorem closed_files_reach_the_cache_witness:
  "\<exists>s2. ftc_data_mover_round fsys_os (Some ''/n'') (demo_server\<lparr>data_queue := [''/d/a'']\<rparr>) = Inr s2 \<and>
    (path_cache_map s2 ''/d/a'' \<noteq> None \<or> ''/d/a'' \<in> set (mover_errors s2))"
  by (rule closed_files_reach_the_cache [OF demo_close_eq])
    (simp_all add: demo_call_def demo_opened_eq demo_server_def demo_close_in_def)

section \<open>Start-up and faults\<close>



text \<open>
  The answer to a seek is truncated to 32 bits: when the server's \<^verbatim>\<open>lseek64\<close> succeeds with an
  offset from 2 GiB to below 4 GiB, the client is told a negative number.
\<close>

theorem seek_answer_is_truncated:
  assumes "get_input_ret hg = 0"
    and "sys_lseek os (seek_fd inp) (seek_offset inp) (whence inp) (world s) = (r, w)"
    and "2147483648 \<le> r" and "r < 4294967296"
  shows "\<exists>s' out v. ftc_seek_rpc_handler os hg inp s = Inr (s', out) \<and> world s' = w \<and>
    out_resp out = Some (Seek_Out v) \<and> v < 0 \<and> v = r - 4294967296"
  using assms by (simp add: ftc_seek_rpc_handler_def answered_def wrap32_high)

theorem seek_answer_is_truncated_witness:
  "\<exists>s' out v. ftc_seek_rpc_handler fsys_os demo_call
      \<lparr>seek_fd = 0, seek_offset = 2147483647, whence = 2\<rparr> demo_opened = Inr (s', out) \<and>
    world s' = (world demo_opened)\<lparr>fs_table := (fs_table (world demo_opened))
      (0 \<mapsto> (''/d/a'', 2147483652))\<rparr> \<and>
    out_resp out = Some (Seek_Out v) \<and> v < 0 \<and> v = 2147483652 - 4294967296"
  by (rule seek_answer_is_truncated)
    (simp_all add: demo_call_def demo_opened_eq demo_fs_def demo_data_def fsys_lseek_def fsys_data_def)

end
