(* ===== verification/Client_Rpc.thy ===== *)
theory Client_Rpc
  imports Request_Log Rpc_Messages
begin

text \<open>
  The client's RPC layer (ftc_comm_client.cpp): the state the interception library keeps, the four
  functions that send a request, the callbacks that take the answers, and the waits with their
  deadline. What happens while a thread waits is a list of events; Mercury and the environment
  are parameters. The lemmas say what each operation sends and what it changes.
\<close>

section \<open>State\<close>

text \<open>
  \<open>sent\<close> is not a variable of the program: it is the list of requests handed to \<^verbatim>\<open>HG_Forward\<close>, with
  the rank of the server each went to. \<open>init_mutex\<close> tells whether the mutex is held.
\<close>

record client =
  fd_map :: "int \<rightharpoonup> path"
  fd_redir_map :: "int \<rightharpoonup> int"
  timeout_counters :: "int list"
  g_ftc_server_count :: int
  ftc_data_dir :: "string option"
  g_disable_redirect :: bool
  tl_disable_redirect :: bool
  g_ftc_initialized :: bool
  g_mercury_init :: bool
  init_mutex :: bool
  address_cache :: "int \<rightharpoonup> string"
  my_address :: "string hg_addr"
  client_address :: "char list"
  client_rank :: int
  client_logs :: logs
  sent :: "(int \<times> rpc_request) list"

text \<open>
  The environment: \<^verbatim>\<open>getenv\<close>, \<^verbatim>\<open>std::hash\<close>, the log files, the text files of the working
  directory, \<^verbatim>\<open>HG_Addr_lookup2\<close>, \<^verbatim>\<open>HG_Addr_to_string\<close> and the process's own address.
\<close>

record client_env =
  ce_getenv :: "string \<Rightarrow> string option"
  ce_hash :: "string \<Rightarrow> int"
  ce_log :: log_env
  ce_files :: "path \<rightharpoonup> string"
  ce_lookup2 :: "string \<Rightarrow> string option"
  ce_addr_string :: "string hg_addr \<Rightarrow> string"
  ce_self_addr :: string

text \<open>What Mercury's functions return during one request, and the clock.\<close>

record hg_send =
  create_ret :: int
  send_info_ok :: bool
  send_bulk_ret :: int
  send_bulk_handle :: nat
  forward_ret :: int
  free_addr_ret :: int
  send_clock :: "int \<times> int"

definition client_log :: "client_env \<Rightarrow> log_info \<Rightarrow> client \<Rightarrow> client res" where
  "client_log env i c =
     andThen (logging_info (ce_log env) i ''client'' (client_logs c)) (\<lambda>L.
     Inr (c\<lparr>client_logs := L\<rparr>))"

section \<open>Addresses\<close>

definition lookup_addr :: "client_env \<Rightarrow> int \<Rightarrow> client \<Rightarrow> (string hg_addr \<times> client) res" where
  "lookup_addr env rank c =
     andThen (ftc_client_comm_lookup_addr (ce_lookup2 env) (ce_getenv env ''MY_JOBID'')
                (ce_files env) (wrap32 rank) (address_cache c)) (\<lambda>(a, cache).
     Inr (a, c\<lparr>address_cache := cache\<rparr>))"

definition ftc_get_addr :: "client_env \<Rightarrow> client \<Rightarrow> client res" where
  "ftc_get_addr env c =
     (if my_address c \<noteq> HG_ADDR_NULL then Inr c
      else
        (let addr_buffer = ce_self_addr env;
             c1 = c\<lparr>my_address := (case ce_lookup2 env addr_buffer of
                                      None \<Rightarrow> HG_ADDR_NULL | Some a \<Rightarrow> HG_ADDR a)\<rparr>
         in andThen (extract_ip_portion addr_buffer (client_address c1) (length (client_address c1)))
              (\<lambda>b.
            Inr (c1\<lparr>client_address := b,
                    client_rank := (case ce_getenv env ''HOROVOD_RANK'' of
                                      None \<Rightarrow> -1 | Some r \<Rightarrow> atoi r)\<rparr>))))"

text \<open>Whether a server runs on the client's node.\<close>

definition server_flag :: "client_env \<Rightarrow> string hg_addr \<Rightarrow> client \<Rightarrow> int res" where
  "server_flag env svr_addr c =
     andThen (extract_ip_portion (ce_addr_string env svr_addr) (replicate 128 NUL) 128)
       (\<lambda>server_ip. strcmp_flag (client_address c) server_ip)"

definition request_log ::
  "char list \<Rightarrow> string \<Rightarrow> string \<Rightarrow> int \<Rightarrow> int \<Rightarrow> int \<Rightarrow> int \<times> int \<Rightarrow> client \<Rightarrow> log_info" where
  "request_log fp req ex fl host epoch clk c =
     \<lparr>filepath = fp, request = strncpy_array 256 req, flag = fl,
      log_client_rank = client_rank c, log_server_rank = wrap32 host,
      expn = strncpy_array 256 ex, n_epoch = epoch, n_batch = -1, clocktime = clk\<rparr>"

definition local_fd_name :: "int \<Rightarrow> char list" where
  "local_fd_name fd = cstr_array 256 (''fd_'' @ show_int fd)"

text \<open>
  A request begins with a handle and ends with forwarding it and freeing the address; each of these
  calls of Mercury is asserted to succeed.
\<close>

definition ftc_comm_create_handle :: "hg_send \<Rightarrow> unit res" where
  [simp]: "ftc_comm_create_handle hs = assert_that (create_ret hs = 0)"

definition ftc_comm_free_addr :: "hg_send \<Rightarrow> unit res" where
  [simp]: "ftc_comm_free_addr hs = assert_that (free_addr_ret hs = 0)"

definition hg_forward :: "hg_send \<Rightarrow> int \<Rightarrow> rpc_request \<Rightarrow> client \<Rightarrow> client res" where
  "hg_forward hs host req c =
     andThen (assert_that (forward_ret hs = 0)) (\<lambda>_. Inr (c\<lparr>sent := sent c @ [(host, req)]\<rparr>))"

section \<open>Requests\<close>

definition ftc_client_comm_gen_open_rpc ::
  "client_env \<Rightarrow> hg_send \<Rightarrow> int \<Rightarrow> path \<Rightarrow> int \<Rightarrow> client \<Rightarrow> client res" where
  "ftc_client_comm_gen_open_rpc env hs svr_hash p fd c =
     andThen (lookup_addr env svr_hash c) (\<lambda>(svr_addr, c1).
     andThen (ftc_comm_create_handle hs) (\<lambda>_.
     let inp = \<lparr>open_path = p, open_client_rank = wrap32 (client_rank c1),
                open_localfd = wrap32 fd\<rparr>
     in andThen (server_flag env svr_addr c1) (\<lambda>fl.
        andThen (client_log env (request_log (strncpy_array 256 p) ''open'' ''CRequest'' fl
                   svr_hash fd (send_clock hs) c1) c1) (\<lambda>c2.
        andThen (hg_forward hs svr_hash (Open_Req inp) c2) (\<lambda>c3.
        andThen (ftc_comm_free_addr hs) (\<lambda>_. Inr c3))))))"

definition ftc_client_comm_gen_read_rpc ::
  "client_env \<Rightarrow> hg_send \<Rightarrow> int \<Rightarrow> int \<Rightarrow> bool \<Rightarrow> int \<Rightarrow> int \<Rightarrow> client \<Rightarrow> client res" where
  "ftc_client_comm_gen_read_rpc env hs svr_hash localfd buffer_null count off c =
     andThen (lookup_addr env svr_hash c) (\<lambda>(svr_addr, c1).
     andThen (assert_that (\<not> buffer_null)) (\<lambda>_.
     andThen (ftc_comm_create_handle hs) (\<lambda>_.
     andThen (assert_that (send_info_ok hs)) (\<lambda>_.
     andThen (assert_that (send_bulk_ret hs = 0)) (\<lambda>_.
     let sub = subscript 0 (fd_redir_map c1) localfd;
         c2 = c1\<lparr>fd_redir_map := snd sub\<rparr>;
         inp = mk_rpc_in count (send_bulk_handle hs) (fst sub) localfd off (client_rank c2)
     in andThen (server_flag env svr_addr c2) (\<lambda>fl.
        andThen (client_log env (request_log (local_fd_name localfd) ''read'' ''CRequest'' fl
                   svr_hash (-1) (send_clock hs) c2) c2) (\<lambda>c3.
        andThen (hg_forward hs svr_hash (Read_Req inp) c3) (\<lambda>c4.
        andThen (ftc_comm_free_addr hs) (\<lambda>_. Inr c4)))))))))"

definition ftc_client_comm_gen_close_rpc ::
  "client_env \<Rightarrow> hg_send \<Rightarrow> int \<Rightarrow> int \<Rightarrow> client \<Rightarrow> client res" where
  "ftc_client_comm_gen_close_rpc env hs svr_hash fd c =
     andThen (lookup_addr env svr_hash c) (\<lambda>(svr_addr, c1).
     andThen (ftc_comm_create_handle hs) (\<lambda>_.
     let sub = subscript 0 (fd_redir_map c1) fd;
         c2 = c1\<lparr>fd_redir_map := snd sub\<rparr>;
         inp = \<lparr>close_fd = wrap32 (fst sub), close_client_rank = wrap32 (client_rank c2)\<rparr>
     in andThen (server_flag env svr_addr c2) (\<lambda>fl.
        andThen (client_log env (request_log (local_fd_name fd) ''close'' ''CRequest'' fl
                   svr_hash (-1) (send_clock hs) c2) c2) (\<lambda>c3.
        andThen (hg_forward hs svr_hash (Close_Req inp) c3) (\<lambda>c4.
        let c5 = c4\<lparr>fd_redir_map := (fd_redir_map c4)(fd := None)\<rparr>
        in andThen (ftc_comm_free_addr hs) (\<lambda>_. Inr c5))))))"

definition ftc_client_comm_gen_seek_rpc ::
  "client_env \<Rightarrow> hg_send \<Rightarrow> int \<Rightarrow> int \<Rightarrow> int \<Rightarrow> int \<Rightarrow> client \<Rightarrow> client res" where
  "ftc_client_comm_gen_seek_rpc env hs svr_hash fd off wh c =
     andThen (lookup_addr env svr_hash c) (\<lambda>(svr_addr, c1).
     andThen (ftc_comm_create_handle hs) (\<lambda>_.
     let sub = subscript 0 (fd_redir_map c1) fd;
         c2 = c1\<lparr>fd_redir_map := snd sub\<rparr>
     in andThen (hg_forward hs svr_hash (Seek_Req (mk_seek_in (fst sub) off wh)) c2) (\<lambda>c3.
        andThen (ftc_comm_free_addr hs) (\<lambda>_. Inr c3))))"

section \<open>Callbacks and waits\<close>

text \<open>
  What can happen while a thread waits on its condition variable: bulk data arrives in its
  buffer, the callback runs (with Mercury's result for the request, the result of
  \<^verbatim>\<open>HG_Get_output\<close> and the decoded field), the wait returns without either, or the deadline
  passes. \<open>Tie\<close> is a callback that takes the mutex after the deadline has passed and before the
  waiting thread has it back: the wait then reports the deadline, and the loop does not look at
  the flag again. The list ends where nothing more ever happens.
\<close>

datatype rpc_event =
    Push "byte list"
  | Callback int int int
  | Tie int int int
  | Spurious
  | Deadline

text \<open>
  \<open>peer\<close> is the address of the server as the callback sees it, \<open>None\<close> when \<^verbatim>\<open>HG_Get_info\<close> fails;
  then the logged flag is whatever the variable held, \<open>junk\<close>.
\<close>

definition callback_log ::
  "client_env \<Rightarrow> string hg_addr option \<Rightarrow> int \<Rightarrow> char list \<Rightarrow> string \<Rightarrow> int \<Rightarrow> int \<Rightarrow> int \<times> int \<Rightarrow>
   client \<Rightarrow> client res" where
  "callback_log env peer junk fp req host epoch clk c =
     andThen (case peer of None \<Rightarrow> Inr junk | Some a \<Rightarrow> server_flag env a c) (\<lambda>fl.
     client_log env (request_log fp req ''CReceive'' fl host epoch clk c) c)"

record cb_call =
  cb_peer :: "string hg_addr option"
  cb_junk :: int
  cb_free_ret :: int
  cb_clock :: "int \<times> int"

definition ftc_open_cb ::
  "client_env \<Rightarrow> cb_call \<Rightarrow> int \<Rightarrow> path \<Rightarrow> int \<Rightarrow> int \<Rightarrow> int \<Rightarrow> client \<Rightarrow> client res" where
  "ftc_open_cb env cb svr_hash p local_fd info_ret ret_status c =
     andThen (assert_that (info_ret = 0)) (\<lambda>_.
     callback_log env (cb_peer cb) (cb_junk cb) (strncpy_array 256 (take 255 p)) ''open'' svr_hash
       (wrap32 local_fd) (cb_clock cb)
       (c\<lparr>fd_redir_map := (fd_redir_map c)(wrap32 local_fd \<mapsto> ret_status)\<rparr>))"

text \<open>
  The read callback stores the answer in the caller's \<^verbatim>\<open>bytes_read\<close>; the assertion at its start
  comes before the branch for a failed request.
\<close>

definition ftc_read_cb ::
  "client_env \<Rightarrow> cb_call \<Rightarrow> int \<Rightarrow> int \<Rightarrow> int \<Rightarrow> int \<Rightarrow> int \<Rightarrow> int \<times> client \<Rightarrow> (int \<times> client) res" where
  "ftc_read_cb env cb svr_hash local_fd info_ret output_ret out_val s =
     andThen (assert_that (info_ret = 0)) (\<lambda>_.
     andThen (if output_ret \<noteq> 0 then Inr (fst s)
              else andThen (assert_that (cb_free_ret cb = 0)) (\<lambda>_. Inr out_val)) (\<lambda>bytes_read.
     andThen (callback_log env (cb_peer cb) (cb_junk cb) (local_fd_name local_fd) ''read'' svr_hash
                (-1) (cb_clock cb) (snd s)) (\<lambda>c1.
     andThen (assert_that (cb_free_ret cb = 0)) (\<lambda>_. Inr (bytes_read, c1)))))"

text \<open>
  The loop around \<^verbatim>\<open>pthread_cond_timedwait\<close>: \<open>True\<close> when the callback set the flag, \<open>False\<close> when
  the deadline came first.
\<close>

fun await ::
  "(byte list \<Rightarrow> 's \<Rightarrow> 's) \<Rightarrow> (int \<Rightarrow> int \<Rightarrow> int \<Rightarrow> 's \<Rightarrow> 's res) \<Rightarrow> rpc_event list \<Rightarrow> 's \<Rightarrow>
   (bool \<times> 's) res" where
  "await push cb [] s = Inl Never_Returns"
| "await push cb (Push bs # es) s = await push cb es (push bs s)"
| "await push cb (Callback i r v # es) s = andThen (cb i r v s) (\<lambda>s'. Inr (True, s'))"
| "await push cb (Tie i r v # es) s = andThen (cb i r v s) (\<lambda>s'. Inr (False, s'))"
| "await push cb (Spurious # es) s = await push cb es s"
| "await push cb (Deadline # es) s = Inr (False, s)"

text \<open>\<^verbatim>\<open>timeout_counters[host]++\<close> under \<^verbatim>\<open>timeout_mutex\<close>.\<close>

definition count_timeout :: "int \<Rightarrow> client \<Rightarrow> client res" where
  "count_timeout host c =
     (if 0 \<le> host \<and> nat host < length (timeout_counters c)
      then Inr (c\<lparr>timeout_counters :=
                 (timeout_counters c)[nat host := timeout_counters c ! nat host + 1]\<rparr>)
      else Inl Vector_Range)"

definition ftc_client_block ::
  "int \<Rightarrow> (int \<Rightarrow> int \<Rightarrow> int \<Rightarrow> client \<Rightarrow> client res) \<Rightarrow> rpc_event list \<Rightarrow> client \<Rightarrow> client res" where
  "ftc_client_block host cb evs c =
     andThen (await (\<lambda>bs s. s) cb evs c) (\<lambda>(done, c1).
     if done then Inr c1 else count_timeout host c1)"

text \<open>The read's wait: the caller's buffer and \<^verbatim>\<open>bytes_read\<close> are part of the state.\<close>

definition ftc_read_block ::
  "int \<Rightarrow> (int \<Rightarrow> int \<Rightarrow> int \<Rightarrow> int \<times> client \<Rightarrow> (int \<times> client) res) \<Rightarrow> rpc_event list \<Rightarrow>
   byte list \<Rightarrow> int \<Rightarrow> client \<Rightarrow> (int \<times> byte list \<times> client) res" where
  "ftc_read_block host cb evs buf bytes_read c =
     andThen (await (\<lambda>bs (b, s). (store_bytes b bs, s))
                (\<lambda>i r v (b, s). andThen (cb i r v s) (\<lambda>s'. Inr (b, s')))
                evs (buf, bytes_read, c)) (\<lambda>(done, b, res, c1).
     if done then Inr (res, b, c1)
     else andThen (count_timeout host c1) (\<lambda>c2. Inr (-1, b, c2)))"

text \<open>
  The seek's callback and wait share two global variables, \<open>done\<close> (one byte, which the callback
  increments) and \<open>read_ret\<close>. The wait has no deadline and ends when \<open>done\<close> is exactly \<^verbatim>\<open>HG_TRUE\<close>.
\<close>

definition ftc_seek_cb :: "int \<Rightarrow> int \<times> int \<Rightarrow> int \<times> int" where
  "ftc_seek_cb out_ret s = ((fst s + 1) mod 256, out_ret)"

fun ftc_seek_block :: "rpc_event list \<Rightarrow> int \<times> int \<Rightarrow> int res" where
  "ftc_seek_block [] (dn, read_ret) = (if dn = 1 then Inr read_ret else Inl Never_Returns)"
| "ftc_seek_block (e # es) (dn, read_ret) =
     (if dn = 1 then Inr read_ret
      else
        (case e of
           Callback i r v \<Rightarrow> ftc_seek_block es (ftc_seek_cb v (dn, read_ret))
         | _ \<Rightarrow> ftc_seek_block es (dn, read_ret)))"

section \<open>What the requests change\<close>

text \<open>The components of the state the RPC layer never writes.\<close>

definition rpc_frame :: "client \<Rightarrow> client \<Rightarrow> bool" where
  "rpc_frame c c' \<longleftrightarrow> fd_map c' = fd_map c \<and> g_ftc_server_count c' = g_ftc_server_count c \<and>
     ftc_data_dir c' = ftc_data_dir c \<and> g_disable_redirect c' = g_disable_redirect c \<and>
     tl_disable_redirect c' = tl_disable_redirect c \<and>
     g_ftc_initialized c' = g_ftc_initialized c \<and> g_mercury_init c' = g_mercury_init c \<and>
     init_mutex c' = init_mutex c \<and> my_address c' = my_address c \<and>
     client_address c' = client_address c \<and> client_rank c' = client_rank c"

lemma rpc_frame_refl [simp]: "rpc_frame c c"
  by (simp add: rpc_frame_def)

lemma rpc_frame_trans: "rpc_frame a b \<Longrightarrow> rpc_frame b c \<Longrightarrow> rpc_frame a c"
  by (simp add: rpc_frame_def)

text \<open>\<open>quiet_step\<close>: such a step that also sends nothing and counts nothing.\<close>

definition quiet_step :: "client \<Rightarrow> client \<Rightarrow> bool" where
  "quiet_step c c' \<longleftrightarrow> rpc_frame c c' \<and> sent c' = sent c \<and> timeout_counters c' = timeout_counters c"

lemma quiet_step_refl [simp]: "quiet_step c c"
  by (simp add: quiet_step_def)

lemma quiet_step_trans: "quiet_step a b \<Longrightarrow> quiet_step b c \<Longrightarrow> quiet_step a c"
  by (auto simp: quiet_step_def intro: rpc_frame_trans)

lemma lookup_addr_quiet [rpc_effects]: "lookup_addr env r c = Inr (a, c') \<Longrightarrow> quiet_step c c' \<and> fd_redir_map c' = fd_redir_map c"
  by (auto simp: lookup_addr_def andThen_iffs quiet_step_def rpc_frame_def)

lemma client_log_quiet [rpc_effects]: "client_log env i c = Inr c' \<Longrightarrow> quiet_step c c' \<and> fd_redir_map c' = fd_redir_map c"
  by (auto simp: client_log_def andThen_iffs quiet_step_def rpc_frame_def)

lemma hg_forward_sent [rpc_effects]:
  "hg_forward hs h r c = Inr c' \<Longrightarrow>
   rpc_frame c c' \<and> sent c' = sent c @ [(h, r)] \<and> timeout_counters c' = timeout_counters c \<and>
   fd_redir_map c' = fd_redir_map c"
  by (auto simp: hg_forward_def andThen_iffs rpc_frame_def)

text \<open>Each request function forwards exactly one request, to the server it was given.\<close>

lemma gen_open_sent:
  assumes "ftc_client_comm_gen_open_rpc env hs h p fd c = Inr c'"
  shows "rpc_frame c c' \<and> timeout_counters c' = timeout_counters c \<and>
    fd_redir_map c' = fd_redir_map c \<and>
    sent c' = sent c @ [(h, Open_Req \<lparr>open_path = p, open_client_rank = wrap32 (client_rank c),
                                     open_localfd = wrap32 fd\<rparr>)]"
  using assms
  by (auto simp: ftc_client_comm_gen_open_rpc_def andThen_iffs Let_def quiet_step_def
      dest!: rpc_effects intro: rpc_frame_trans)
    (auto simp: rpc_frame_def)

lemma gen_read_sent:
  assumes "ftc_client_comm_gen_read_rpc env hs h fd nul count off c = Inr c'"
  shows "rpc_frame c c' \<and> timeout_counters c' = timeout_counters c \<and>
    fd_redir_map c' = snd (subscript 0 (fd_redir_map c) fd) \<and>
    sent c' = sent c @ [(h, Read_Req (mk_rpc_in count (send_bulk_handle hs)
      (fst (subscript 0 (fd_redir_map c) fd)) fd off (client_rank c)))]"
  using assms
  by (auto simp: ftc_client_comm_gen_read_rpc_def andThen_iffs Let_def quiet_step_def rpc_frame_def
      dest!: rpc_effects)

lemma gen_close_sent:
  assumes "ftc_client_comm_gen_close_rpc env hs h fd c = Inr c'"
  shows "rpc_frame c c' \<and> timeout_counters c' = timeout_counters c \<and>
    fd_redir_map c' = (fd_redir_map c)(fd := None) \<and>
    sent c' = sent c @ [(h, Close_Req
      \<lparr>close_fd = wrap32 (fst (subscript 0 (fd_redir_map c) fd)),
       close_client_rank = wrap32 (client_rank c)\<rparr>)]"
  using assms subscript_map [of 0 "fd_redir_map c" fd]
  by (auto simp: ftc_client_comm_gen_close_rpc_def andThen_iffs Let_def quiet_step_def rpc_frame_def
      dest!: rpc_effects)

lemma gen_seek_sent:
  assumes "ftc_client_comm_gen_seek_rpc env hs h fd off wh c = Inr c'"
  shows "rpc_frame c c' \<and> timeout_counters c' = timeout_counters c \<and>
    fd_redir_map c' = snd (subscript 0 (fd_redir_map c) fd) \<and>
    sent c' = sent c @ [(h, Seek_Req (mk_seek_in (fst (subscript 0 (fd_redir_map c) fd)) off wh))]"
  using assms
  by (auto simp: ftc_client_comm_gen_seek_rpc_def andThen_iffs Let_def quiet_step_def rpc_frame_def
      dest!: rpc_effects)

lemma callback_log_quiet:
  "callback_log env peer junk fp req h ep clk c = Inr c' \<Longrightarrow>
   quiet_step c c' \<and> fd_redir_map c' = fd_redir_map c"
  by (auto simp: callback_log_def andThen_iffs dest: client_log_quiet)

lemma open_cb_effect:
  "ftc_open_cb env cb h p fd i r c = Inr c' \<Longrightarrow>
   quiet_step c c' \<and> i = 0 \<and> fd_redir_map c' = (fd_redir_map c)(wrap32 fd \<mapsto> r)"
  by (auto simp: ftc_open_cb_def andThen_iffs quiet_step_def rpc_frame_def
      dest!: callback_log_quiet)

lemma read_cb_effect:
  "ftc_read_cb env cb h fd i r v (b, c) = Inr (b', c') \<Longrightarrow>
   quiet_step c c' \<and> fd_redir_map c' = fd_redir_map c \<and> i = 0 \<and> b' = (if r = 0 then v else b)"
  by (auto simp: ftc_read_cb_def andThen_iffs dest!: callback_log_quiet split: if_splits)

section \<open>The waits\<close>

text \<open>
  The bytes that arrive before the wait ends, and how it ends: with the first callback, with
  the deadline, or not at all.
\<close>

fun pushed_before :: "rpc_event list \<Rightarrow> byte list list" where
  "pushed_before (Push bs # es) = bs # pushed_before es"
| "pushed_before (Spurious # es) = pushed_before es"
| "pushed_before es = []"

datatype wait_end = Answered int int int | Tied int int int | Timed_Out | Blocked

fun wait_ends :: "rpc_event list \<Rightarrow> wait_end" where
  "wait_ends [] = Blocked"
| "wait_ends (Push bs # es) = wait_ends es"
| "wait_ends (Callback i r v # es) = Answered i r v"
| "wait_ends (Tie i r v # es) = Tied i r v"
| "wait_ends (Spurious # es) = wait_ends es"
| "wait_ends (Deadline # es) = Timed_Out"

lemma await_eq:
  "await push cb es s =
     (let s1 = fold push (pushed_before es) s
      in case wait_ends es of
           Blocked \<Rightarrow> Inl Never_Returns
         | Timed_Out \<Rightarrow> Inr (False, s1)
         | Tied i r v \<Rightarrow> andThen (cb i r v s1) (\<lambda>s'. Inr (False, s'))
         | Answered i r v \<Rightarrow> andThen (cb i r v s1) (\<lambda>s'. Inr (True, s')))"
  by (induction push cb es s rule: await.induct) simp_all

text \<open>A deadline among the events ends the wait.\<close>

lemma wait_ends_not_blocked:
  "wait_ends es = Blocked \<longleftrightarrow> (\<forall>e \<in> set es. e = Spurious \<or> (\<exists>bs. e = Push bs))"
  by (induction es rule: wait_ends.induct) auto

lemma fold_const: "fold (\<lambda>bs s. s) xs s = s"
  by (induction xs) auto

lemma fold_pair_push: "fold (\<lambda>bs (b, s). (f b bs, s)) xs (b, s) = (fold (\<lambda>bs b. f b bs) xs b, s)"
  by (induction xs arbitrary: b) auto

text \<open>The buffer after the pushes that arrive before the wait ends.\<close>

definition received :: "byte list \<Rightarrow> rpc_event list \<Rightarrow> byte list" where
  "received buf es = fold (\<lambda>bs b. store_bytes b bs) (pushed_before es) buf"

lemma client_block_eq:
  "ftc_client_block host cb es c =
     (case wait_ends es of
        Blocked \<Rightarrow> Inl Never_Returns
      | Timed_Out \<Rightarrow> count_timeout host c
      | Tied i r v \<Rightarrow> andThen (cb i r v c) (count_timeout host)
      | Answered i r v \<Rightarrow> cb i r v c)"
  by (auto simp: ftc_client_block_def await_eq fold_const andThen_def Let_def
      split: wait_end.splits sum.splits)

lemma read_block_eq:
  "ftc_read_block host cb es buf br c =
     (case wait_ends es of
        Blocked \<Rightarrow> Inl Never_Returns
      | Timed_Out \<Rightarrow> andThen (count_timeout host c) (\<lambda>c2. Inr (-1, received buf es, c2))
      | Tied i r v \<Rightarrow>
          andThen (cb i r v (br, c)) (\<lambda>(res, c1).
          andThen (count_timeout host c1) (\<lambda>c2. Inr (-1, received buf es, c2)))
      | Answered i r v \<Rightarrow>
          andThen (cb i r v (br, c)) (\<lambda>(res, c1). Inr (res, received buf es, c1)))"
  by (auto simp: ftc_read_block_def await_eq fold_pair_push received_def andThen_def Let_def
      split: wait_end.splits sum.splits)

lemma count_timeout_effect:
  assumes "count_timeout h c = Inr c'"
  shows "0 \<le> h \<and> nat h < length (timeout_counters c) \<and> rpc_frame c c' \<and> sent c' = sent c \<and>
    fd_redir_map c' = fd_redir_map c \<and>
    timeout_counters c' = (timeout_counters c)[nat h := timeout_counters c ! nat h + 1]"
  using assms by (auto simp: count_timeout_def rpc_frame_def split: if_splits)

end
