(* ===== verification/Client_Cache.thy ===== *)
theory Client_Cache
  imports Client_Rpc Posix_Files
begin

unbundle bit_operations_syntax

text \<open>
  The client side of the cache (ftc_client.cpp): initialisation, the decision to track a file,
  the remote operations on tracked files with the per-host timeout counters, and the map from
  descriptors to paths. The lemmas give the invariant of the counters, the branches of every
  operation and which requests each one sends.
\<close>

section \<open>Initialisation\<close>

definition TIMEOUT_LIMIT :: int where
  "TIMEOUT_LIMIT = 3"

text \<open>\<^verbatim>\<open>timeout_counters.resize(num_nodes, 0)\<close>; a negative count is a huge size.\<close>

definition initialize_timeout_counters :: "int \<Rightarrow> client \<Rightarrow> client res" where
  "initialize_timeout_counters num_nodes c =
     (if num_nodes < 0 then Inl Length_Error
      else (let n = nat num_nodes; old = timeout_counters c
            in Inr (c\<lparr>timeout_counters := take n old @ replicate (n - length old) 0\<rparr>)))"

text \<open>
  The constructor of the library. Taking a mutex the thread already holds blocks for ever; the
  branch for a missing \<^verbatim>\<open>FT_Cache_SERVER_COUNT\<close> returns with the mutex held.
\<close>

definition ftc_client_init :: "client_env \<Rightarrow> client \<Rightarrow> client res" where
  "ftc_client_init env c =
     (if init_mutex c then Inl Never_Returns
      else if g_ftc_initialized c then Inr c
      else
        (let c0 = c\<lparr>init_mutex := True\<rparr>
         in case ce_getenv env ''FT_Cache_SERVER_COUNT'' of
              None \<Rightarrow> Inr c0
            | Some v \<Rightarrow>
                (let c1 = c0\<lparr>g_ftc_server_count := uwrap32 (atoi v)\<rparr>;
                     c2 = (case ce_getenv env ''FT_Cache_DATA_DIR'' of
                             None \<Rightarrow> c1 | Some d \<Rightarrow> c1\<lparr>ftc_data_dir := Some d\<rparr>)
                 in andThen (initialize_timeout_counters (wrap32 (g_ftc_server_count c2)) c2) (\<lambda>c3.
                    andThen (ftc_get_addr env (c3\<lparr>g_ftc_initialized := True\<rparr>)) (\<lambda>c4.
                    Inr (c4\<lparr>init_mutex := False, g_disable_redirect := False\<rparr>))))))"

section \<open>Tracking\<close>

definition ftc_file_tracked :: "client \<Rightarrow> int \<Rightarrow> bool" where
  "ftc_file_tracked c fd = (if fd_map c = Map.empty then False else fd_map c fd \<noteq> None)"

definition ftc_get_path :: "client \<Rightarrow> int \<Rightarrow> path option" where
  "ftc_get_path c fd = (if fd_map c = Map.empty then None else fd_map c fd)"

text \<open>\<^verbatim>\<open>std::hash<std::string>{}(path) % g_ftc_server_count\<close>, stored in an \<^verbatim>\<open>int\<close>.\<close>

definition select_host :: "(string \<Rightarrow> int) \<Rightarrow> int \<Rightarrow> path \<Rightarrow> int res" where
  "select_host h server_count p =
     (if server_count = 0 then Inl Div_Zero else Inr (wrap32 (uwrap64 (h p) mod server_count)))"

text \<open>\<^verbatim>\<open>timeout_counters[host] >= TIMEOUT_LIMIT\<close>\<close>

definition limit_reached :: "client \<Rightarrow> int \<Rightarrow> bool res" where
  "limit_reached c host =
     (if 0 \<le> host \<and> nat host < length (timeout_counters c)
      then Inr (timeout_counters c ! nat host \<ge> TIMEOUT_LIMIT) else Inl Vector_Range)"

text \<open>
  The \<^verbatim>\<open>try\<close> block: the canonical path when the file is to be tracked. \<open>None\<close> covers the
  exceptions, which are swallowed.
\<close>

definition tracked_path ::
  "(path \<Rightarrow> path option) \<Rightarrow> path \<Rightarrow> string option \<Rightarrow> path \<Rightarrow> path option" where
  "tracked_path canonical current_path data_dir p =
     (case canonical p of
        None \<Rightarrow> None
      | Some cp \<Rightarrow>
          (let ppath = parent_of cp
           in case data_dir of
                Some dir \<Rightarrow>
                  (case canonical dir of
                     None \<Rightarrow> None
                   | Some test \<Rightarrow> if contains test ppath then Some cp else None)
              | None \<Rightarrow> if ppath = current_path then Some cp else None))"

text \<open>The first use of a tracked file starts Mercury.\<close>

definition start_mercury :: "client_env \<Rightarrow> client \<Rightarrow> client res" where
  "start_mercury env c =
     (if g_mercury_init c then Inr c
      else
        andThen (initialize_timeout_counters (wrap32 (g_ftc_server_count c))
                   (c\<lparr>g_mercury_init := True\<rparr>)) (\<lambda>c1.
        case ce_getenv env ''HOROVOD_RANK'' of
          None \<Rightarrow> Inl Null_Arg
        | Some rank_str \<Rightarrow>
            andThen (initialize_log (ce_log env) (atoi rank_str) ''client'' (client_logs c1)) (\<lambda>L.
            ftc_get_addr env (c1\<lparr>client_logs := L\<rparr>))))"

definition ftc_track_file ::
  "(path \<Rightarrow> path option) \<Rightarrow> path \<Rightarrow> client_env \<Rightarrow> hg_send \<Rightarrow> cb_call \<Rightarrow> rpc_event list \<Rightarrow> path \<Rightarrow>
   int \<Rightarrow> int \<Rightarrow> client \<Rightarrow> (bool \<times> client) res" where
  "ftc_track_file canonical current_path env hs cb evs p flags fd c =
     (if contains ''.ports.cfg.'' p then Inr (False, c)
      else if flags AND O_ACCMODE = O_WRONLY then Inr (False, c)
      else if flags AND O_APPEND \<noteq> 0 then Inr (False, c)
      else
        (case tracked_path canonical current_path (ftc_data_dir c) p of
           None \<Rightarrow> Inr (False, c)
         | Some cp \<Rightarrow>
             andThen (start_mercury env (c\<lparr>fd_map := (fd_map c)(fd \<mapsto> cp)\<rparr>)) (\<lambda>c1.
             andThen (select_host (ce_hash env) (g_ftc_server_count c1) cp) (\<lambda>host.
             andThen (limit_reached c1 host) (\<lambda>skip.
             if skip then Inr (False, c1)
             else
               andThen (ftc_client_comm_gen_open_rpc env hs (uwrap32 host) cp fd c1) (\<lambda>c2.
               andThen (ftc_client_block (uwrap32 host)
                          (\<lambda>i r v s. ftc_open_cb env cb (uwrap32 host) cp fd i v s) evs c2) (\<lambda>c3.
               Inr (True, c3))))))))"

section \<open>Remote operations\<close>

text \<open>
  \<open>ftc_remote_read\<close> and \<open>ftc_remote_pread\<close> differ in the offset they send: \<open>-1\<close> stands for the
  descriptor's own offset on the server.
\<close>

definition remote_read_at ::
  "client_env \<Rightarrow> hg_send \<Rightarrow> cb_call \<Rightarrow> rpc_event list \<Rightarrow> int \<Rightarrow> bool \<Rightarrow> byte list \<Rightarrow> int \<Rightarrow> int \<Rightarrow>
   client \<Rightarrow> (int \<times> byte list \<times> client) res" where
  "remote_read_at env hs cb evs fd buf_null buf count off c =
     (if ftc_file_tracked c fd
      then
        andThen (select_host (ce_hash env) (g_ftc_server_count c) (the (fd_map c fd))) (\<lambda>host.
        andThen (limit_reached c host) (\<lambda>skip.
        if skip then Inr (-1, buf, c)
        else
          andThen (ftc_client_comm_gen_read_rpc env hs (uwrap32 host) fd buf_null (wrap64 count) off c)
            (\<lambda>c1.
          ftc_read_block (uwrap32 host) (ftc_read_cb env cb (uwrap32 host) fd) evs buf (-1) c1)))
      else Inr (-1, buf, c))"

definition ftc_remote_read ::
  "client_env \<Rightarrow> hg_send \<Rightarrow> cb_call \<Rightarrow> rpc_event list \<Rightarrow> int \<Rightarrow> bool \<Rightarrow> byte list \<Rightarrow> int \<Rightarrow>
   client \<Rightarrow> (int \<times> byte list \<times> client) res" where
  "ftc_remote_read env hs cb evs fd buf_null buf count c =
     remote_read_at env hs cb evs fd buf_null buf count (-1) c"

definition ftc_remote_pread ::
  "client_env \<Rightarrow> hg_send \<Rightarrow> cb_call \<Rightarrow> rpc_event list \<Rightarrow> int \<Rightarrow> bool \<Rightarrow> byte list \<Rightarrow> int \<Rightarrow> int \<Rightarrow>
   client \<Rightarrow> (int \<times> byte list \<times> client) res" where
  "ftc_remote_pread env hs cb evs fd buf_null buf count off c =
     remote_read_at env hs cb evs fd buf_null buf count off c"

text \<open>The remote seek consults no timeout counter, and its wait has no deadline.\<close>

definition ftc_remote_lseek ::
  "client_env \<Rightarrow> hg_send \<Rightarrow> rpc_event list \<Rightarrow> int \<Rightarrow> int \<Rightarrow> int \<Rightarrow> client \<Rightarrow> (int \<times> client) res" where
  "ftc_remote_lseek env hs evs fd off wh c =
     (if ftc_file_tracked c fd
      then
        andThen (select_host (ce_hash env) (g_ftc_server_count c) (the (fd_map c fd))) (\<lambda>host.
        andThen (ftc_client_comm_gen_seek_rpc env hs (uwrap32 host) fd off wh c) (\<lambda>c1.
        andThen (ftc_seek_block evs (0, -1)) (\<lambda>r. Inr (r, c1))))
      else Inr (-1, c))"

definition ftc_remote_close :: "client_env \<Rightarrow> hg_send \<Rightarrow> int \<Rightarrow> client \<Rightarrow> client res" where
  "ftc_remote_close env hs fd c =
     (if ftc_file_tracked c fd
      then
        andThen (select_host (ce_hash env) (g_ftc_server_count c) (the (fd_map c fd))) (\<lambda>host.
        andThen (limit_reached c host) (\<lambda>skip.
        if skip then Inr c
        else ftc_client_comm_gen_close_rpc env hs (uwrap32 host) fd c))
      else Inr c)"

definition ftc_remove_fd :: "client_env \<Rightarrow> hg_send \<Rightarrow> int \<Rightarrow> client \<Rightarrow> (bool \<times> client) res" where
  "ftc_remove_fd env hs fd c =
     (if fd_map c = Map.empty then Inr (False, c)
      else andThen (ftc_remote_close env hs fd c) (\<lambda>c1.
           Inr (fd_map c1 fd \<noteq> None, c1\<lparr>fd_map := (fd_map c1)(fd := None)\<rparr>)))"

section \<open>Lookups\<close>

lemma ftc_file_tracked_iff: "ftc_file_tracked c fd \<longleftrightarrow> fd_map c fd \<noteq> None"
  by (auto simp: ftc_file_tracked_def)

lemma ftc_get_path_eq: "ftc_get_path c fd = fd_map c fd"
  by (auto simp: ftc_get_path_def)

text \<open>What \<open>tracked_path\<close> accepts.\<close>

lemma tracked_path_Some:
  "tracked_path canon cwd dd p = Some cp \<longleftrightarrow>
     canon p = Some cp \<and>
     (case dd of
        None \<Rightarrow> parent_of cp = cwd
      | Some dir \<Rightarrow> \<exists>t a b. canon dir = Some t \<and> parent_of cp = a @ t @ b)"
  by (auto simp: tracked_path_def Let_def contains_iff split: option.splits)

lemma select_host_range:
  assumes "0 < n" and "n \<le> 2147483648"
  shows "\<exists>h. select_host f n p = Inr h \<and> 0 \<le> h \<and> h < n"
proof -
  let ?r = "uwrap64 (f p) mod n"
  have "0 \<le> ?r" "?r < n" using assms(1) by simp_all
  moreover from this assms(2) have "wrap32 ?r = ?r" by simp
  ultimately show ?thesis using assms(1) by (simp add: select_host_def)
qed

section \<open>The counters\<close>

text \<open>
  One counter per server, none negative and none above the limit: a host is only contacted, and
  so can only time out, while its counter is below it.
\<close>

definition counters_ok :: "client \<Rightarrow> bool" where
  "counters_ok c \<longleftrightarrow> 0 < g_ftc_server_count c \<and> g_ftc_server_count c \<le> 2147483647 \<and>
     int (length (timeout_counters c)) = g_ftc_server_count c \<and>
     (\<forall>n \<in> set (timeout_counters c). 0 \<le> n \<and> n \<le> TIMEOUT_LIMIT)"

lemma counters_ok_same:
  "counters_ok c \<Longrightarrow> timeout_counters c' = timeout_counters c \<Longrightarrow>
   g_ftc_server_count c' = g_ftc_server_count c \<Longrightarrow> counters_ok c'"
  by (simp add: counters_ok_def)

lemma counters_ok_host:
  assumes "counters_ok c"
  obtains h where "select_host f (g_ftc_server_count c) p = Inr h" "0 \<le> h" "h < g_ftc_server_count c"
    "limit_reached c h = Inr (timeout_counters c ! nat h \<ge> TIMEOUT_LIMIT)"
    "uwrap32 h = h"
proof -
  obtain h where h: "select_host f (g_ftc_server_count c) p = Inr h" "0 \<le> h" "h < g_ftc_server_count c"
    using select_host_range [of "g_ftc_server_count c" f p] assms by (auto simp: counters_ok_def)
  moreover have "nat h < length (timeout_counters c)"
    using h assms by (auto simp: counters_ok_def nat_less_iff)
  ultimately show thesis
    using that assms by (simp add: limit_reached_def counters_ok_def)
qed

lemma counters_ok_count:
  assumes "counters_ok c" and "count_timeout h c = Inr c'"
    and "timeout_counters c ! nat h < TIMEOUT_LIMIT"
  shows "counters_ok c'"
  using assms count_timeout_effect [OF assms(2)]
  by (fastforce simp: counters_ok_def rpc_frame_def dest!: subsetD [OF set_update_subset_insert])

section \<open>Which host an operation contacts\<close>

text \<open>
  \<open>contact c c'\<close>: the step sent nothing and counted nothing, or it sent one request to one host
  below the limit and counted at most one timeout, of that host.
\<close>

definition contact :: "client \<Rightarrow> client \<Rightarrow> bool" where
  "contact c c' \<longleftrightarrow> g_ftc_server_count c' = g_ftc_server_count c \<and>
     (sent c' = sent c \<and> timeout_counters c' = timeout_counters c \<or>
      (\<exists>h r. 0 \<le> h \<and> h < g_ftc_server_count c \<and> timeout_counters c ! nat h < TIMEOUT_LIMIT \<and>
         sent c' = sent c @ [(h, r)] \<and>
         (timeout_counters c' = timeout_counters c \<or>
          timeout_counters c' = (timeout_counters c)[nat h := timeout_counters c ! nat h + 1])))"

lemma contact_quiet: "quiet_step c c' \<Longrightarrow> contact c c'"
  by (simp add: contact_def quiet_step_def rpc_frame_def)

lemma contact_maps [simp]:
  "contact c (c'\<lparr>fd_map := m\<rparr>) = contact c c'"
  "contact (c\<lparr>fd_map := m\<rparr>) c' = contact c c'"
  by (simp_all add: contact_def)

lemma contact_counters_ok:
  assumes "counters_ok c" and "contact c c'"
  shows "counters_ok c'"
proof -
  have bump: "\<forall>n \<in> set ((timeout_counters c)[nat h := timeout_counters c ! nat h + 1]). 0 \<le> n \<and> n \<le> TIMEOUT_LIMIT"
    if "0 \<le> h" "h < g_ftc_server_count c" "timeout_counters c ! nat h < TIMEOUT_LIMIT" for h
  proof -
    have "nat h < length (timeout_counters c)"
      using that assms(1) by (auto simp: counters_ok_def nat_less_iff)
    then have "0 \<le> timeout_counters c ! nat h" using assms(1) by (simp add: counters_ok_def)
    with that(3) assms(1) show ?thesis
      using set_update_subset_insert [of "timeout_counters c" "nat h"]
      by (fastforce simp: counters_ok_def)
  qed
  from assms show ?thesis
    unfolding contact_def by (elim conjE disjE exE) (auto simp: counters_ok_def dest!: bump)
qed

text \<open>A full counter stays full.\<close>

lemma contact_limit:
  assumes "counters_ok c" and "contact c c'" and "0 \<le> h" and "h < g_ftc_server_count c"
    and "timeout_counters c ! nat h \<ge> TIMEOUT_LIMIT"
  shows "timeout_counters c' ! nat h \<ge> TIMEOUT_LIMIT \<and>
    (\<exists>new. sent c' = sent c @ new \<and> h \<notin> fst ` set new)"
proof -
  have other: "nat g \<noteq> nat h" if "0 \<le> g" "timeout_counters c ! nat g < TIMEOUT_LIMIT" for g
    using that assms(3,5) by auto
  from assms(2) show ?thesis
    unfolding contact_def
  proof (elim conjE disjE exE)
    fix g r
    assume g: "0 \<le> g" "timeout_counters c ! nat g < TIMEOUT_LIMIT" "sent c' = sent c @ [(g, r)]"
      "timeout_counters c' = (timeout_counters c)[nat g := timeout_counters c ! nat g + 1]"
    from other [OF g(1,2)] g(3,4) assms(5) show ?thesis by auto
  qed (use assms(5) other in auto)
qed

text \<open>The two waits end with at most one timeout of the host that was contacted.\<close>

lemma client_block_contact:
  assumes "ftc_client_block h cb es c = Inr c'"
    and "\<And>i r v d d'. cb i r v d = Inr d' \<Longrightarrow> quiet_step d d'"
  shows "rpc_frame c c' \<and> sent c' = sent c \<and>
    (timeout_counters c' = timeout_counters c \<or>
     timeout_counters c' = (timeout_counters c)[nat h := timeout_counters c ! nat h + 1])"
  using assms(1)
  by (auto simp: client_block_eq andThen_iffs quiet_step_def rpc_frame_def split: wait_end.splits
      dest!: count_timeout_effect assms(2))

lemma read_block_contact:
  assumes "ftc_read_block h cb es buf br c = Inr (res, b, c')"
    and "\<And>i r v x d x' d'. cb i r v (x, d) = Inr (x', d') \<Longrightarrow> quiet_step d d'"
  shows "rpc_frame c c' \<and> sent c' = sent c \<and>
    (timeout_counters c' = timeout_counters c \<or>
     timeout_counters c' = (timeout_counters c)[nat h := timeout_counters c ! nat h + 1])"
  using assms(1)
  by (auto simp: read_block_eq andThen_iffs quiet_step_def rpc_frame_def split: wait_end.splits
      dest!: count_timeout_effect assms(2))

lemma remote_read_contact:
  assumes "counters_ok c" and "remote_read_at env hs cb es fd nul buf count off c = Inr (r, b, c')"
  shows "contact c c' \<and> rpc_frame c c'"
proof (cases "ftc_file_tracked c fd")
  case False
  with assms(2) show ?thesis by (simp add: remote_read_at_def contact_def)
next
  case True
  obtain h where h: "select_host (ce_hash env) (g_ftc_server_count c) (the (fd_map c fd)) = Inr h"
    "0 \<le> h" "h < g_ftc_server_count c" "uwrap32 h = h"
    "limit_reached c h = Inr (timeout_counters c ! nat h \<ge> TIMEOUT_LIMIT)"
    using counters_ok_host [OF assms(1)] by metis
  show ?thesis
  proof (cases "timeout_counters c ! nat h \<ge> TIMEOUT_LIMIT")
    case True
    with \<open>ftc_file_tracked c fd\<close> h assms(2) show ?thesis
      by (simp add: remote_read_at_def contact_def)
  next
    case below: False
    with True h assms(2) obtain c1 where
      c1: "ftc_client_comm_gen_read_rpc env hs h fd nul (wrap64 count) off c = Inr c1"
      "ftc_read_block h (ftc_read_cb env cb h fd) es buf (-1) c1 = Inr (r, b, c')"
      by (auto simp: remote_read_at_def andThen_iffs)
    from gen_read_sent [OF c1(1)] read_block_contact [OF c1(2)] read_cb_effect below h
    show ?thesis unfolding contact_def
      by (fastforce intro: rpc_frame_trans simp: rpc_frame_def)
  qed
qed

lemma remote_close_contact:
  assumes "counters_ok c" and "ftc_remote_close env hs fd c = Inr c'"
  shows "contact c c' \<and> rpc_frame c c'"
proof (cases "ftc_file_tracked c fd")
  case False
  with assms(2) show ?thesis by (simp add: ftc_remote_close_def contact_def)
next
  case True
  obtain h where h: "select_host (ce_hash env) (g_ftc_server_count c) (the (fd_map c fd)) = Inr h"
    "0 \<le> h" "h < g_ftc_server_count c" "uwrap32 h = h"
    "limit_reached c h = Inr (timeout_counters c ! nat h \<ge> TIMEOUT_LIMIT)"
    using counters_ok_host [OF assms(1)] by metis
  with True assms(2) show ?thesis
    by (cases "timeout_counters c ! nat h \<ge> TIMEOUT_LIMIT")
      (auto simp: ftc_remote_close_def contact_def rpc_frame_def dest!: gen_close_sent)
qed

lemma remove_fd_contact:
  assumes "counters_ok c" and "ftc_remove_fd env hs fd c = Inr (b, c')"
  shows "contact c c'"
  using assms contact_quiet [OF quiet_step_refl [of c]]
  by (auto simp: ftc_remove_fd_def andThen_iffs split: if_splits dest!: remote_close_contact)

lemma remote_lseek_effect:
  assumes "ftc_remote_lseek env hs es fd off wh c = Inr (r, c')"
  shows "rpc_frame c c' \<and> timeout_counters c' = timeout_counters c"
  using assms by (auto simp: ftc_remote_lseek_def andThen_iffs split: if_splits dest!: gen_seek_sent)

text \<open>Starting Mercury resizes the counters to the size they have.\<close>

lemma get_addr_effect:
  "ftc_get_addr env c = Inr c' \<Longrightarrow>
   sent c' = sent c \<and> timeout_counters c' = timeout_counters c \<and> fd_map c' = fd_map c \<and>
   fd_redir_map c' = fd_redir_map c \<and> g_ftc_server_count c' = g_ftc_server_count c \<and>
   g_mercury_init c' = g_mercury_init c"
  by (auto simp: ftc_get_addr_def andThen_iffs Let_def split: if_splits)

definition counters_sized :: "client \<Rightarrow> bool" where
  "counters_sized c \<longleftrightarrow> 0 < g_ftc_server_count c \<and> g_ftc_server_count c \<le> 2147483647 \<and>
     int (length (timeout_counters c)) = g_ftc_server_count c"

lemma counters_ok_sized: "counters_ok c \<Longrightarrow> counters_sized c"
  by (simp add: counters_ok_def counters_sized_def)

lemma start_mercury_sized:
  assumes "counters_sized c" and "start_mercury env c = Inr c'"
  shows "sent c' = sent c \<and> timeout_counters c' = timeout_counters c \<and> fd_map c' = fd_map c \<and>
    fd_redir_map c' = fd_redir_map c \<and> g_ftc_server_count c' = g_ftc_server_count c \<and>
    g_mercury_init c'"
proof (cases "g_mercury_init c")
  case True
  with assms(2) show ?thesis by (simp add: start_mercury_def)
next
  case False
  have n: "wrap32 (g_ftc_server_count c) = int (length (timeout_counters c))"
    using assms(1) by (simp add: counters_sized_def)
  have "initialize_timeout_counters (wrap32 (g_ftc_server_count c)) (c\<lparr>g_mercury_init := True\<rparr>) =
      Inr (c\<lparr>g_mercury_init := True\<rparr>)"
    unfolding n by (simp add: initialize_timeout_counters_def)
  with False assms(2) show ?thesis
    by (auto simp: start_mercury_def andThen_iffs split: option.splits dest!: get_addr_effect)
qed

lemmas start_mercury_effect = start_mercury_sized [OF counters_ok_sized]

lemma track_file_contact:
  assumes "counters_ok c" and "ftc_track_file canonical current_path env hs cb es p flags fd c = Inr (b, c')"
  shows "contact c c'"
proof (cases "contains ''.ports.cfg.'' p \<or> flags AND O_ACCMODE = O_WRONLY \<or> flags AND O_APPEND \<noteq> 0 \<or>
    tracked_path canonical current_path (ftc_data_dir c) p = None")
  case True
  with assms(2) have "c' = c"
    by (auto simp: ftc_track_file_def split: if_splits)
  then show ?thesis by (simp add: contact_def)
next
  case False
  then obtain cp where cp:
    "tracked_path canonical current_path (ftc_data_dir c) p = Some cp"
    by auto
  have ok0: "counters_ok (c\<lparr>fd_map := (fd_map c)(fd \<mapsto> cp)\<rparr>)"
    using assms(1) by (simp add: counters_ok_def)
  from assms(2) False cp obtain c1 where c1:
    "start_mercury env (c\<lparr>fd_map := (fd_map c)(fd \<mapsto> cp)\<rparr>) = Inr c1"
    by (auto simp: ftc_track_file_def andThen_iffs split: if_splits)
  note eff = start_mercury_effect [OF ok0 c1]
  have ok1: "counters_ok c1" using eff counters_ok_same [OF ok0, of c1] by simp
  obtain h where h: "select_host (ce_hash env) (g_ftc_server_count c1) cp = Inr h"
    "0 \<le> h" "h < g_ftc_server_count c1" "uwrap32 h = h"
    "limit_reached c1 h = Inr (timeout_counters c1 ! nat h \<ge> TIMEOUT_LIMIT)"
    using counters_ok_host [OF ok1] by metis
  show ?thesis
  proof (cases "timeout_counters c1 ! nat h \<ge> TIMEOUT_LIMIT")
    case True
    with assms(2) False cp c1 h eff show ?thesis
      by (auto simp: ftc_track_file_def contact_def split: if_splits)
  next
    case below: False
    with assms(2) False cp c1 h obtain c2 where c2:
      "ftc_client_comm_gen_open_rpc env hs h cp fd c1 = Inr c2"
      "ftc_client_block h (\<lambda>i r v s. ftc_open_cb env cb h cp fd i v s) es c2 = Inr c'"
      by (auto simp: ftc_track_file_def andThen_iffs split: if_splits)
    have "quiet_step d d'" if "ftc_open_cb env cb h cp fd i v d = Inr d'" for i v d d'
      using open_cb_effect [OF that] by simp
    from client_block_contact [OF c2(2) this] gen_open_sent [OF c2(1)] below h eff
    show ?thesis unfolding contact_def by (auto simp: rpc_frame_def)
  qed
qed

section \<open>Runs of a client\<close>

datatype client_op = Op_Track | Op_Read | Op_Seek | Op_Close

inductive client_step :: "client_env \<Rightarrow> client_op \<Rightarrow> client \<Rightarrow> client \<Rightarrow> bool" for env where
  track: "ftc_track_file canonical current_path env hs cb es p flags fd c = Inr (b, c') \<Longrightarrow>
    client_step env Op_Track c c'"
| read_op: "remote_read_at env hs cb es fd nul buf count off c = Inr (r, b, c') \<Longrightarrow>
    client_step env Op_Read c c'"
| seek: "ftc_remote_lseek env hs es fd off wh c = Inr (r, c') \<Longrightarrow> client_step env Op_Seek c c'"
| close: "ftc_remove_fd env hs fd c = Inr (b, c') \<Longrightarrow> client_step env Op_Close c c'"

inductive client_run :: "client_env \<Rightarrow> client_op list \<Rightarrow> client \<Rightarrow> client \<Rightarrow> bool" for env where
  run_nil: "client_run env [] c c"
| run_snoc: "client_run env ops c d \<Longrightarrow> client_step env opn d e \<Longrightarrow> client_run env (ops @ [opn]) c e"

section \<open>What a request can fail with\<close>

text \<open>The faults of a request that are not the counters' or the placement's.\<close>

lemma cstr_fault [rpc_faults]: "cstr b = Inl e \<Longrightarrow> e = Overrun"
  by (simp add: cstr_def split: if_splits)

lemma extract_fault [rpc_faults]: "extract_ip_portion s b n = Inl e \<Longrightarrow> e = Overrun"
  by (auto simp: extract_ip_portion_def strncpy_def put_char_def andThen_iffs Let_def
      split: option.splits if_splits)

lemma strcmp_fault [rpc_faults]: "strcmp_flag a b = Inl e \<Longrightarrow> e = Overrun"
  by (auto simp: strcmp_flag_def andThen_iffs dest: rpc_faults)

lemma log_fault [rpc_faults]: "logging_info le i ty L = Inl e \<Longrightarrow> e = Overrun"
  by (auto simp: logging_info_def log_line_def andThen_iffs Let_def dest: rpc_faults split: if_splits)

lemma server_flag_fault [rpc_faults]: "server_flag env a c = Inl e \<Longrightarrow> e = Overrun"
  by (auto simp: server_flag_def andThen_iffs dest: rpc_faults)

lemma client_log_fault [rpc_faults]: "client_log env i c = Inl e \<Longrightarrow> e = Overrun"
  by (auto simp: client_log_def andThen_iffs dest: rpc_faults)

lemma scan_ports_fault [rpc_faults]: "scan_ports s r = Inl e \<Longrightarrow> e = Overrun"
  by (induction s r rule: scan_ports.induct)
    (auto simp: scan_ports.simps split: option.splits if_splits)

lemma lookup_fault [rpc_faults]: "lookup_addr env r c = Inl e \<Longrightarrow> e \<in> {Overrun, Uninitialised}"
  by (auto simp: lookup_addr_def ftc_client_comm_lookup_addr_def andThen_iffs hg_addr_of_def
      ports_filename_def sprintf_text_def split: option.splits if_splits dest: rpc_faults)

lemma gen_read_fault:
  "ftc_client_comm_gen_read_rpc env hs h fd nul count off c = Inl e \<Longrightarrow>
   e \<in> {Assertion, Overrun, Uninitialised}"
  by (auto simp: ftc_client_comm_gen_read_rpc_def andThen_iffs Let_def hg_forward_def
      dest: rpc_faults)

lemma read_cb_fault:
  "ftc_read_cb env cb h fd i r v s = Inl e \<Longrightarrow> e \<in> {Assertion, Overrun}"
  by (cases s) (auto simp: ftc_read_cb_def callback_log_def andThen_iffs split: if_splits option.splits
      dest: rpc_faults)

text \<open>What one operation does to the counters and to the hosts at the limit, and what a run does.\<close>

lemma step_counters:
  assumes "client_step env opn c c'" and "counters_ok c"
  shows "counters_ok c' \<and> g_ftc_server_count c' = g_ftc_server_count c"
  using assms
proof (induction rule: client_step.induct)
  case (track canonical current_path hs cb es p flags fd c b c')
  from track_file_contact [OF track(2,1)] contact_counters_ok [OF track(2)] show ?case
    by (simp add: contact_def)
next
  case (read_op hs cb es fd nul buf count off c r b c')
  from remote_read_contact [OF read_op(2,1)] contact_counters_ok [OF read_op(2)] show ?case
    by (simp add: contact_def)
next
  case (seek hs es fd off wh c r c')
  from remote_lseek_effect [OF seek(1)] counters_ok_same [OF seek(2)] show ?case
    by (simp add: rpc_frame_def)
next
  case (close hs fd c b c')
  from remove_fd_contact [OF close(2,1)] contact_counters_ok [OF close(2)] show ?case
    by (simp add: contact_def)
qed

inductive_cases track_stepE: "client_step env Op_Track c c'"
inductive_cases read_stepE: "client_step env Op_Read c c'"
inductive_cases close_stepE: "client_step env Op_Close c c'"

lemma step_contact:
  assumes "client_step env opn c c'" and "counters_ok c" and "opn \<noteq> Op_Seek"
  shows "contact c c'"
  using assms
  by (cases opn) (auto elim!: track_stepE read_stepE close_stepE
      dest: track_file_contact remote_read_contact remove_fd_contact)

lemma run_counters:
  "client_run env ops c c' \<Longrightarrow> counters_ok c \<Longrightarrow>
   counters_ok c' \<and> g_ftc_server_count c' = g_ftc_server_count c"
  by (induction rule: client_run.induct) (auto dest: step_counters)

lemma run_limit:
  assumes "client_run env ops c c'" and "counters_ok c" and "0 \<le> h" and "h < g_ftc_server_count c"
    and "TIMEOUT_LIMIT \<le> timeout_counters c ! nat h" and "Op_Seek \<notin> set ops"
  shows "TIMEOUT_LIMIT \<le> timeout_counters c' ! nat h \<and>
    (\<exists>new. sent c' = sent c @ new \<and> h \<notin> fst ` set new)"
  using assms
proof (induction rule: client_run.induct)
  case (run_nil c)
  then show ?case by auto
next
  case (run_snoc ops c d opn e)
  then have d: "TIMEOUT_LIMIT \<le> timeout_counters d ! nat h"
    "\<exists>new. sent d = sent c @ new \<and> h \<notin> fst ` set new" by simp_all
  from run_counters [OF run_snoc(1)] run_snoc.prems have okd: "counters_ok d"
    "h < g_ftc_server_count d" by simp_all
  have "contact d e" using step_contact [OF run_snoc(2) okd(1)] run_snoc.prems by auto
  from contact_limit [OF okd(1) this run_snoc.prems(2) okd(2) d(1)] d(2) show ?case
    by (auto simp: image_Un)
qed

text \<open>A file that passes the tests is entered under its descriptor, and nothing later removes it.\<close>

lemma track_file_enters:
  assumes "counters_ok c" and "ftc_track_file canonical cwd env hs cb es p flags fd c = Inr (b, c')"
    and "\<not> (contains ''.ports.cfg.'' p \<or> flags AND O_ACCMODE = O_WRONLY \<or> flags AND O_APPEND \<noteq> 0 \<or>
      tracked_path canonical cwd (ftc_data_dir c) p = None)"
    and "tracked_path canonical cwd (ftc_data_dir c) p = Some cp"
  shows "fd_map c' = (fd_map c)(fd \<mapsto> cp)"
proof -
  have ok0: "counters_ok (c\<lparr>fd_map := (fd_map c)(fd \<mapsto> cp)\<rparr>)"
    using assms(1) by (simp add: counters_ok_def)
  from assms(2-4) obtain c1 where c1:
    "start_mercury env (c\<lparr>fd_map := (fd_map c)(fd \<mapsto> cp)\<rparr>) = Inr c1"
    by (auto simp: ftc_track_file_def andThen_iffs split: if_splits)
  note eff = start_mercury_effect [OF ok0 c1]
  have m: "fd_map c1 = (fd_map c)(fd \<mapsto> cp)" using eff by simp
  have cb: "quiet_step d d'" if "ftc_open_cb env cb h cp fd i v d = Inr d'" for h i v d d'
    using open_cb_effect [OF that] by simp
  have block: "rpc_frame d d'"
    if "ftc_client_block h (\<lambda>i r v s. ftc_open_cb env cb h cp fd i v s) es d = Inr d'" for h d d'
    by (rule client_block_contact [OF that, THEN conjunct1]) (rule cb)
  have opened: "rpc_frame c1 d"
    if "ftc_client_comm_gen_open_rpc env hs h cp fd c1 = Inr d" for h d
    using gen_open_sent [OF that] by blast
  from assms(2-4) c1 m show ?thesis
    by (auto simp: ftc_track_file_def andThen_iffs rpc_frame_def split: if_splits
        dest!: block opened)
qed

lemma tracking_entered:
  assumes "counters_ok c" and "ftc_track_file canonical cwd env hs cb es p flags fd c = Inr (True, c')"
  shows "fd_map c' fd \<noteq> None"
proof -
  have elig: "\<not> (contains ''.ports.cfg.'' p \<or> flags AND O_ACCMODE = O_WRONLY \<or> flags AND O_APPEND \<noteq> 0 \<or>
      tracked_path canonical cwd (ftc_data_dir c) p = None)"
    using assms(2) by (auto simp: ftc_track_file_def split: if_splits option.splits)
  then obtain cp where "tracked_path canonical cwd (ftc_data_dir c) p = Some cp" by auto
  from track_file_enters [OF assms elig this] show ?thesis by simp
qed

text \<open>An open that times out leaves the remote descriptors as they were.\<close>

lemma timed_out_open_keeps_redirects:
  assumes "counters_ok c" and "ftc_track_file canonical cwd env hs cb es p flags fd c = Inr (True, c')"
    and "wait_ends es = Timed_Out"
  shows "fd_redir_map c' = fd_redir_map c"
proof -
  obtain cp where cp: "tracked_path canonical cwd (ftc_data_dir c) p = Some cp"
    using assms(2) by (auto simp: ftc_track_file_def split: if_splits option.splits)
  have ok0: "counters_ok (c\<lparr>fd_map := (fd_map c)(fd \<mapsto> cp)\<rparr>)"
    using assms(1) by (simp add: counters_ok_def)
  from assms(2) cp obtain c1 h c2 where c1:
    "start_mercury env (c\<lparr>fd_map := (fd_map c)(fd \<mapsto> cp)\<rparr>) = Inr c1"
    "ftc_client_comm_gen_open_rpc env hs (uwrap32 h) cp fd c1 = Inr c2"
    "count_timeout (uwrap32 h) c2 = Inr c'"
    using assms(3) by (auto simp: ftc_track_file_def andThen_iffs client_block_eq split: if_splits)
  from start_mercury_effect [OF ok0 c1(1)] gen_open_sent [OF c1(2)] count_timeout_effect [OF c1(3)]
  show ?thesis by simp
qed

text \<open>The request of a read, when it sends one.\<close>

lemma remote_read_request:
  assumes "remote_read_at env hs cb es fd nul buf count off c = Inr (r, b, c')"
  shows "sent c' = sent c \<or> (\<exists>h. sent c' = sent c @ [(h, Read_Req (mk_rpc_in (wrap64 count)
    (send_bulk_handle hs) (case fd_redir_map c fd of None \<Rightarrow> 0 | Some k \<Rightarrow> k) fd off (client_rank c)))])"
proof (cases "sent c' = sent c")
  case False
  from assms False obtain h c1 where c1:
    "ftc_client_comm_gen_read_rpc env hs h fd nul (wrap64 count) off c = Inr c1"
    "ftc_read_block h (ftc_read_cb env cb h fd) es buf (-1) c1 = Inr (r, b, c')"
    by (auto simp: remote_read_at_def andThen_iffs split: if_splits)
  have "sent c' = sent c1"
    using read_block_contact [OF c1(2)] read_cb_effect by blast
  moreover have "fst (subscript 0 (fd_redir_map c) fd) = (case fd_redir_map c fd of None \<Rightarrow> 0 | Some k \<Rightarrow> k)"
    by (simp add: subscript_def split: option.splits)
  ultimately show ?thesis using gen_read_sent [OF c1(1)] by auto
qed simp

end
