(* ===== verification/Wrappers.thy ===== *)
theory Wrappers
  imports Client_Cache
begin

text \<open>
  The interposed I/O functions (wrappers.c): each decides between the cache and the real call. Their
  state is the client's state and the world the real calls act on. The lemmas give the fallback
  behaviour of the reads on every branch.
\<close>

section \<open>Opening and closing\<close>

definition redirect_disabled :: "client \<Rightarrow> bool" where
  "redirect_disabled c \<longleftrightarrow> g_disable_redirect c \<or> tl_disable_redirect c"

text \<open>
  \<open>real_open p flags m\<close> is the real call with a mode (\<open>Some m\<close>) or without; \<open>va_mode\<close> is what the
  variable argument holds. \<open>wrap_track\<close> is the tracking decision that follows a successful open.
\<close>

definition wrap_track ::
  "'w os \<Rightarrow> client_env \<Rightarrow> hg_send \<Rightarrow> cb_call \<Rightarrow> rpc_event list \<Rightarrow> path \<Rightarrow> int \<Rightarrow> int \<Rightarrow>
   client \<times> 'w \<Rightarrow> (client \<times> 'w) res" where
  "wrap_track os env hs cb evs p flags fd s =
     andThen (ftc_track_file (\<lambda>q. fs_canonical os q (snd s)) (fs_current_path os (snd s))
                env hs cb evs p flags fd (fst s)) (\<lambda>(tracked, c1). Inr (c1, snd s))"

definition wrap_open ::
  "(path \<Rightarrow> int \<Rightarrow> int option \<Rightarrow> 'w \<Rightarrow> int \<times> 'w) \<Rightarrow> 'w os \<Rightarrow> client_env \<Rightarrow> hg_send \<Rightarrow> cb_call \<Rightarrow>
   rpc_event list \<Rightarrow> path \<Rightarrow> int \<Rightarrow> int \<Rightarrow> client \<times> 'w \<Rightarrow> (int \<times> client \<times> 'w) res" where
  "wrap_open real_open os env hs cb evs pathname flags va_mode s =
     (let use_mode = (flags AND O_CREAT \<noteq> 0);
          mode = (if use_mode then va_mode else 0)
      in if redirect_disabled (fst s)
         then (let (ret, w) = real_open pathname flags (Some mode) (snd s) in Inr (ret, fst s, w))
         else
           (let (ret, w) = real_open pathname flags (if use_mode then Some mode else None) (snd s)
            in if ret \<noteq> -1
               then andThen (wrap_track os env hs cb evs pathname flags ret (fst s, w)) (\<lambda>(c1, w1).
                    Inr (ret, c1, w1))
               else Inr (ret, fst s, w)))"

definition wrap_open64 ::
  "(path \<Rightarrow> int \<Rightarrow> int option \<Rightarrow> 'w \<Rightarrow> int \<times> 'w) \<Rightarrow> 'w os \<Rightarrow> client_env \<Rightarrow> hg_send \<Rightarrow> cb_call \<Rightarrow>
   rpc_event list \<Rightarrow> path \<Rightarrow> int \<Rightarrow> int \<Rightarrow> client \<times> 'w \<Rightarrow> (int \<times> client \<times> 'w) res" where
  "wrap_open64 real_open64 os env hs cb evs pathname flags va_mode s =
     (let mode = (if flags AND O_CREAT \<noteq> 0 then va_mode else 0)
      in if redirect_disabled (fst s)
         then (let (ret, w) = real_open64 pathname flags (Some mode) (snd s) in Inr (ret, fst s, w))
         else
           (let (ret, w) = real_open64 pathname flags (if mode \<noteq> 0 then Some mode else None) (snd s)
            in if ret \<noteq> -1
               then andThen (wrap_track os env hs cb evs pathname flags ret (fst s, w)) (\<lambda>(c1, w1).
                    Inr (ret, c1, w1))
               else Inr (ret, fst s, w)))"

text \<open>
  \<open>real_fopen\<close> gives the descriptor of the stream, \<open>None\<close> for a null pointer. Whatever the mode,
  the file is offered for tracking as opened for reading.
\<close>

definition wrap_fopen ::
  "(path \<Rightarrow> string \<Rightarrow> 'w \<Rightarrow> int option \<times> 'w) \<Rightarrow> 'w os \<Rightarrow> client_env \<Rightarrow> hg_send \<Rightarrow> cb_call \<Rightarrow>
   rpc_event list \<Rightarrow> path \<Rightarrow> string \<Rightarrow> client \<times> 'w \<Rightarrow> (int option \<times> client \<times> 'w) res" where
  "wrap_fopen real_fopen os env hs cb evs p mode s =
     (let (ptr, w) = real_fopen p mode (snd s)
      in if redirect_disabled (fst s) then Inr (ptr, fst s, w)
         else
           (case ptr of
              None \<Rightarrow> Inr (None, fst s, w)
            | Some fd \<Rightarrow>
                andThen (wrap_track os env hs cb evs p O_RDONLY fd (fst s, w)) (\<lambda>(c1, w1).
                Inr (ptr, c1, w1))))"

definition wrap_fopen64 ::
  "(path \<Rightarrow> string \<Rightarrow> 'w \<Rightarrow> int option \<times> 'w) \<Rightarrow> 'w os \<Rightarrow> client_env \<Rightarrow> hg_send \<Rightarrow> cb_call \<Rightarrow>
   rpc_event list \<Rightarrow> path \<Rightarrow> string \<Rightarrow> client \<times> 'w \<Rightarrow> (int option \<times> client \<times> 'w) res" where
  "wrap_fopen64 real_fopen64 os env hs cb evs p mode s =
     (let (ptr, w) = real_fopen64 p mode (snd s)
      in if redirect_disabled (fst s) then Inr (ptr, fst s, w)
         else
           (case ptr of
              None \<Rightarrow> Inr (None, fst s, w)
            | Some fd \<Rightarrow>
                andThen (wrap_track os env hs cb evs p O_RDONLY fd (fst s, w)) (\<lambda>(c1, w1).
                Inr (ptr, c1, w1))))"

definition wrap_close ::
  "'w os \<Rightarrow> client_env \<Rightarrow> hg_send \<Rightarrow> int \<Rightarrow> client \<times> 'w \<Rightarrow> (int \<times> client \<times> 'w) res" where
  "wrap_close os env hs fd s =
     (if redirect_disabled (fst s)
      then (let (ret, w) = sys_close os fd (snd s) in Inr (ret, fst s, w))
      else
        andThen (case ftc_get_path (fst s) fd of
                   None \<Rightarrow> Inr (fst s)
                 | Some p \<Rightarrow> andThen (ftc_remove_fd env hs fd (fst s)) (\<lambda>(b, c1). Inr c1)) (\<lambda>c1.
        let (ret, w) = sys_close os fd (snd s) in Inr (ret, c1, w)))"

section \<open>Reading and seeking\<close>

text \<open>The local variable of \<open>read\<close> is an \<^verbatim>\<open>int\<close>, that of \<open>pread\<close> an \<^verbatim>\<open>ssize_t\<close>.\<close>

definition wrap_read ::
  "'w os \<Rightarrow> client_env \<Rightarrow> hg_send \<Rightarrow> cb_call \<Rightarrow> rpc_event list \<Rightarrow> int \<Rightarrow> bool \<Rightarrow> byte list \<Rightarrow> int \<Rightarrow>
   client \<times> 'w \<Rightarrow> (int \<times> byte list \<times> client \<times> 'w) res" where
  "wrap_read os env hs cb evs fd buf_null buf count s =
     andThen (ftc_remote_read env hs cb evs fd buf_null buf count (fst s)) (\<lambda>(r, b, c1).
     let ret = wrap32 r
     in if ret < 0
        then (let ((r2, bs), w) = sys_read os fd count (snd s)
              in Inr (wrap32 r2, store_bytes b bs, c1, w))
        else Inr (ret, b, c1, snd s))"

definition wrap_pread ::
  "'w os \<Rightarrow> client_env \<Rightarrow> hg_send \<Rightarrow> cb_call \<Rightarrow> rpc_event list \<Rightarrow> int \<Rightarrow> bool \<Rightarrow> byte list \<Rightarrow> int \<Rightarrow> int \<Rightarrow>
   client \<times> 'w \<Rightarrow> (int \<times> byte list \<times> client \<times> 'w) res" where
  "wrap_pread os env hs cb evs fd buf_null buf count off s =
     (case ftc_get_path (fst s) fd of
        Some p \<Rightarrow>
          andThen (ftc_remote_pread env hs cb evs fd buf_null buf count off (fst s)) (\<lambda>(ret, b, c1).
          if ret < 0
          then (let ((r2, bs), w) = sys_pread os fd count off (snd s)
                in Inr (r2, store_bytes b bs, c1, w))
          else Inr (ret, b, c1, snd s))
      | None \<Rightarrow>
          (let ((r2, bs), w) = sys_pread os fd count off (snd s)
           in Inr (r2, store_bytes buf bs, fst s, w)))"

definition wrap_lseek ::
  "'w os \<Rightarrow> client_env \<Rightarrow> hg_send \<Rightarrow> rpc_event list \<Rightarrow> int \<Rightarrow> int \<Rightarrow> int \<Rightarrow>
   client \<times> 'w \<Rightarrow> (int \<times> client \<times> 'w) res" where
  "wrap_lseek os env hs evs fd off wh s =
     (if redirect_disabled (fst s)
      then (let (r, w) = sys_lseek os fd off wh (snd s) in Inr (r, fst s, w))
      else if ftc_file_tracked (fst s) fd
      then andThen (ftc_remote_lseek env hs evs fd (wrap32 off) wh (fst s)) (\<lambda>(r, c1).
           Inr (r, c1, snd s))
      else (let (r, w) = sys_lseek os fd off wh (snd s) in Inr (r, fst s, w)))"

text \<open>\<open>lseek64\<close> has the same body over the 64-bit call.\<close>

definition wrap_lseek64 ::
  "'w os \<Rightarrow> client_env \<Rightarrow> hg_send \<Rightarrow> rpc_event list \<Rightarrow> int \<Rightarrow> int \<Rightarrow> int \<Rightarrow>
   client \<times> 'w \<Rightarrow> (int \<times> client \<times> 'w) res" where
  "wrap_lseek64 os env hs evs fd off wh s =
     (if redirect_disabled (fst s)
      then (let (r, w) = sys_lseek os fd off wh (snd s) in Inr (r, fst s, w))
      else if ftc_file_tracked (fst s) fd
      then andThen (ftc_remote_lseek env hs evs fd (wrap32 off) wh (fst s)) (\<lambda>(r, c1).
           Inr (r, c1, snd s))
      else (let (r, w) = sys_lseek os fd off wh (snd s) in Inr (r, fst s, w)))"

text \<open>
  \<open>write\<close>, \<open>read64\<close> and \<open>readv\<close> always make the real call: \<open>real\<close> with its arguments applied.
\<close>

definition wrap_write :: "('w \<Rightarrow> int \<times> 'w) \<Rightarrow> client \<times> 'w \<Rightarrow> int \<times> client \<times> 'w" where
  "wrap_write real s = (let (r, w) = real (snd s) in (r, fst s, w))"

definition wrap_read64 :: "('w \<Rightarrow> 'r \<times> 'w) \<Rightarrow> client \<times> 'w \<Rightarrow> 'r \<times> client \<times> 'w" where
  "wrap_read64 real s = (let (r, w) = real (snd s) in (r, fst s, w))"

definition wrap_readv :: "('w \<Rightarrow> 'r \<times> 'w) \<Rightarrow> client \<times> 'w \<Rightarrow> 'r \<times> client \<times> 'w" where
  "wrap_readv real s = (let (r, w) = real (snd s) in (r, fst s, w))"

section \<open>The fallbacks\<close>

lemma wrap_pread_cases:
  assumes "ftc_remote_pread env hs cb evs fd nul buf count off c = Inr (r, b, c1)"
    and "sys_pread os fd count off w = ((r2, bs), w1)" and "fd_map c fd = Some p"
  shows "wrap_pread os env hs cb evs fd nul buf count off (c, w) =
    (if r < 0 then Inr (r2, store_bytes b bs, c1, w1) else Inr (r, b, c1, w))"
  using assms by (simp add: wrap_pread_def ftc_get_path_eq)

lemma wrap_pread_untracked:
  assumes "sys_pread os fd count off w = ((r2, bs), w1)" and "fd_map c fd = None"
  shows "wrap_pread os env hs cb evs fd nul buf count off (c, w) =
    Inr (r2, store_bytes buf bs, c, w1)"
  using assms by (simp add: wrap_pread_def ftc_get_path_eq)

lemma wrap_read_cases:
  assumes "ftc_remote_read env hs cb evs fd nul buf count c = Inr (r, b, c1)"
    and "sys_read os fd count w = ((r2, bs), w1)"
  shows "wrap_read os env hs cb evs fd nul buf count (c, w) =
    (if wrap32 r < 0 then Inr (wrap32 r2, store_bytes b bs, c1, w1) else Inr (wrap32 r, b, c1, w))"
  using assms by (simp add: wrap_read_def Let_def)

end
