(* ===== verification/Client_Properties.thy ===== *)
theory Client_Properties
  imports Wrappers
begin

unbundle bit_operations_syntax

text \<open>
  The properties of the interception library: initialisation, the decision to track a file, the
  timeout counters and what they keep a client from doing, the waits, and the fallbacks of the
  interposed calls. Each is followed by a witness on the client defined first.
\<close>

section \<open>A concrete client\<close>

text \<open>Two servers, a log that cannot be opened, and one tracked descriptor whose host is 0.\<close>

definition demo_le0 :: log_env where
  "demo_le0 = \<lparr>log_dir = None, log_openable = (\<lambda>f. False)\<rparr>"

definition demo_cenv :: client_env where
  "demo_cenv = \<lparr>ce_getenv = [''FT_Cache_SERVER_COUNT'' \<mapsto> ''2'', ''FT_Cache_DATA_DIR'' \<mapsto> ''/d'',
       ''HOROVOD_RANK'' \<mapsto> ''0'', ''MY_JOBID'' \<mapsto> ''j''],
     ce_hash = (\<lambda>s. 4), ce_log = demo_le0, ce_files = Map.empty, ce_lookup2 = Some,
     ce_addr_string = (\<lambda>a. ''t:h:1''), ce_self_addr = ''t:c:1''\<rparr>"

definition demo_hs :: hg_send where
  "demo_hs = \<lparr>create_ret = 0, send_info_ok = True, send_bulk_ret = 0, send_bulk_handle = 0,
     forward_ret = 0, free_addr_ret = 0, send_clock = (0, 0)\<rparr>"

definition demo_cb :: cb_call where
  "demo_cb = \<lparr>cb_peer = None, cb_junk = 0, cb_free_ret = 0, cb_clock = (0, 0)\<rparr>"

definition demo_client :: client where
  "demo_client = \<lparr>fd_map = [7 \<mapsto> ''/d/a''], fd_redir_map = [7 \<mapsto> 0], timeout_counters = [0, 0],
     g_ftc_server_count = 2, ftc_data_dir = Some ''/d'', g_disable_redirect = False,
     tl_disable_redirect = False, g_ftc_initialized = True, g_mercury_init = True,
     init_mutex = False, address_cache = [0 \<mapsto> ''t:h:1''], my_address = HG_ADDR ''t:c:1'',
     client_address = [CHR ''c'', NUL], client_rank = 0, client_logs = Map.empty, sent = []\<rparr>"

lemma demo_counters_ok: "counters_ok demo_client"
  by (simp add: counters_ok_def demo_client_def TIMEOUT_LIMIT_def)

lemma demo_client_log: "client_log demo_cenv i c = Inr c"
  by (simp add: client_log_def logging_info_def demo_cenv_def demo_le0_def Let_def)

lemma demo_lookup: "address_cache c 0 = Some ''t:h:1'' \<Longrightarrow>
    lookup_addr demo_cenv 0 c = Inr (HG_ADDR ''t:h:1'', c)"
  by (simp add: lookup_addr_def ftc_client_comm_lookup_addr_def hg_addr_of_def demo_cenv_def)

lemma demo_server_flag: "client_address c = [CHR ''c'', NUL] \<Longrightarrow>
    server_flag demo_cenv a c = Inr 0"
proof -
  have "extract_ip_portion ''t:h:1'' (replicate 128 NUL) 128 = Inr (''t:h:'' @ replicate 124 NUL)"
    by code_simp
  moreover have "strcmp_flag [CHR ''c'', NUL] (''t:h:'' @ replicate 124 NUL) = Inr 0"
    by code_simp
  ultimately show "client_address c = [CHR ''c'', NUL] \<Longrightarrow> server_flag demo_cenv a c = Inr 0"
    by (simp add: server_flag_def demo_cenv_def)
qed

lemma demo_callback_log: "callback_log demo_cenv None junk fp req h ep clk c = Inr c"
  by (simp add: callback_log_def demo_client_log)

lemma demo_host: "select_host (ce_hash demo_cenv) 2 p = Inr 0"
  by (simp add: select_host_def demo_cenv_def)

text \<open>A read request of such a client is sent.\<close>

definition demo_like :: "client \<Rightarrow> bool" where
  "demo_like c \<longleftrightarrow> address_cache c 0 = Some ''t:h:1'' \<and> client_address c = [CHR ''c'', NUL] \<and>
     client_rank c = 0 \<and> g_ftc_server_count c = 2"

lemma demo_gen_read:
  assumes "demo_like c" and "fd_redir_map c fd = Some rfd"
  shows "ftc_client_comm_gen_read_rpc demo_cenv demo_hs 0 fd False count off c =
    Inr (c\<lparr>sent := sent c @ [(0, Read_Req (mk_rpc_in count 0 rfd fd off 0))]\<rparr>)"
  using assms
  by (simp add: ftc_client_comm_gen_read_rpc_def demo_like_def demo_lookup demo_hs_def
      demo_server_flag demo_client_log hg_forward_def Let_def)

lemma demo_read_cb: "ftc_read_cb demo_cenv demo_cb h fd 0 0 v (b, c) = Inr (v, c)"
  by (simp add: ftc_read_cb_def demo_cb_def demo_callback_log)

lemma demo_client_like [simp]: "demo_like demo_client" "demo_like (demo_client\<lparr>sent := x\<rparr>)"
    "demo_like (demo_client\<lparr>sent := x, timeout_counters := t\<rparr>)"
    "demo_like (demo_client\<lparr>timeout_counters := t\<rparr>)"
  by (simp_all add: demo_like_def demo_client_def)

lemma demo_limit: "timeout_counters c = x # xs \<Longrightarrow> limit_reached c 0 = Inr (3 \<le> x)"
  by (simp add: limit_reached_def TIMEOUT_LIMIT_def)

text \<open>A tracked read of this client, answered or timed out.\<close>

lemma demo_read:
  assumes "demo_like c" and "fd_map c fd = Some p" and "fd_redir_map c fd = Some rfd"
    and "timeout_counters c = x # xs" and "x < 3"
  shows "remote_read_at demo_cenv demo_hs demo_cb [Push bs, Callback 0 0 v] fd False buf count off c =
      Inr (v, store_bytes buf bs,
        c\<lparr>sent := sent c @ [(0, Read_Req (mk_rpc_in (wrap64 count) 0 rfd fd off 0))]\<rparr>)"
    and "remote_read_at demo_cenv demo_hs demo_cb [Deadline] fd False buf count off c =
      Inr (-1, buf,
        c\<lparr>sent := sent c @ [(0, Read_Req (mk_rpc_in (wrap64 count) 0 rfd fd off 0))],
          timeout_counters := (x + 1) # xs\<rparr>)"
proof -
  have t: "ftc_file_tracked c fd" using assms(2) by (simp add: ftc_file_tracked_iff)
  have h: "select_host (ce_hash demo_cenv) (g_ftc_server_count c) (the (fd_map c fd)) = Inr 0"
    using assms(1) by (simp add: demo_host demo_like_def)
  show "remote_read_at demo_cenv demo_hs demo_cb [Push bs, Callback 0 0 v] fd False buf count off c =
      Inr (v, store_bytes buf bs,
        c\<lparr>sent := sent c @ [(0, Read_Req (mk_rpc_in (wrap64 count) 0 rfd fd off 0))]\<rparr>)"
    using t h assms by (simp add: remote_read_at_def demo_limit demo_gen_read read_block_eq
        demo_read_cb received_def)
  show "remote_read_at demo_cenv demo_hs demo_cb [Deadline] fd False buf count off c =
      Inr (-1, buf,
        c\<lparr>sent := sent c @ [(0, Read_Req (mk_rpc_in (wrap64 count) 0 rfd fd off 0))],
          timeout_counters := (x + 1) # xs\<rparr>)"
    using t h assms by (simp add: remote_read_at_def demo_limit demo_gen_read read_block_eq
        count_timeout_def received_def)
qed

lemma demo_read_run:
  "client_run demo_cenv [Op_Read] demo_client
    (demo_client\<lparr>sent := [(0, Read_Req (mk_rpc_in (wrap64 1) 0 0 7 0 0))], timeout_counters := [1, 0]\<rparr>)"
proof -
  have "remote_read_at demo_cenv demo_hs demo_cb [Deadline] 7 False [9] 1 0 demo_client =
      Inr (-1, [9], demo_client\<lparr>sent := sent demo_client @ [(0, Read_Req (mk_rpc_in (wrap64 1) 0 0 7 0 0))],
        timeout_counters := (0 + 1) # [0]\<rparr>)"
    by (rule demo_read(2)) (simp_all add: demo_client_def demo_like_def)
  then have "client_step demo_cenv Op_Read demo_client
      (demo_client\<lparr>sent := [(0, Read_Req (mk_rpc_in (wrap64 1) 0 0 7 0 0))], timeout_counters := [1, 0]\<rparr>)"
    by (intro client_step.read_op) (simp add: demo_client_def)
  from client_run.run_snoc [OF client_run.run_nil this] show ?thesis by simp
qed

lemma demo_dead_run:
  "client_run demo_cenv [Op_Read] (demo_client\<lparr>timeout_counters := [3, 0]\<rparr>)
    (demo_client\<lparr>timeout_counters := [3, 0]\<rparr>)"
proof -
  have "remote_read_at demo_cenv demo_hs demo_cb [] 7 False [9] 1 0 (demo_client\<lparr>timeout_counters := [3, 0]\<rparr>) =
      Inr (-1, [9], demo_client\<lparr>timeout_counters := [3, 0]\<rparr>)"
    by (simp add: remote_read_at_def ftc_file_tracked_iff demo_client_def demo_host demo_limit)
  then have "client_step demo_cenv Op_Read (demo_client\<lparr>timeout_counters := [3, 0]\<rparr>)
      (demo_client\<lparr>timeout_counters := [3, 0]\<rparr>)"
    by (rule client_step.read_op)
  from client_run.run_snoc [OF client_run.run_nil this] show ?thesis by simp
qed

section \<open>Placement and timeout counters\<close>

text \<open>
  Over every sequence of operations of the library there is one counter per server and every
  counter stays between 0 and the limit of 3.
\<close>

theorem counters_stay_bounded:
  assumes "counters_ok c" and "client_run env ops c c'"
  shows "g_ftc_server_count c' = g_ftc_server_count c \<and>
    int (length (timeout_counters c')) = g_ftc_server_count c \<and>
    (\<forall>n \<in> set (timeout_counters c'). 0 \<le> n \<and> n \<le> 3)"
  using run_counters [OF assms(2,1)] by (simp add: counters_ok_def TIMEOUT_LIMIT_def)

theorem counters_stay_bounded_witness:
  "\<exists>c'. client_run demo_cenv [Op_Read] demo_client c' \<and>
    g_ftc_server_count c' = g_ftc_server_count demo_client \<and>
    int (length (timeout_counters c')) = g_ftc_server_count demo_client \<and>
    list_all (\<lambda>n. 0 \<le> n \<and> n \<le> 3) (timeout_counters c')"
  using counters_stay_bounded [OF demo_counters_ok demo_read_run] demo_read_run
  unfolding list_all_iff by blast

text \<open>
  C8. A server that reached the limit is left alone for ever: over every further sequence of
  opens, reads and closes its counter stays at the limit and none of the requests sent goes to
  it.
\<close>

theorem dead_server_is_not_contacted:
  assumes "counters_ok c" and "client_run env ops c c'"
    and "0 \<le> h" and "h < g_ftc_server_count c" and "TIMEOUT_LIMIT \<le> timeout_counters c ! nat h"
    and "Op_Seek \<notin> set ops"
  shows "TIMEOUT_LIMIT \<le> timeout_counters c' ! nat h \<and>
    (\<exists>new. sent c' = sent c @ new \<and> h \<notin> fst ` set new)"
  using run_limit [OF assms(2,1,3-6)] .

theorem dead_server_is_not_contacted_witness:
  "\<exists>c'. client_run demo_cenv [Op_Read] (demo_client\<lparr>timeout_counters := [3, 0]\<rparr>) c' \<and>
    TIMEOUT_LIMIT \<le> timeout_counters c' ! nat 0 \<and>
    (\<exists>new. sent c' = sent (demo_client\<lparr>timeout_counters := [3, 0]\<rparr>) @ new \<and> 0 \<notin> fst ` set new)"
proof -
  have "counters_ok (demo_client\<lparr>timeout_counters := [3, 0]\<rparr>)"
    by (simp add: counters_ok_def demo_client_def TIMEOUT_LIMIT_def)
  from dead_server_is_not_contacted [OF this demo_dead_run, of 0] demo_dead_run show ?thesis
    by (auto simp: demo_client_def TIMEOUT_LIMIT_def)
qed

text \<open>
  A remote read never divides by zero, never indexes the counters out of range and never asks
  for an impossible size: with well-formed counters the only faults left are a failed
  assertion, an address that was never set, an overrun string and a wait nothing ends.
\<close>

theorem remote_read_stays_in_range:
  assumes "counters_ok c"
    and "remote_read_at env hs cb es fd nul buf count off c = Inl e"
  shows "e \<in> {Assertion, Overrun, Uninitialised, Never_Returns} \<and>
    (e = Never_Returns \<longrightarrow> Deadline \<notin> set es)"
proof -
  obtain h where h: "select_host (ce_hash env) (g_ftc_server_count c) (the (fd_map c fd)) = Inr h"
    "0 \<le> h" "h < g_ftc_server_count c" "uwrap32 h = h"
    "limit_reached c h = Inr (timeout_counters c ! nat h \<ge> TIMEOUT_LIMIT)"
    using counters_ok_host [OF assms(1)] by metis
  from assms(2) h have "ftc_file_tracked c fd" "\<not> timeout_counters c ! nat h \<ge> TIMEOUT_LIMIT"
    by (auto simp: remote_read_at_def split: if_splits)
  with assms(2) h consider
      (send) "ftc_client_comm_gen_read_rpc env hs h fd nul (wrap64 count) off c = Inl e"
    | (wait) c1 where "ftc_client_comm_gen_read_rpc env hs h fd nul (wrap64 count) off c = Inr c1"
        "ftc_read_block h (ftc_read_cb env cb h fd) es buf (-1) c1 = Inl e"
    by (auto simp: remote_read_at_def andThen_iffs)
  then show ?thesis
  proof cases
    case send
    from gen_read_fault [OF send] show ?thesis by auto
  next
    case wait
    from gen_read_sent [OF wait(1)] have "timeout_counters c1 = timeout_counters c" by blast
    then have late: "count_timeout h d \<noteq> Inl e" if "quiet_step c1 d" for d
      using assms(1) h that
      by (auto simp: count_timeout_def counters_ok_def nat_less_iff quiet_step_def)
    then show ?thesis
      using wait(2) wait_ends_not_blocked [of es] late [OF quiet_step_refl] late
      by (auto simp: read_block_eq andThen_iffs split: wait_end.splits dest: read_cb_fault read_cb_effect)
  qed
qed

theorem remote_read_stays_in_range_witness:
  "Never_Returns \<in> {Assertion, Overrun, Uninitialised, Never_Returns} \<and> Deadline \<notin> set [Spurious]"
proof -
  have "remote_read_at demo_cenv demo_hs demo_cb [Spurious] 7 False [0] 1 0 demo_client = Inl Never_Returns"
    using demo_gen_read [OF demo_client_like(1), of 7 0 1 0]
    by (simp add: remote_read_at_def ftc_file_tracked_iff demo_host demo_limit read_block_eq
        demo_client_def)
  from remote_read_stays_in_range [OF demo_counters_ok this] show ?thesis by blast
qed

text \<open>
  The third timeout cuts a server off: when the deadline of a read passes with the host's
  counter at 2, the read reports -1 after one request, and every later remote read of that
  descriptor reports -1 at once, leaves the buffer alone and sends nothing.
\<close>

theorem third_timeout_cuts_off:
  assumes "counters_ok c" and "fd_map c fd = Some p"
    and "select_host (ce_hash env) (g_ftc_server_count c) p = Inr h"
    and "timeout_counters c ! nat h = 2"
    and "remote_read_at env hs cb es fd nul buf count off c = Inr (r, b, c')"
    and "wait_ends es = Timed_Out"
  shows "r = -1 \<and> b = received buf es \<and> timeout_counters c' ! nat h = 3 \<and>
    (\<exists>q. sent c' = sent c @ [(h, Read_Req q)]) \<and>
    remote_read_at env hs' cb' es' fd nul' buf' count' off' c' = Inr (-1, buf', c')"
proof -
  obtain g where g: "select_host (ce_hash env) (g_ftc_server_count c) p = Inr g" "0 \<le> g"
    "g < g_ftc_server_count c" "uwrap32 g = g"
    "limit_reached c g = Inr (timeout_counters c ! nat g \<ge> TIMEOUT_LIMIT)"
    using counters_ok_host [OF assms(1)] by metis
  with assms(3) have h: "g = h" by simp
  have t: "ftc_file_tracked c fd" using assms(2) by (simp add: ftc_file_tracked_iff)
  from assms(5) t g h assms(2,4,6) obtain c1 where
    c1: "ftc_client_comm_gen_read_rpc env hs h fd nul (wrap64 count) off c = Inr c1"
      "count_timeout h c1 = Inr c'" "r = -1" "b = received buf es"
    by (auto simp: remote_read_at_def andThen_iffs read_block_eq TIMEOUT_LIMIT_def)
  note s = gen_read_sent [OF c1(1)] and e = count_timeout_effect [OF c1(2)]
  have n: "timeout_counters c' ! nat h = 3"
    using s e assms(4) by auto
  moreover have same: "fd_map c' = fd_map c" "g_ftc_server_count c' = g_ftc_server_count c"
    using s e by (auto simp: rpc_frame_def)
  moreover have "length (timeout_counters c') = length (timeout_counters c)"
    using s e by simp
  moreover have "nat h < length (timeout_counters c)" using s e by simp
  ultimately have "remote_read_at env hs' cb' es' fd nul' buf' count' off' c' = Inr (-1, buf', c')"
    using assms(2,3) g h
    by (simp add: remote_read_at_def ftc_file_tracked_iff limit_reached_def TIMEOUT_LIMIT_def)
  with n c1 s e show ?thesis by auto
qed

theorem third_timeout_cuts_off_witness:
  "\<exists>c'. timeout_counters c' ! nat 0 = 3 \<and>
    remote_read_at demo_cenv demo_hs demo_cb [Callback 0 0 1] 7 False [1] 1 0 c' = Inr (-1, [1], c')"
proof -
  let ?c = "demo_client\<lparr>timeout_counters := [2, 0]\<rparr>"
  have ok: "counters_ok ?c" by (simp add: counters_ok_def demo_client_def TIMEOUT_LIMIT_def)
  have run: "remote_read_at demo_cenv demo_hs demo_cb [Deadline] 7 False [9] 1 0 ?c =
      Inr (-1, [9], ?c\<lparr>sent := sent ?c @ [(0, Read_Req (mk_rpc_in (wrap64 1) 0 0 7 0 0))],
        timeout_counters := (2 + 1) # [0]\<rparr>)"
    by (rule demo_read(2)) (simp_all add: demo_client_def demo_like_def)
  let ?d = "?c\<lparr>sent := sent ?c @ [(0, Read_Req (mk_rpc_in (wrap64 1) 0 0 7 0 0))],
      timeout_counters := (2 + 1) # [0]\<rparr>"
  have "timeout_counters ?d ! nat 0 = 3 \<and>
      remote_read_at demo_cenv demo_hs demo_cb [Callback 0 0 1] 7 False [1] 1 0 ?d = Inr (-1, [1], ?d)"
    using third_timeout_cuts_off [OF ok _ _ _ run, of "''/d/a''" 0 demo_hs demo_cb "[Callback 0 0 1]" False "[1]" 1 0]
    by (simp add: demo_client_def demo_host)
  then show ?thesis by blast
qed

section \<open>Initialisation\<close>

text \<open>
  With a positive server count the constructor of the library always completes: it leaves one
  zero counter per server, the data directory of the environment, the redirection enabled and the
  mutex free.
\<close>

theorem initialisation_succeeds:
  assumes "\<not> init_mutex c" and "\<not> g_ftc_initialized c" and "timeout_counters c = []"
    and "ce_getenv env ''FT_Cache_SERVER_COUNT'' = Some v" and "0 < atoi v" and "atoi v < 2147483648"
    and "no_nul (ce_self_addr env)" and "length (client_address c) = 128"
  shows "\<exists>c'. ftc_client_init env c = Inr c' \<and> counters_ok c' \<and>
    timeout_counters c' = replicate (nat (atoi v)) 0 \<and> \<not> init_mutex c' \<and> g_ftc_initialized c' \<and>
    \<not> g_disable_redirect c' \<and>
    ftc_data_dir c' = (case ce_getenv env ''FT_Cache_DATA_DIR'' of
       None \<Rightarrow> ftc_data_dir c | Some d \<Rightarrow> Some d)"
proof -
  obtain b where b: "extract_ip_portion (ce_self_addr env) (client_address c) 128 = Inr b"
    using extract_ip_portion_ok [of "client_address c" "ce_self_addr env"] assms(7,8) by auto
  show ?thesis
    using assms b
    by (cases "ce_getenv env ''FT_Cache_DATA_DIR''")
      (auto simp: ftc_client_init_def initialize_timeout_counters_def ftc_get_addr_def Let_def
        counters_ok_def TIMEOUT_LIMIT_def)
qed

definition demo_fresh :: client where
  "demo_fresh = demo_client\<lparr>g_ftc_initialized := False, timeout_counters := [],
     client_address := replicate 128 NUL, my_address := HG_ADDR_NULL, g_disable_redirect := True\<rparr>"

theorem initialisation_succeeds_witness:
  "\<exists>c'. ftc_client_init demo_cenv demo_fresh = Inr c' \<and> counters_ok c' \<and>
    timeout_counters c' = replicate (nat (atoi ''2'')) 0 \<and> \<not> init_mutex c' \<and>
    g_ftc_initialized c' \<and> \<not> g_disable_redirect c' \<and>
    ftc_data_dir c' = (case ce_getenv demo_cenv ''FT_Cache_DATA_DIR'' of
       None \<Rightarrow> ftc_data_dir demo_fresh | Some d \<Rightarrow> Some d)"
proof -
  have v: "atoi ''2'' = 2" by code_simp
  show ?thesis
    by (rule initialisation_succeeds)
      (simp_all add: v demo_fresh_def demo_client_def demo_cenv_def NUL_def)
qed

text \<open>
  Without the environment variable the constructor gives up with the mutex held and the
  redirection off; whoever calls it again waits for ever.
\<close>

theorem failed_initialisation_keeps_the_mutex:
  assumes "\<not> init_mutex c" and "\<not> g_ftc_initialized c"
    and "ce_getenv env ''FT_Cache_SERVER_COUNT'' = None"
  shows "\<exists>c'. ftc_client_init env c = Inr c' \<and> init_mutex c' \<and> \<not> g_ftc_initialized c' \<and>
    g_disable_redirect c' = g_disable_redirect c \<and> ftc_client_init env' c' = Inl Never_Returns"
  using assms by (simp add: ftc_client_init_def)

theorem failed_initialisation_keeps_the_mutex_witness:
  "\<exists>c'. ftc_client_init (demo_cenv\<lparr>ce_getenv := Map.empty\<rparr>) demo_fresh = Inr c' \<and> init_mutex c' \<and>
    \<not> g_ftc_initialized c' \<and> g_disable_redirect c' = g_disable_redirect demo_fresh \<and>
    ftc_client_init demo_cenv c' = Inl Never_Returns"
  by (rule failed_initialisation_keeps_the_mutex)
    (simp_all add: demo_fresh_def demo_client_def)

section \<open>Tracking\<close>



lemma demo_gen_open:
  assumes "demo_like c"
  shows "ftc_client_comm_gen_open_rpc demo_cenv demo_hs 0 p fd c =
    Inr (c\<lparr>sent := sent c @ [(0, Open_Req \<lparr>open_path = p, open_client_rank = 0, open_localfd = wrap32 fd\<rparr>)]\<rparr>)"
  using assms
  by (simp add: ftc_client_comm_gen_open_rpc_def demo_like_def demo_lookup demo_hs_def
      demo_server_flag demo_client_log hg_forward_def Let_def)



text \<open>A local file system whose descriptor 7 is open at the start of the tracked file.\<close>

definition demo_local :: fsys where
  "demo_local = \<lparr>fs_files = [''/d/a'' \<mapsto> [10, 20, 30, 40, 50]], fs_dirs = (\<lambda>d. d = ''/d''),
     fs_table = [7 \<mapsto> (''/d/a'', 0)], fs_temp = 0, fs_cwd = ''/d''\<rparr>"

lemma demo_sibling_timeout:
  "\<exists>c1. ftc_track_file Some ''/w'' demo_cenv demo_hs demo_cb [Deadline] ''/data2/a'' 0 9
     (demo_client\<lparr>ftc_data_dir := Some ''/data''\<rparr>) = Inr (True, c1) \<and>
   fd_map c1 9 = Some ''/data2/a'' \<and> timeout_counters c1 = [1, 0] \<and> g_ftc_server_count c1 = 2 \<and>
   demo_like c1 \<and> fd_redir_map c1 = [7 \<mapsto> 0]"
proof -
  have "tracked_path Some ''/w'' (Some ''/data'') ''/data2/a'' = Some ''/data2/a''"
    "contains ''.ports.cfg.'' ''/data2/a'' = False"
    by code_simp+
  moreover have "demo_like (demo_client\<lparr>ftc_data_dir := Some ''/data'', fd_map := m\<rparr>)" for m
    by (simp add: demo_like_def demo_client_def)
  note demo_gen_open [OF this]
  ultimately show ?thesis
    by (simp add: ftc_track_file_def start_mercury_def demo_client_def demo_host demo_limit
        client_block_eq count_timeout_def demo_like_def)
qed

lemma demo_gen_read_default:
  assumes "demo_like c" and "fd_redir_map c fd = None"
  shows "ftc_client_comm_gen_read_rpc demo_cenv demo_hs 0 fd False count off c =
    Inr (c\<lparr>fd_redir_map := (fd_redir_map c)(fd \<mapsto> 0),
           sent := sent c @ [(0, Read_Req (mk_rpc_in count 0 0 fd off 0))]\<rparr>)"
  using assms
  by (simp add: ftc_client_comm_gen_read_rpc_def demo_like_def demo_lookup demo_hs_def
      demo_server_flag demo_client_log hg_forward_def Let_def)

section \<open>Fallbacks\<close>

text \<open>
  C25. For a descriptor that is not tracked, or whose server reached the timeout limit, the
  interposed \<open>pread\<close> and \<open>read\<close> are exactly the real calls: same result (\<open>read\<close> through its \<^verbatim>\<open>int\<close>),
  same bytes, and the client's state unchanged.
\<close>

theorem local_reads_are_real_reads:
  assumes "counters_ok c"
    and "fd_map c fd = None \<or> (\<exists>p h. fd_map c fd = Some p \<and>
      select_host (ce_hash env) (g_ftc_server_count c) p = Inr h \<and>
      TIMEOUT_LIMIT \<le> timeout_counters c ! nat h)"
  shows "wrap_pread os env hs cb es fd nul buf count off (c, w) =
      (let ((r, bs), w1) = sys_pread os fd count off w in Inr (r, store_bytes buf bs, c, w1)) \<and>
    wrap_read os env hs cb es fd nul buf count (c, w) =
      (let ((r, bs), w1) = sys_read os fd count w in Inr (wrap32 r, store_bytes buf bs, c, w1))"
proof -
  have local: "remote_read_at env hs cb es fd nul buf count k c = Inr (-1, buf, c)" for k
    using assms(2)
  proof (elim disjE exE conjE)
    assume "fd_map c fd = None"
    then show ?thesis by (simp add: remote_read_at_def ftc_file_tracked_iff)
  next
    fix p h
    assume p: "fd_map c fd = Some p" "select_host (ce_hash env) (g_ftc_server_count c) p = Inr h"
      "TIMEOUT_LIMIT \<le> timeout_counters c ! nat h"
    from counters_ok_host [OF assms(1)] obtain g where
      "select_host (ce_hash env) (g_ftc_server_count c) p = Inr g"
      "limit_reached c g = Inr (timeout_counters c ! nat g \<ge> TIMEOUT_LIMIT)" by metis
    with p show ?thesis by (simp add: remote_read_at_def ftc_file_tracked_iff)
  qed
  obtain r bs w1 where p: "sys_pread os fd count off w = ((r, bs), w1)" by (metis prod.collapse)
  obtain r' bs' w1' where q: "sys_read os fd count w = ((r', bs'), w1')" by (metis prod.collapse)
  show ?thesis
    by (cases "fd_map c fd") (simp_all add: wrap_pread_def wrap_read_def ftc_remote_pread_def
        ftc_remote_read_def local ftc_get_path_eq p q)
qed

theorem local_reads_are_real_reads_witness:
  "wrap_pread fsys_os demo_cenv demo_hs demo_cb [] 3 False [0] 1 0 (demo_client, demo_local) =
      (let ((r, bs), w1) = sys_pread fsys_os 3 1 0 demo_local in Inr (r, store_bytes [0] bs, demo_client, w1)) \<and>
    wrap_read fsys_os demo_cenv demo_hs demo_cb [] 3 False [0] 1 (demo_client, demo_local) =
      (let ((r, bs), w1) = sys_read fsys_os 3 1 demo_local in Inr (wrap32 r, store_bytes [0] bs, demo_client, w1))"
  by (rule local_reads_are_real_reads [OF demo_counters_ok]) (simp add: demo_client_def)

text \<open>
  A fallback does not continue where the remote reads stopped. After two bytes were read
  through the server, a read whose deadline passes is repeated on the local descriptor, whose own
  offset never moved: the program gets the first two bytes of the file a second time.
\<close>

theorem fallback_read_repeats_bytes:
  "\<exists>c1. wrap_read fsys_os demo_cenv demo_hs demo_cb [Push [10, 20], Callback 0 0 2] 7 False [0, 0] 2
      (demo_client, demo_local) = Inr (2, [10, 20], c1, demo_local) \<and>
    (\<exists>c2 w2. wrap_read fsys_os demo_cenv demo_hs demo_cb [Deadline] 7 False [0, 0] 2 (c1, demo_local) =
      Inr (2, [10, 20], c2, w2))"
proof -
  let ?c1 = "demo_client\<lparr>sent := sent demo_client @ [(0, Read_Req (mk_rpc_in (wrap64 2) 0 0 7 (-1) 0))]\<rparr>"
  have 1: "remote_read_at demo_cenv demo_hs demo_cb [Push [10, 20], Callback 0 0 2] 7 False [0, 0] 2 (-1)
      demo_client = Inr (2, store_bytes [0, 0] [10, 20], ?c1)"
    by (rule demo_read(1) [where x = 0 and xs = "[0]"]) (simp_all add: demo_client_def demo_like_def)
  obtain c2 where 2: "remote_read_at demo_cenv demo_hs demo_cb [Deadline] 7 False [0, 0] 2 (-1) ?c1 =
      Inr (-1, [0, 0], c2)"
    using demo_read(2) [of ?c1 7 "''/d/a''" 0 0 "[0]" "[0, 0]" 2 "-1"]
    by (simp add: demo_client_def demo_like_def)
  have "sys_read fsys_os 7 2 demo_local =
      ((2, [10, 20]), demo_local\<lparr>fs_table := [7 \<mapsto> (''/d/a'', 2)]\<rparr>)"
    by (simp add: demo_local_def fsys_read_def fsys_data_def Let_def)
  with 2 have "wrap_read fsys_os demo_cenv demo_hs demo_cb [Deadline] 7 False [0, 0] 2 (?c1, demo_local) =
      Inr (2, [10, 20], c2, demo_local\<lparr>fs_table := [7 \<mapsto> (''/d/a'', 2)]\<rparr>)"
    by (simp add: wrap_read_def ftc_remote_read_def store_bytes_def Let_def)
  moreover from 1 have "wrap_read fsys_os demo_cenv demo_hs demo_cb [Push [10, 20], Callback 0 0 2] 7 False
      [0, 0] 2 (demo_client, demo_local) = Inr (2, [10, 20], ?c1, demo_local)"
    by (simp add: wrap_read_def ftc_remote_read_def store_bytes_def Let_def)
  ultimately show ?thesis by blast
qed

section \<open>Descriptors\<close>

text \<open>
  An open whose deadline passes still counts as tracked, but the client never learnt a remote
  descriptor. Whatever the next read of it does, it either sends nothing or asks the server for
  descriptor 0.
\<close>

theorem timed_out_open_reads_descriptor_zero:
  assumes "counters_ok c" and "fd_redir_map c fd = None"
    and "ftc_track_file canonical cwd env hs cb es p flags fd c = Inr (True, c1)"
    and "wait_ends es = Timed_Out"
    and "remote_read_at env hs' cb' es' fd nul buf count off c1 = Inr (r, b, c2)"
  shows "fd_map c1 fd \<noteq> None \<and> fd_redir_map c1 fd = None \<and>
    (sent c2 = sent c1 \<or>
     (\<exists>h q. sent c2 = sent c1 @ [(h, Read_Req q)] \<and> accessfd q = 0 \<and> read_localfd q = wrap32 fd))"
proof -
  from tracking_entered [OF assms(1,3)] have m: "fd_map c1 fd \<noteq> None" .
  from timed_out_open_keeps_redirects [OF assms(1,3,4)] assms(2)
  have d: "fd_redir_map c1 fd = None" by simp
  from remote_read_request [OF assms(5)] d have "sent c2 = sent c1 \<or>
     (\<exists>h q. sent c2 = sent c1 @ [(h, Read_Req q)] \<and> accessfd q = 0 \<and> read_localfd q = wrap32 fd)"
    by (auto simp: mk_rpc_in_def)
  with m d show ?thesis by blast
qed

theorem timed_out_open_reads_descriptor_zero_witness:
  "\<exists>(c1 :: client) (c2 :: client). fd_map c1 9 \<noteq> None \<and> fd_redir_map c1 9 = None \<and>
    (sent c2 = sent c1 \<or>
     (\<exists>h q. sent c2 = sent c1 @ [(h, Read_Req q)] \<and> accessfd q = 0 \<and> read_localfd q = wrap32 9))"
proof -
  obtain c1 where t: "ftc_track_file Some ''/w'' demo_cenv demo_hs demo_cb [Deadline] ''/data2/a'' 0 9
     (demo_client\<lparr>ftc_data_dir := Some ''/data''\<rparr>) = Inr (True, c1)"
    and c1: "fd_map c1 9 = Some ''/data2/a''" "timeout_counters c1 = [1, 0]" "g_ftc_server_count c1 = 2"
      "demo_like c1" "fd_redir_map c1 = [7 \<mapsto> 0]"
    using demo_sibling_timeout by metis
  have ok: "counters_ok (demo_client\<lparr>ftc_data_dir := Some ''/data''\<rparr>)"
    using demo_counters_ok by (simp add: counters_ok_def)
  have none: "fd_redir_map (demo_client\<lparr>ftc_data_dir := Some ''/data''\<rparr>) 9 = None"
    by (simp add: demo_client_def)
  obtain r b c2 where "remote_read_at demo_cenv demo_hs demo_cb [Deadline] 9 False [0] 1 0 c1 = Inr (r, b, c2)"
    using c1 by (simp add: remote_read_at_def ftc_file_tracked_iff demo_host demo_limit read_block_eq
        demo_gen_read_default count_timeout_def)
  from timed_out_open_reads_descriptor_zero [OF ok none t wait_ends.simps(6) this]
  show ?thesis by (intro exI [of _ c1] exI [of _ c2])
qed

text \<open>
  C31. Closing a tracked descriptor forgets it and returns what the real close returns. A live
  server is sent one request with the remote descriptor, which is forgotten too; a server at the
  limit is sent nothing.
\<close>

theorem close_forgets_the_descriptor:
  assumes "counters_ok c" and "fd_map c fd = Some p" and "\<not> redirect_disabled c"
    and "select_host (ce_hash env) (g_ftc_server_count c) p = Inr h"
    and "wrap_close os env hs fd (c, w) = Inr (r, c', w')"
  shows "sys_close os fd w = (r, w') \<and> fd_map c' = (fd_map c)(fd := None) \<and>
    (if TIMEOUT_LIMIT \<le> timeout_counters c ! nat h then sent c' = sent c
     else fd_redir_map c' = (fd_redir_map c)(fd := None) \<and>
       (\<exists>q. sent c' = sent c @ [(h, Close_Req q)] \<and>
          close_fd q = wrap32 (case fd_redir_map c fd of None \<Rightarrow> 0 | Some k \<Rightarrow> k)))"
proof -
  obtain r1 w1 where cl: "sys_close os fd w = (r1, w1)" by fastforce
  from assms(2,3,5) obtain b where b: "ftc_remove_fd env hs fd c = Inr (b, c')"
    "sys_close os fd w = (r, w')"
    by (auto simp: wrap_close_def ftc_get_path_eq andThen_iffs cl)
  from b(1) assms(2) obtain c1 where c1: "ftc_remote_close env hs fd c = Inr c1"
    "c' = c1\<lparr>fd_map := (fd_map c1)(fd := None)\<rparr>"
    by (auto simp: ftc_remove_fd_def andThen_iffs split: if_splits)
  have map: "fd_map c1 = fd_map c"
    using remote_close_contact [OF assms(1) c1(1)] by (simp add: rpc_frame_def)
  obtain g where g: "select_host (ce_hash env) (g_ftc_server_count c) p = Inr g" "uwrap32 g = g"
    "limit_reached c g = Inr (timeout_counters c ! nat g \<ge> TIMEOUT_LIMIT)"
    using counters_ok_host [OF assms(1)] by metis
  have key: "fst (subscript 0 (fd_redir_map c) fd) = (case fd_redir_map c fd of None \<Rightarrow> 0 | Some k \<Rightarrow> k)"
    by (simp add: subscript_def split: option.splits)
  have eq: "ftc_remote_close env hs fd c =
      (if TIMEOUT_LIMIT \<le> timeout_counters c ! nat h then Inr c
       else ftc_client_comm_gen_close_rpc env hs h fd c)"
    using g assms(2,4) by (simp add: ftc_remote_close_def ftc_file_tracked_iff)
  show ?thesis
  proof (cases "TIMEOUT_LIMIT \<le> timeout_counters c ! nat h")
    case True
    with eq c1 b(2) show ?thesis by simp
  next
    case False
    with eq c1(1) have "ftc_client_comm_gen_close_rpc env hs h fd c = Inr c1" by simp
    from gen_close_sent [OF this] False c1(2) b(2) map key show ?thesis by simp
  qed
qed

theorem close_forgets_the_descriptor_witness:
  "\<exists>c' w'. fd_map c' = (fd_map (demo_client\<lparr>timeout_counters := [3, 0]\<rparr>))(7 := None) \<and>
    wrap_close fsys_os demo_cenv demo_hs 7 (demo_client\<lparr>timeout_counters := [3, 0]\<rparr>, demo_local) =
      Inr (0, c', w')"
proof -
  let ?c = "demo_client\<lparr>timeout_counters := [3, 0]\<rparr>"
  have ok: "counters_ok ?c" by (simp add: counters_ok_def demo_client_def TIMEOUT_LIMIT_def)
  obtain c' w' where run: "wrap_close fsys_os demo_cenv demo_hs 7 (?c, demo_local) = Inr (0, c', w')"
    by (simp add: wrap_close_def redirect_disabled_def ftc_get_path_eq demo_client_def ftc_remove_fd_def
        ftc_remote_close_def ftc_file_tracked_iff demo_host demo_limit fsys_close_def demo_local_def)
  from close_forgets_the_descriptor [OF ok _ _ _ run, of "''/d/a''" 0] run show ?thesis
    by (auto simp: demo_client_def redirect_disabled_def demo_host)
qed

text \<open>
  The map of descriptors survives a close the library does not see, such as that of a stream:
  when an open that is not to be tracked receives a descriptor which is still in the map, the
  descriptor keeps the old path and its reads go on to the old file's server.
\<close>

theorem stale_descriptor_survives_open:
  assumes "fd_map c fd = Some old" and "\<not> redirect_disabled c"
    and "real_open p flags None w = (fd, w1)" and "fd \<noteq> -1" and "flags AND O_CREAT = 0"
    and "tracked_path (\<lambda>q. fs_canonical os q w1) (fs_current_path os w1) (ftc_data_dir c) p = None"
  shows "wrap_open real_open os env hs cb es p flags m (c, w) = Inr (fd, c, w1) \<and>
    ftc_get_path c fd = Some old"
  using assms by (simp add: wrap_open_def wrap_track_def ftc_track_file_def ftc_get_path_eq Let_def)

theorem stale_descriptor_survives_open_witness:
  "wrap_open (\<lambda>p f m w. (7, w)) fsys_os demo_cenv demo_hs demo_cb [] ''/x'' 0 0 (demo_client, demo_local) =
     Inr (7, demo_client, demo_local) \<and> ftc_get_path demo_client 7 = Some ''/d/a''"
  by (rule stale_descriptor_survives_open)
    (simp_all add: demo_client_def redirect_disabled_def tracked_path_def demo_local_def)

section \<open>Requests that go wrong\<close>

text \<open>
  Opening a tracked file whose path has 256 characters or more reads past the log record when
  the log file can be opened: the path fills its array and no terminator is stored.
\<close>

theorem long_path_overruns_the_log:
  assumes "256 \<le> length p" and "no_nul p"
    and "lookup_addr env h c = Inr (a, c1)" and "create_ret hs = 0"
    and "server_flag env a c1 = Inr fl"
    and "log_openable (ce_log env) (log_filename (ce_log env) ''client'' (wrap32 h))"
  shows "ftc_client_comm_gen_open_rpc env hs h p fd c = Inl Overrun"
proof -
  have "NUL \<notin> set (strncpy_array 256 p)"
    using assms(1,2) unfolding NUL_in_strncpy_array by (auto simp: no_nul_def dest: in_set_takeD)
  then have "\<not> log_ok (request_log (strncpy_array 256 p) ''open'' ''CRequest'' fl h fd (send_clock hs) c1)"
    by (simp add: log_ok_def request_log_def)
  then have "client_log env (request_log (strncpy_array 256 p) ''open'' ''CRequest'' fl h fd
      (send_clock hs) c1) c1 = Inl Overrun"
    using assms(6) by (simp add: client_log_def logging_info_def log_line_overrun request_log_def Let_def)
  with assms(3-5) show ?thesis by (simp add: ftc_client_comm_gen_open_rpc_def Let_def)
qed

theorem long_path_overruns_the_log_witness:
  "ftc_client_comm_gen_open_rpc (demo_cenv\<lparr>ce_log := \<lparr>log_dir = None, log_openable = (\<lambda>f. True)\<rparr>\<rparr>)
     demo_hs 0 (replicate 256 CHR ''p'') 7 demo_client = Inl Overrun"
proof (rule long_path_overruns_the_log [where a = "HG_ADDR ''t:h:1''" and fl = 0])
  show "no_nul (replicate 256 CHR ''p'')" by (simp add: no_nul_def NUL_def)
  show "lookup_addr (demo_cenv\<lparr>ce_log := \<lparr>log_dir = None, log_openable = (\<lambda>f. True)\<rparr>\<rparr>) 0 demo_client =
      Inr (HG_ADDR ''t:h:1'', demo_client)"
    using demo_lookup [of demo_client] by (simp add: lookup_addr_def demo_cenv_def demo_client_def)
  show "server_flag (demo_cenv\<lparr>ce_log := \<lparr>log_dir = None, log_openable = (\<lambda>f. True)\<rparr>\<rparr>)
      (HG_ADDR ''t:h:1'') demo_client = Inr 0"
    using demo_server_flag [of demo_client] by (simp add: server_flag_def demo_client_def)
qed (simp_all add: demo_hs_def)

text \<open>
  A seek on a tracked descriptor has no deadline and ignores the timeout counters: unless the
  server answers, it never returns, however many deadlines pass and even when the server has
  been given up by every other operation.
\<close>

theorem unanswered_seek_never_returns:
  assumes "fd_map c fd = Some p"
    and "select_host (ce_hash env) (g_ftc_server_count c) p = Inr h"
    and "ftc_client_comm_gen_seek_rpc env hs (uwrap32 h) fd off wh c = Inr c1"
    and "\<forall>i r v. Callback i r v \<notin> set es"
  shows "ftc_remote_lseek env hs es fd off wh c = Inl Never_Returns"
proof -
  have "ftc_seek_block es (0, x) = Inl Never_Returns" for x
    using assms(4) by (induction es) (auto split: rpc_event.splits)
  with assms(1-3) show ?thesis by (simp add: ftc_remote_lseek_def ftc_file_tracked_iff)
qed

theorem unanswered_seek_never_returns_witness:
  "ftc_remote_lseek demo_cenv demo_hs [Deadline, Deadline] 7 0 0 (demo_client\<lparr>timeout_counters := [3, 0]\<rparr>) =
     Inl Never_Returns"
proof -
  let ?c = "demo_client\<lparr>timeout_counters := [3, 0]\<rparr>"
  obtain c1 where "ftc_client_comm_gen_seek_rpc demo_cenv demo_hs (uwrap32 0) 7 0 0 ?c = Inr c1"
    by (simp add: ftc_client_comm_gen_seek_rpc_def demo_lookup demo_client_def demo_hs_def
        hg_forward_def Let_def)
  from unanswered_seek_never_returns [OF _ _ this, of "''/d/a''" "[Deadline, Deadline]"] show ?thesis
    by (simp add: demo_client_def demo_host)
qed

end
