(* ===== verification/Client_Threads.thy ===== *)
theory Client_Threads
  imports Client_Cache
begin

unbundle bit_operations_syntax

text \<open>
  A client with several threads, as a data loader has them. \<open>Client_Cache\<close> runs one operation
  after the other; here the threads of the program interleave where an operation waits or gives
  up \<^verbatim>\<open>timeout_mutex\<close>: after the check of the counter, after the request, and while the answer is
  outstanding. A request keeps pointers to the stack frame of the thread that sent it and to its
  buffer, and stays outstanding when the thread gives up, so that an answer can come when that
  frame is gone. Seeks share the globals \<open>done\<close> and \<open>read_ret\<close>. The lemmas show that the
  operations of \<open>Client_Cache\<close> are the runs of a single thread, and bound the counters.
\<close>

section \<open>The parts of the operations\<close>

text \<open>The check at the start of a remote read: the host to ask, or \<open>None\<close> to give up.\<close>

definition read_check :: "client_env \<Rightarrow> int \<Rightarrow> client \<Rightarrow> int option res" where
  "read_check env fd c =
     (if ftc_file_tracked c fd
      then
        andThen (select_host (ce_hash env) (g_ftc_server_count c) (the (fd_map c fd))) (\<lambda>host.
        andThen (limit_reached c host) (\<lambda>skip. Inr (if skip then None else Some (uwrap32 host))))
      else Inr None)"

text \<open>The decision to track a file, with the entry in \<open>fd_map\<close> and the same check.\<close>

definition track_check ::
  "(path \<Rightarrow> path option) \<Rightarrow> path \<Rightarrow> client_env \<Rightarrow> path \<Rightarrow> int \<Rightarrow> int \<Rightarrow> client \<Rightarrow>
   ((path \<times> int) option \<times> client) res" where
  "track_check canonical current_path env p flags fd c =
     (if contains ''.ports.cfg.'' p \<or> flags AND O_ACCMODE = O_WRONLY \<or> flags AND O_APPEND \<noteq> 0
      then Inr (None, c)
      else
        (case tracked_path canonical current_path (ftc_data_dir c) p of
           None \<Rightarrow> Inr (None, c)
         | Some cp \<Rightarrow>
             andThen (start_mercury env (c\<lparr>fd_map := (fd_map c)(fd \<mapsto> cp)\<rparr>)) (\<lambda>c1.
             andThen (select_host (ce_hash env) (g_ftc_server_count c1) cp) (\<lambda>host.
             andThen (limit_reached c1 host) (\<lambda>skip.
             Inr (if skip then None else Some (cp, uwrap32 host), c1))))))"

text \<open>What a thread has asked for: a read into a buffer, or the remote open of a path.\<close>

datatype call = Read_Call int nat int int | Open_Call path int

fun send_call :: "client_env \<Rightarrow> hg_send \<Rightarrow> int \<Rightarrow> call \<Rightarrow> client \<Rightarrow> client res" where
  "send_call env hs host (Read_Call fd b count off) c =
     ftc_client_comm_gen_read_rpc env hs host fd False (wrap64 count) off c"
| "send_call env hs host (Open_Call cp fd) c = ftc_client_comm_gen_open_rpc env hs host cp fd c"

text \<open>The callback of a request, on the caller's \<open>bytes_read\<close> and the client's state.\<close>

fun answer_call ::
  "client_env \<Rightarrow> cb_call \<Rightarrow> int \<Rightarrow> call \<Rightarrow> int \<Rightarrow> int \<Rightarrow> int \<Rightarrow> int \<times> client \<Rightarrow> (int \<times> client) res" where
  "answer_call env cb host (Read_Call fd b count off) i r v s = ftc_read_cb env cb host fd i r v s"
| "answer_call env cb host (Open_Call cp fd) i r v s =
     andThen (ftc_open_cb env cb host cp fd i v (snd s)) (\<lambda>c. Inr (fst s, c))"

text \<open>What the operation returns after its answer, and after its deadline.\<close>

fun call_result :: "call \<Rightarrow> int \<Rightarrow> int" where
  "call_result (Read_Call fd b count off) bytes_read = bytes_read"
| "call_result (Open_Call cp fd) bytes_read = 1"

lemma remote_read_parts:
  "remote_read_at env hs cb evs fd False buf count off c =
     andThen (read_check env fd c) (\<lambda>next.
     case next of
       None \<Rightarrow> Inr (-1, buf, c)
     | Some host \<Rightarrow>
         andThen (send_call env hs host (Read_Call fd b count off) c) (\<lambda>c1.
         ftc_read_block host (answer_call env cb host (Read_Call fd b count off)) evs buf (-1) c1))"
proof -
  have "answer_call env cb host (Read_Call fd b count off) = ftc_read_cb env cb host fd" for host
    by (simp add: fun_eq_iff)
  then show ?thesis
    by (auto simp: remote_read_at_def read_check_def andThen_def split: sum.splits option.splits)
qed

lemma track_file_parts:
  "ftc_track_file canonical current_path env hs cb evs p flags fd c =
     andThen (track_check canonical current_path env p flags fd c) (\<lambda>(next, c1).
     case next of
       None \<Rightarrow> Inr (False, c1)
     | Some (cp, host) \<Rightarrow>
         andThen (send_call env hs host (Open_Call cp fd) c1) (\<lambda>c2.
         andThen (ftc_client_block host (\<lambda>i r v s. ftc_open_cb env cb host cp fd i v s) evs c2)
           (\<lambda>c3. Inr (True, c3))))"
  by (auto simp: ftc_track_file_def track_check_def andThen_def Let_def
      split: sum.splits option.splits)

section \<open>The threads\<close>

text \<open>
  Where a thread stands. \<open>Waiting\<close> holds the number of its request and the variables on its stack,
  \<open>done\<close> and \<open>bytes_read\<close>; \<open>Returned\<close> is a thread outside the library, with the last result.
\<close>

datatype frame =
    Returned int
  | Sending call int
  | Waiting call int nat bool int
  | Seek_Reset int int int int
  | Seek_Waiting

record request =
  rq_call :: call
  rq_host :: int
  rq_thread :: nat

text \<open>
  \<open>memory\<close> holds the buffers of the program, \<open>requests\<close> the requests Mercury still has, \<open>next_request\<close>
  the number of the next one, \<open>seek_requests\<close> how many seeks are unanswered; \<open>seek_done\<close> and
  \<open>seek_ret\<close> are the globals \<open>done\<close> and \<open>read_ret\<close>.
\<close>

record pool =
  shared :: client
  frames :: "nat \<Rightarrow> frame"
  memory :: "nat \<Rightarrow> byte list"
  requests :: "nat \<rightharpoonup> request"
  next_request :: nat
  seek_done :: int
  seek_ret :: int
  seek_requests :: nat

text \<open>Whether the frame a request points to is still there.\<close>

definition frame_live :: "pool \<Rightarrow> nat \<Rightarrow> bool" where
  "frame_live p rid \<longleftrightarrow>
     (case requests p rid of
        None \<Rightarrow> False
      | Some rq \<Rightarrow>
          (case frames p (rq_thread rq) of Waiting call host rid' dn br \<Rightarrow> rid' = rid | _ \<Rightarrow> False))"

abbreviation set_frame :: "nat \<Rightarrow> frame \<Rightarrow> pool \<Rightarrow> pool" where
  "set_frame t f p \<equiv> p\<lparr>frames := (frames p)(t := f)\<rparr>"

text \<open>
  \<open>pool_step env n p r\<close>: one of the \<open>n\<close> threads or the progress thread acts; \<open>r\<close> is the new state
  or the fault the process dies of. A callback that finds its thread waiting stores the answer;
  one that comes after the deadline writes to a frame that is gone. Pushed data goes to the buffer
  in either case. A wait may return at its deadline even when \<open>done\<close> has been set. A thread outside
  the library may change its buffers.
\<close>

inductive pool_step :: "client_env \<Rightarrow> nat \<Rightarrow> pool \<Rightarrow> pool res \<Rightarrow> bool" for env n where
  p_read: "t < n \<Longrightarrow> frames p t = Returned x \<Longrightarrow> read_check env fd (shared p) = Inr (Some host) \<Longrightarrow>
    pool_step env n p (Inr (set_frame t (Sending (Read_Call fd b count off) host) p))"
| p_read_skip: "t < n \<Longrightarrow> frames p t = Returned x \<Longrightarrow> read_check env fd (shared p) = Inr None \<Longrightarrow>
    pool_step env n p (Inr (set_frame t (Returned (-1)) p))"
| p_track: "t < n \<Longrightarrow> frames p t = Returned x \<Longrightarrow>
    track_check canonical cwd env path flags fd (shared p) = Inr (Some (cp, host), c') \<Longrightarrow>
    pool_step env n p (Inr ((set_frame t (Sending (Open_Call cp fd) host) p)\<lparr>shared := c'\<rparr>))"
| p_track_skip: "t < n \<Longrightarrow> frames p t = Returned x \<Longrightarrow>
    track_check canonical cwd env path flags fd (shared p) = Inr (None, c') \<Longrightarrow>
    pool_step env n p (Inr ((set_frame t (Returned 0) p)\<lparr>shared := c'\<rparr>))"
| p_send: "t < n \<Longrightarrow> frames p t = Sending call host \<Longrightarrow>
    send_call env hs host call (shared p) = Inr c' \<Longrightarrow>
    pool_step env n p (Inr ((set_frame t (Waiting call host (next_request p) False (-1)) p)
      \<lparr>shared := c', next_request := Suc (next_request p),
       requests := (requests p)(next_request p \<mapsto> \<lparr>rq_call = call, rq_host = host, rq_thread = t\<rparr>)\<rparr>))"
| p_push: "requests p rid = Some rq \<Longrightarrow> rq_call rq = Read_Call fd b count off \<Longrightarrow>
    pool_step env n p (Inr (p\<lparr>memory := (memory p)(b := store_bytes (memory p b) bs)\<rparr>))"
| p_answer: "requests p rid = Some rq \<Longrightarrow> rq_thread rq = t \<Longrightarrow>
    frames p t = Waiting call host rid dn br \<Longrightarrow>
    answer_call env cb host call i r v (br, shared p) = Inr (br', c') \<Longrightarrow>
    pool_step env n p (Inr ((set_frame t (Waiting call host rid True br') p)
      \<lparr>shared := c', requests := (requests p)(rid := None)\<rparr>))"
| p_late: "requests p rid = Some rq \<Longrightarrow> \<not> frame_live p rid \<Longrightarrow> pool_step env n p (Inl Dangling)"
| p_wake: "t < n \<Longrightarrow> frames p t = Waiting call host rid True br \<Longrightarrow>
    pool_step env n p (Inr (set_frame t (Returned (call_result call br)) p))"
| p_deadline: "t < n \<Longrightarrow> frames p t = Waiting call host rid dn br \<Longrightarrow>
    count_timeout host (shared p) = Inr c' \<Longrightarrow>
    pool_step env n p (Inr ((set_frame t (Returned (call_result call (-1))) p)\<lparr>shared := c'\<rparr>))"
| p_close: "t < n \<Longrightarrow> frames p t = Returned x \<Longrightarrow> ftc_remove_fd env hs fd (shared p) = Inr (b, c') \<Longrightarrow>
    pool_step env n p (Inr (p\<lparr>shared := c'\<rparr>))"
| p_program: "t < n \<Longrightarrow> frames p t = Returned x \<Longrightarrow>
    pool_step env n p (Inr (p\<lparr>memory := (memory p)(b := bs)\<rparr>))"
| p_seek: "t < n \<Longrightarrow> frames p t = Returned x \<Longrightarrow> ftc_file_tracked (shared p) fd \<Longrightarrow>
    select_host (ce_hash env) (g_ftc_server_count (shared p)) (the (fd_map (shared p) fd)) = Inr h \<Longrightarrow>
    pool_step env n p (Inr ((set_frame t (Seek_Reset (uwrap32 h) fd off wh) p)
      \<lparr>seek_done := 0, seek_ret := -1\<rparr>))"
| p_seek_send: "t < n \<Longrightarrow> frames p t = Seek_Reset host fd off wh \<Longrightarrow>
    ftc_client_comm_gen_seek_rpc env hs host fd off wh (shared p) = Inr c' \<Longrightarrow>
    pool_step env n p (Inr ((set_frame t Seek_Waiting p)
      \<lparr>shared := c', seek_requests := Suc (seek_requests p)\<rparr>))"
| p_seek_answer: "seek_requests p = Suc k \<Longrightarrow> ftc_seek_cb v (seek_done p, seek_ret p) = (dn, ret) \<Longrightarrow>
    pool_step env n p (Inr (p\<lparr>seek_done := dn, seek_ret := ret, seek_requests := k\<rparr>))"
| p_seek_wake: "t < n \<Longrightarrow> frames p t = Seek_Waiting \<Longrightarrow> seek_done p = 1 \<Longrightarrow>
    pool_step env n p (Inr (set_frame t (Returned (seek_ret p)) p))"

inductive pool_run :: "client_env \<Rightarrow> nat \<Rightarrow> pool \<Rightarrow> pool \<Rightarrow> bool" for env n where
  pool_refl: "pool_run env n p p"
| pool_snoc: "pool_run env n p q \<Longrightarrow> pool_step env n q (Inr r) \<Longrightarrow> pool_run env n p r"

lemma pool_run_trans:
  assumes "pool_run env n p q" and "pool_run env n q r"
  shows "pool_run env n p r"
  using assms(2,1) by (induction rule: pool_run.induct) (auto intro: pool_run.intros)

lemma pool_run_one: "pool_step env n p (Inr q) \<Longrightarrow> pool_run env n p q"
  by (rule pool_snoc [OF pool_refl])

section \<open>The counters\<close>

text \<open>How many threads have passed the check for a host and not finished.\<close>

fun in_flight :: "int \<Rightarrow> frame \<Rightarrow> nat" where
  "in_flight h (Sending call host) = (if host = h then 1 else 0)"
| "in_flight h (Waiting call host rid dn br) = (if host = h then 1 else 0)"
| "in_flight h f = 0"

definition pending :: "nat \<Rightarrow> int \<Rightarrow> (nat \<Rightarrow> frame) \<Rightarrow> nat" where
  "pending n h fs = (\<Sum>t<n. in_flight h (fs t))"

lemma in_flight_le: "in_flight h f \<le> Suc 0"
  by (cases f) auto

lemma pending_le: "pending n h fs \<le> n"
  unfolding pending_def by (rule order_trans [OF sum_bounded_above [where K = 1]]) (auto simp: in_flight_le)

lemma pending_upd:
  assumes "t < n"
  shows "pending n h (fs(t := f)) + in_flight h (fs t) = pending n h fs + in_flight h f"
proof -
  have "pending n h fs = in_flight h (fs t) + (\<Sum>u\<in>{..<n} - {t}. in_flight h (fs u))"
    unfolding pending_def using assms by (intro sum.remove) auto
  moreover have "pending n h (fs(t := f)) = in_flight h f + (\<Sum>u\<in>{..<n} - {t}. in_flight h ((fs(t := f)) u))"
    unfolding pending_def using assms by (subst sum.remove [of _ t]) auto
  moreover have "(\<Sum>u\<in>{..<n} - {t}. in_flight h ((fs(t := f)) u)) = (\<Sum>u\<in>{..<n} - {t}. in_flight h (fs u))"
    by (rule sum.cong) auto
  ultimately show ?thesis by simp
qed

text \<open>
  One counter per server; what it holds and the threads that may still add to it stay within the
  limit and the number of threads.
\<close>

definition pool_ok :: "nat \<Rightarrow> pool \<Rightarrow> bool" where
  "pool_ok n p \<longleftrightarrow> counters_sized (shared p) \<and>
     (\<forall>h. 0 \<le> h \<longrightarrow> h < g_ftc_server_count (shared p) \<longrightarrow>
        0 \<le> timeout_counters (shared p) ! nat h \<and>
        timeout_counters (shared p) ! nat h + int (pending n h (frames p)) \<le> TIMEOUT_LIMIT - 1 + int n)"

lemma pool_ok_frames:
  assumes "pool_ok n p" and "t < n" and "\<And>h. in_flight h f \<le> in_flight h (frames p t)"
    and "timeout_counters c' = timeout_counters (shared p)"
    and "g_ftc_server_count c' = g_ftc_server_count (shared p)"
    and "frames q = (frames p)(t := f)" and "shared q = c'"
  shows "pool_ok n q"
proof -
  have "pending n h (frames q) \<le> pending n h (frames p)" for h
    using pending_upd [OF assms(2), of h "frames p" f] assms(3) [of h] assms(6) by simp
  then have "int (pending n h (frames q)) \<le> int (pending n h (frames p))" for h by simp
  with assms(1,4,5,7) show ?thesis
    unfolding pool_ok_def counters_sized_def by (smt (verit))
qed

text \<open>Passing the check makes room for one more.\<close>

lemma pool_ok_check:
  assumes "pool_ok n p" and "t < n"
    and "timeout_counters c' = timeout_counters (shared p)"
    and "g_ftc_server_count c' = g_ftc_server_count (shared p)"
    and "timeout_counters (shared p) ! nat host < TIMEOUT_LIMIT"
    and "frames q = (frames p)(t := Sending call host)"
    and "\<And>h. in_flight h (frames p t) = 0" and "shared q = c'"
  shows "pool_ok n q"
  unfolding pool_ok_def
proof (intro conjI allI impI)
  show "counters_sized (shared q)" using assms by (simp add: pool_ok_def counters_sized_def)
  fix h
  assume h: "0 \<le> h" "h < g_ftc_server_count (shared q)"
  with assms(1,3,4,8) show "0 \<le> timeout_counters (shared q) ! nat h" by (simp add: pool_ok_def)
  have le: "pending n h (frames q) \<le> n" by (rule pending_le)
  show "timeout_counters (shared q) ! nat h + int (pending n h (frames q)) \<le> TIMEOUT_LIMIT - 1 + int n"
  proof (cases "h = host")
    case True
    with assms(3,5,8) le show ?thesis by simp
  next
    case False
    then have "pending n h (frames q) = pending n h (frames p)"
      using pending_upd [OF assms(2), of h "frames p" "Sending call host"] assms(6,7) by simp
    with assms(1,3,4,8) h show ?thesis by (simp add: pool_ok_def)
  qed
qed

text \<open>What the parts of the operations do to the counters.\<close>

definition same_counters :: "client \<Rightarrow> client \<Rightarrow> bool" where
  "same_counters c c' \<longleftrightarrow> timeout_counters c' = timeout_counters c \<and>
     g_ftc_server_count c' = g_ftc_server_count c"

lemma same_counters_refl [simp]: "same_counters c c"
  by (simp add: same_counters_def)

lemma limit_reached_below:
  assumes "counters_sized c" and "select_host f (g_ftc_server_count c) q = Inr h"
    and "limit_reached c h = Inr False"
  shows "timeout_counters c ! nat (uwrap32 h) < TIMEOUT_LIMIT"
proof -
  have "0 \<le> h" "h < g_ftc_server_count c"
    using select_host_range [of "g_ftc_server_count c" f q] assms(1,2) by (auto simp: counters_sized_def)
  with assms show ?thesis
    by (auto simp: limit_reached_def counters_sized_def split: if_splits)
qed

lemma read_check_below:
  "counters_sized c \<Longrightarrow> read_check env fd c = Inr (Some host) \<Longrightarrow>
   timeout_counters c ! nat host < TIMEOUT_LIMIT"
  by (auto simp: read_check_def andThen_iffs split: if_splits dest: limit_reached_below)

lemma track_check_effect:
  assumes "counters_sized c" and "track_check canonical cwd env p flags fd c = Inr (next', c')"
  shows "same_counters c c' \<and> (\<forall>cp host. next' = Some (cp, host) \<longrightarrow>
    timeout_counters c' ! nat host < TIMEOUT_LIMIT)"
proof (cases "contains ''.ports.cfg.'' p \<or> flags AND O_ACCMODE = O_WRONLY \<or> flags AND O_APPEND \<noteq> 0 \<or>
    tracked_path canonical cwd (ftc_data_dir c) p = None")
  case True
  with assms(2) show ?thesis by (auto simp: track_check_def split: if_splits)
next
  case False
  then obtain cp where cp: "tracked_path canonical cwd (ftc_data_dir c) p = Some cp" by auto
  with False assms(2) obtain host skip where c':
    "start_mercury env (c\<lparr>fd_map := (fd_map c)(fd \<mapsto> cp)\<rparr>) = Inr c'"
    "select_host (ce_hash env) (g_ftc_server_count c') cp = Inr host"
    "limit_reached c' host = Inr skip" "next' = (if skip then None else Some (cp, uwrap32 host))"
    by (auto simp: track_check_def andThen_iffs split: if_splits)
  have "counters_sized (c\<lparr>fd_map := (fd_map c)(fd \<mapsto> cp)\<rparr>)"
    using assms(1) by (simp add: counters_sized_def)
  from start_mercury_sized [OF this c'(1)] have same: "same_counters c c'"
    by (simp add: same_counters_def)
  with assms(1) have "counters_sized c'" by (simp add: same_counters_def counters_sized_def)
  from limit_reached_below [OF this c'(2)] c'(3,4) same show ?thesis by (auto split: if_splits)
qed

lemma send_call_effect: "send_call env hs host call c = Inr c' \<Longrightarrow> same_counters c c'"
  by (cases call) (auto simp: same_counters_def rpc_frame_def dest!: gen_read_sent gen_open_sent)

lemma answer_call_effect: "answer_call env cb host call i r v (br, c) = Inr (br', c') \<Longrightarrow> same_counters c c'"
  by (cases call) (auto simp: same_counters_def quiet_step_def rpc_frame_def andThen_iffs
      dest!: read_cb_effect open_cb_effect)

lemma remove_fd_effect: "ftc_remove_fd env hs fd c = Inr (b, c') \<Longrightarrow> same_counters c c'"
  by (auto simp: ftc_remove_fd_def ftc_remote_close_def andThen_iffs same_counters_def rpc_frame_def
      split: if_splits dest!: gen_close_sent)

lemma gen_seek_effect: "ftc_client_comm_gen_seek_rpc env hs host fd off wh c = Inr c' \<Longrightarrow> same_counters c c'"
  by (auto simp: same_counters_def rpc_frame_def dest!: gen_seek_sent)

lemma pool_ok_deadline:
  assumes "pool_ok n p" and "t < n" and "frames p t = Waiting call host rid dn br"
    and "count_timeout host (shared p) = Inr c'"
    and "frames q = (frames p)(t := Returned x)" and "shared q = c'"
  shows "pool_ok n q"
  unfolding pool_ok_def
proof (intro conjI allI impI)
  note eff = count_timeout_effect [OF assms(4)]
  have len: "nat host < length (timeout_counters (shared p))" using eff by simp
  show "counters_sized (shared q)"
    using assms(1,6) eff by (simp add: pool_ok_def counters_sized_def rpc_frame_def)
  fix h
  assume h: "0 \<le> h" "h < g_ftc_server_count (shared q)"
  then have h': "h < g_ftc_server_count (shared p)" using eff assms(6) by (simp add: rpc_frame_def)
  with assms(1) h(1) have old: "0 \<le> timeout_counters (shared p) ! nat h"
    "timeout_counters (shared p) ! nat h + int (pending n h (frames p)) \<le> TIMEOUT_LIMIT - 1 + int n"
    by (simp_all add: pool_ok_def)
  have pend: "pending n h (frames q) + (if host = h then 1 else 0) = pending n h (frames p)"
    using pending_upd [OF assms(2), of h "frames p" "Returned x"] assms(3,5) by simp
  have new: "timeout_counters (shared q) ! nat h =
      timeout_counters (shared p) ! nat h + (if host = h then 1 else 0)"
    using eff assms(6) h(1) len by (auto simp: nth_list_update eq_nat_nat_iff)
  show "0 \<le> timeout_counters (shared q) ! nat h" using old(1) new by simp
  show "timeout_counters (shared q) ! nat h + int (pending n h (frames q)) \<le> TIMEOUT_LIMIT - 1 + int n"
    using old(2) new pend by (auto split: if_splits)
qed

lemma pool_step_ok:
  assumes "pool_step env n p (Inr q)" and "pool_ok n p"
  shows "pool_ok n q"
proof -
  have sized: "counters_sized (shared p)" using assms(2) by (simp add: pool_ok_def)
  have quiet: "pool_ok n q"
    if "frames q = frames p" "same_counters (shared p) (shared q)" for q
    using assms(2) that by (simp add: pool_ok_def same_counters_def counters_sized_def)
  have leave: "pool_ok n q"
    if "t < n" "\<And>h. in_flight h f \<le> in_flight h (frames p t)" "frames q = (frames p)(t := f)"
      "same_counters (shared p) (shared q)" for t f q
    using pool_ok_frames [OF assms(2) that(1,2) _ _ that(3) refl] that(4) by (simp add: same_counters_def)
  have enter: "pool_ok n q"
    if "t < n" "frames p t = Returned x" "timeout_counters (shared q) ! nat host < TIMEOUT_LIMIT"
      "frames q = (frames p)(t := Sending call host)" "same_counters (shared p) (shared q)"
    for t x call host q
    using pool_ok_check [OF assms(2) that(1) _ _ _ that(4) _ refl] that(2,3,5)
    by (simp add: same_counters_def)
  from assms(1) show ?thesis
  proof (cases rule: pool_step.cases)
    case (p_read t x fd host b count off)
    show ?thesis
      by (rule enter [where t = t and host = host and call = "Read_Call fd b count off"])
        (use p_read read_check_below [OF sized p_read(4)] in simp_all)
  next
    case (p_track t x canonical cwd path flags fd cp host c')
    show ?thesis
      by (rule enter [where t = t and host = host and call = "Open_Call cp fd"])
        (use p_track track_check_effect [OF sized p_track(4)] in simp_all)
  next
    case (p_track_skip t x canonical cwd path flags fd c')
    show ?thesis
      by (rule leave [where t = t and f = "Returned 0"])
        (use p_track_skip track_check_effect [OF sized p_track_skip(4)] in simp_all)
  next
    case (p_send t call host hs c')
    show ?thesis
      by (rule leave [where t = t and f = "Waiting call host (next_request p) False (-1)"])
        (use p_send send_call_effect [OF p_send(4)] in simp_all)
  next
    case (p_answer rid rq t call host dn br cb i r v br' c')
    note same = answer_call_effect [OF p_answer(5)]
    show ?thesis
    proof (cases "t < n")
      case True
      show ?thesis
        by (rule leave [where t = t and f = "Waiting call host rid True br'"])
          (use True p_answer same in simp_all)
    next
      case False
      have "pending n h ((frames p)(t := f)) = pending n h (frames p)" for h f
        unfolding pending_def using False by (intro sum.cong) auto
      with p_answer(1) same assms(2) show ?thesis
        by (simp add: pool_ok_def same_counters_def counters_sized_def)
    qed
  next
    case (p_deadline t call host rid dn br c')
    show ?thesis
      by (rule pool_ok_deadline [OF assms(2) p_deadline(2,3,4)]) (simp_all add: p_deadline(1))
  next
    case (p_close t x hs fd b c')
    show ?thesis by (rule quiet) (use p_close remove_fd_effect in auto)
  next
    case (p_seek t x fd h off wh)
    show ?thesis by (rule leave [where t = t]) (use p_seek in simp_all)
  next
    case (p_seek_send t host fd off wh hs c')
    show ?thesis by (rule leave [where t = t]) (use p_seek_send gen_seek_effect in auto)
  next
    case (p_read_skip t x fd)
    show ?thesis by (rule leave [where t = t]) (use p_read_skip in simp_all)
  next
    case (p_wake t call host rid br)
    show ?thesis by (rule leave [where t = t]) (use p_wake in simp_all)
  next
    case (p_seek_wake t)
    show ?thesis by (rule leave [where t = t]) (use p_seek_wake in simp_all)
  qed (rule quiet; simp)+
qed

lemma pool_run_ok: "pool_run env n p q \<Longrightarrow> pool_ok n p \<Longrightarrow> pool_ok n q"
  by (induction rule: pool_run.induct) (auto dest: pool_step_ok)

text \<open>A pool no thread of which is inside the library.\<close>

definition pool_start :: "pool \<Rightarrow> bool" where
  "pool_start p \<longleftrightarrow> counters_ok (shared p) \<and> (\<forall>t. \<exists>x. frames p t = Returned x) \<and>
     requests p = Map.empty \<and> seek_requests p = 0"

lemma pool_ok_start:
  assumes "pool_start p" and "0 < n"
  shows "pool_ok n p"
proof -
  have "in_flight h (frames p t) = 0" for h t
    using assms(1) by (metis in_flight.simps(3) pool_start_def)
  then have "pending n h (frames p) = 0" for h by (simp add: pending_def)
  moreover have ok: "counters_ok (shared p)" using assms(1) by (simp add: pool_start_def)
  moreover have "timeout_counters (shared p) ! nat h \<in> set (timeout_counters (shared p))"
    if "0 \<le> h" "h < g_ftc_server_count (shared p)" for h
    using that ok by (intro nth_mem) (auto simp: counters_ok_def nat_less_iff)
  ultimately show ?thesis
    using assms(2) counters_ok_sized [OF ok]
    by (fastforce simp: pool_ok_def counters_ok_def TIMEOUT_LIMIT_def)
qed

section \<open>Outstanding requests\<close>

text \<open>A thread that waits for its answer has a request outstanding that points to its frame.\<close>

definition pool_wf :: "pool \<Rightarrow> bool" where
  "pool_wf p \<longleftrightarrow>
     (\<forall>t call host rid br. frames p t = Waiting call host rid False br \<longrightarrow>
        requests p rid = Some \<lparr>rq_call = call, rq_host = host, rq_thread = t\<rparr>) \<and>
     (\<forall>t call host rid dn br. frames p t = Waiting call host rid dn br \<longrightarrow> rid < next_request p) \<and>
     (\<forall>rid. requests p rid \<noteq> None \<longrightarrow> rid < next_request p)"

lemma pool_wf_start: "pool_start p \<Longrightarrow> pool_wf p"
  by (auto simp: pool_start_def pool_wf_def) (metis frame.distinct(3))+

lemma pool_wf_frame:
  assumes "pool_wf p" and "\<And>call host rid dn br. f \<noteq> Waiting call host rid dn br"
    and "frames q = (frames p)(t := f)" and "requests q = requests p" and "next_request q = next_request p"
  shows "pool_wf q"
  using assms unfolding pool_wf_def by (metis fun_upd_apply)

lemma pool_wf_same:
  "pool_wf p \<Longrightarrow> frames q = frames p \<Longrightarrow> requests q = requests p \<Longrightarrow>
   next_request q = next_request p \<Longrightarrow> pool_wf q"
  by (simp add: pool_wf_def)

lemma pool_step_wf:
  assumes "pool_step env n p (Inr q)" and "pool_wf p"
  shows "pool_wf q"
  using assms(1)
proof (cases rule: pool_step.cases)
  case (p_send t call host hs c')
  then show ?thesis
    using assms(2) unfolding pool_wf_def by (auto simp: less_Suc_eq split: if_splits) blast+
next
  case (p_answer rid rq t call host dn br cb i r v br' c')
  have "u = t" if "frames p u = Waiting call' host' rid False br''" for u call' host' br''
    using that p_answer(2,3) assms(2) unfolding pool_wf_def by (metis option.inject request.select_convs(3))
  with p_answer assms(2) show ?thesis
    unfolding pool_wf_def by (auto split: if_splits)
next
  case (p_read t x fd host b count off)
  show ?thesis by (rule pool_wf_frame [OF assms(2)]) (use p_read in auto)
next
  case (p_read_skip t x fd)
  show ?thesis by (rule pool_wf_frame [OF assms(2)]) (use p_read_skip in auto)
next
  case (p_track t x canonical cwd path flags fd cp host c')
  show ?thesis by (rule pool_wf_frame [OF assms(2)]) (use p_track in auto)
next
  case (p_track_skip t x canonical cwd path flags fd c')
  show ?thesis by (rule pool_wf_frame [OF assms(2)]) (use p_track_skip in auto)
next
  case (p_wake t call host rid br)
  show ?thesis by (rule pool_wf_frame [OF assms(2)]) (use p_wake in auto)
next
  case (p_deadline t call host rid dn br c')
  show ?thesis by (rule pool_wf_frame [OF assms(2)]) (use p_deadline in auto)
next
  case (p_seek t x fd h off wh)
  show ?thesis by (rule pool_wf_frame [OF assms(2)]) (use p_seek in auto)
next
  case (p_seek_send t host fd off wh hs c')
  show ?thesis by (rule pool_wf_frame [OF assms(2)]) (use p_seek_send in auto)
next
  case (p_seek_wake t)
  show ?thesis by (rule pool_wf_frame [OF assms(2)]) (use p_seek_wake in auto)
qed (rule pool_wf_same [OF assms(2)]; simp)+

lemma pool_run_wf: "pool_run env n p q \<Longrightarrow> pool_wf p \<Longrightarrow> pool_wf q"
  by (induction rule: pool_run.induct) (auto dest: pool_step_wf)

section \<open>A single thread\<close>

lemma pushes_run:
  assumes "requests p rid = Some rq" and "rq_call rq = Read_Call fd b count off"
  shows "pool_run env n p (p\<lparr>memory := (memory p)(b := fold (\<lambda>bs m. store_bytes m bs) bss (memory p b))\<rparr>)"
  using assms(1)
proof (induction bss arbitrary: p)
  case Nil
  then show ?case by (simp add: pool_refl)
next
  case (Cons bs bss)
  let ?p = "p\<lparr>memory := (memory p)(b := store_bytes (memory p b) bs)\<rparr>"
  have "pool_run env n p ?p"
    by (rule pool_run_one, rule p_push [OF Cons.prems assms(2)])
  moreover have "pool_run env n ?p (?p\<lparr>memory := (memory ?p)(b := fold (\<lambda>bs m. store_bytes m bs) bss (memory ?p b))\<rparr>)"
    by (rule Cons.IH) (simp add: Cons.prems)
  ultimately have "pool_run env n p
      (?p\<lparr>memory := (memory ?p)(b := fold (\<lambda>bs m. store_bytes m bs) bss (memory ?p b))\<rparr>)"
    by (rule pool_run_trans)
  then show ?case by (simp add: fun_upd_def cong: if_cong)
qed

lemma answered_run:
  assumes "t < n" and "frames p t = Waiting call host rid False br"
    and "requests p rid = Some \<lparr>rq_call = call, rq_host = host, rq_thread = t\<rparr>"
    and "answer_call env cb host call i r v (br, shared p) = Inr (br', c')"
  shows "\<exists>q. pool_run env n p q \<and> shared q = c' \<and> memory q = memory p \<and>
    frames q = (frames p)(t := Returned (call_result call br'))"
proof -
  let ?p = "(set_frame t (Waiting call host rid True br') p)
      \<lparr>shared := c', requests := (requests p)(rid := None)\<rparr>"
  have "pool_run env n p ?p"
    by (rule pool_run_one, rule p_answer [OF assms(3) _ assms(2,4)]) simp
  moreover have "pool_step env n ?p (Inr (set_frame t (Returned (call_result call br')) ?p))"
    by (rule p_wake [OF assms(1)]) simp
  ultimately have "pool_run env n p (set_frame t (Returned (call_result call br')) ?p)"
    by (rule pool_snoc)
  then show ?thesis by (intro exI [of _ "set_frame t (Returned (call_result call br')) ?p"]) simp
qed

lemma deadline_run:
  assumes "t < n" and "frames p t = Waiting call host rid dn br"
    and "count_timeout host (shared p) = Inr c'"
  shows "\<exists>q. pool_run env n p q \<and> shared q = c' \<and> memory q = memory p \<and>
    frames q = (frames p)(t := Returned (call_result call (-1)))"
  using pool_run_one [OF p_deadline [OF assms]]
  by (intro exI [of _ "(set_frame t (Returned (call_result call (-1))) p)\<lparr>shared := c'\<rparr>"]) simp

lemma tied_run:
  assumes "t < n" and "frames p t = Waiting call host rid False br"
    and "requests p rid = Some \<lparr>rq_call = call, rq_host = host, rq_thread = t\<rparr>"
    and "answer_call env cb host call i r v (br, shared p) = Inr (br', c1)"
    and "count_timeout host c1 = Inr c'"
  shows "\<exists>q. pool_run env n p q \<and> shared q = c' \<and> memory q = memory p \<and>
    frames q = (frames p)(t := Returned (call_result call (-1)))"
proof -
  let ?p = "(set_frame t (Waiting call host rid True br') p)
      \<lparr>shared := c1, requests := (requests p)(rid := None)\<rparr>"
  have run: "pool_run env n p ?p"
    by (rule pool_run_one, rule p_answer [OF assms(3) _ assms(2,4)]) simp
  from deadline_run [OF assms(1), of ?p call host rid True br' c' env] assms(5) obtain q where
    "pool_run env n ?p q" "shared q = c'" "memory q = memory p"
    "frames q = (frames p)(t := Returned (call_result call (-1)))" by auto
  with pool_run_trans [OF run] show ?thesis by blast
qed

lemma sent_run:
  assumes "t < n" and "frames p t = Sending call host"
    and "send_call env hs host call (shared p) = Inr c'"
  shows "\<exists>q rid. pool_run env n p q \<and> shared q = c' \<and> memory q = memory p \<and>
    frames q = (frames p)(t := Waiting call host rid False (-1)) \<and>
    requests q rid = Some \<lparr>rq_call = call, rq_host = host, rq_thread = t\<rparr>"
  using pool_run_one [OF p_send [OF assms]]
  by (intro exI [of _ "(set_frame t (Waiting call host (next_request p) False (-1)) p)
      \<lparr>shared := c', next_request := Suc (next_request p),
       requests := (requests p)(next_request p \<mapsto> \<lparr>rq_call = call, rq_host = host, rq_thread = t\<rparr>)\<rparr>"]
      exI [of _ "next_request p"]) simp

text \<open>A remote read of \<open>Client_Cache\<close> is a run of one thread.\<close>

lemma remote_read_run:
  assumes "t < n" and "frames p t = Returned x"
    and "remote_read_at env hs cb evs fd False (memory p b) count off (shared p) = Inr (r, buf, c')"
  shows "\<exists>q. pool_run env n p q \<and> shared q = c' \<and> frames q = (frames p)(t := Returned r) \<and>
    memory q = (memory p)(b := buf)"
proof -
  from assms(3) obtain next' where chk: "read_check env fd (shared p) = Inr next'"
    by (auto simp: remote_read_parts [where b = b] andThen_iffs)
  show ?thesis
  proof (cases next')
    case None
    with assms(3) chk have "r = -1" "buf = memory p b" "c' = shared p"
      by (simp_all add: remote_read_parts [where b = b])
    with pool_run_one [OF p_read_skip [OF assms(1,2) chk [unfolded None]]] show ?thesis
      by (intro exI [of _ "set_frame t (Returned (-1)) p"]) simp
  next
    case (Some host)
    let ?call = "Read_Call fd b count off"
    from assms(3) chk Some obtain c1 where c1: "send_call env hs host ?call (shared p) = Inr c1"
      and blk: "ftc_read_block host (answer_call env cb host ?call) evs (memory p b) (-1) c1 = Inr (r, buf, c')"
      by (auto simp: remote_read_parts [where b = b] andThen_iffs)
    let ?p1 = "set_frame t (Sending ?call host) p"
    have r1: "pool_run env n p ?p1"
      by (rule pool_run_one, rule p_read [OF assms(1,2) chk [unfolded Some]])
    obtain p2 rid where p2: "pool_run env n ?p1 p2" "shared p2 = c1" "memory p2 = memory p"
      "frames p2 = (frames p)(t := Waiting ?call host rid False (-1))"
      "requests p2 rid = Some \<lparr>rq_call = ?call, rq_host = host, rq_thread = t\<rparr>"
      using sent_run [OF assms(1), of ?p1 ?call host env hs c1] c1 by (auto simp: fun_upd_upd)
    let ?m = "received (memory p b) evs"
    let ?p3 = "p2\<lparr>memory := (memory p2)(b := ?m)\<rparr>"
    have r3: "pool_run env n p2 ?p3"
      using pushes_run [OF p2(5), of fd b count off env n "pushed_before evs"] p2(3)
      by (simp add: received_def)
    have f3: "frames ?p3 t = Waiting ?call host rid False (-1)" using p2(4) by simp
    have fin: "\<exists>q. pool_run env n ?p3 q \<and> shared q = c' \<and> memory q = memory ?p3 \<and>
        frames q = (frames ?p3)(t := Returned r) \<and> buf = ?m"
    proof (cases "wait_ends evs")
      case (Answered i w v)
      with blk obtain br where a: "answer_call env cb host ?call i w v (-1, c1) = Inr (br, c')"
        "r = br" "buf = ?m" by (auto simp: read_block_eq andThen_iffs)
      from answered_run [OF assms(1) f3, of env cb i w v br c'] a p2(2,5) show ?thesis by auto
    next
      case (Tied i w v)
      with blk obtain br d where a: "answer_call env cb host ?call i w v (-1, c1) = Inr (br, d)"
        "count_timeout host d = Inr c'" "r = -1" "buf = ?m" by (auto simp: read_block_eq andThen_iffs)
      from tied_run [OF assms(1) f3, of env cb i w v br d c'] a p2(2,5) show ?thesis by auto
    next
      case Timed_Out
      with blk have d: "count_timeout host c1 = Inr c'" "r = -1" "buf = ?m"
        by (auto simp: read_block_eq andThen_iffs)
      from deadline_run [OF assms(1) f3, of c' env] d p2(2) show ?thesis by auto
    next
      case Blocked
      with blk show ?thesis by (simp add: read_block_eq)
    qed
    from fin obtain q where q: "pool_run env n ?p3 q" "shared q = c'" "memory q = memory ?p3"
      "frames q = (frames ?p3)(t := Returned r)" "buf = ?m" by blast
    have "pool_run env n p q"
      by (rule pool_run_trans [OF r1 pool_run_trans [OF p2(1) pool_run_trans [OF r3 q(1)]]])
    with q p2(3,4) show ?thesis by (intro exI [of _ q]) (simp add: fun_upd_upd)
  qed
qed

text \<open>So is the tracking of a file with its remote open.\<close>

lemma track_file_run:
  assumes "t < n" and "frames p t = Returned x"
    and "ftc_track_file canonical cwd env hs cb evs path flags fd (shared p) = Inr (tracked, c')"
  shows "\<exists>q. pool_run env n p q \<and> shared q = c' \<and> memory q = memory p \<and>
    frames q = (frames p)(t := Returned (if tracked then 1 else 0))"
proof -
  from assms(3) obtain next' c0 where chk:
    "track_check canonical cwd env path flags fd (shared p) = Inr (next', c0)"
    by (auto simp: track_file_parts andThen_iffs)
  show ?thesis
  proof (cases next')
    case None
    with assms(3) chk have "\<not> tracked" "c' = c0" by (simp_all add: track_file_parts)
    with pool_run_one [OF p_track_skip [OF assms(1,2) chk [unfolded None]]] show ?thesis
      by (intro exI [of _ "(set_frame t (Returned 0) p)\<lparr>shared := c0\<rparr>"]) simp
  next
    case (Some a)
    obtain cp host where a: "a = (cp, host)" by (cases a)
    let ?call = "Open_Call cp fd"
    from assms(3) chk Some a obtain c1 where c1: "send_call env hs host ?call c0 = Inr c1"
      and blk: "ftc_client_block host (\<lambda>i r v s. ftc_open_cb env cb host cp fd i v s) evs c1 = Inr c'"
      and tr: "tracked"
      by (auto simp: track_file_parts andThen_iffs)
    let ?p1 = "(set_frame t (Sending ?call host) p)\<lparr>shared := c0\<rparr>"
    have r1: "pool_run env n p ?p1"
      by (rule pool_run_one, rule p_track [OF assms(1,2) chk [unfolded Some a]])
    obtain p2 rid where p2: "pool_run env n ?p1 p2" "shared p2 = c1" "memory p2 = memory p"
      "frames p2 = (frames p)(t := Waiting ?call host rid False (-1))"
      "requests p2 rid = Some \<lparr>rq_call = ?call, rq_host = host, rq_thread = t\<rparr>"
      using sent_run [OF assms(1), of ?p1 ?call host env hs c1] c1 by (auto simp: fun_upd_upd)
    have f2: "frames p2 t = Waiting ?call host rid False (-1)" using p2(4) by simp
    have "\<exists>q. pool_run env n p2 q \<and> shared q = c' \<and> memory q = memory p2 \<and>
        frames q = (frames p2)(t := Returned 1)"
    proof (cases "wait_ends evs")
      case (Answered i w v)
      with blk have "answer_call env cb host ?call i w v (-1, c1) = Inr (-1, c')"
        by (simp add: client_block_eq)
      from answered_run [OF assms(1) f2, of env cb i w v "-1" c'] this p2(2,5) show ?thesis by auto
    next
      case (Tied i w v)
      with blk obtain d where a: "answer_call env cb host ?call i w v (-1, c1) = Inr (-1, d)"
        "count_timeout host d = Inr c'" by (auto simp: client_block_eq andThen_iffs)
      from tied_run [OF assms(1) f2, of env cb i w v "-1" d c'] a p2(2,5) show ?thesis by auto
    next
      case Timed_Out
      with blk have "count_timeout host c1 = Inr c'" by (simp add: client_block_eq)
      from deadline_run [OF assms(1) f2, of c' env] this p2(2) show ?thesis by auto
    next
      case Blocked
      with blk show ?thesis by (simp add: client_block_eq)
    qed
    then obtain q where q: "pool_run env n p2 q" "shared q = c'" "memory q = memory p2"
      "frames q = (frames p2)(t := Returned 1)" by blast
    have "pool_run env n p q" by (rule pool_run_trans [OF r1 pool_run_trans [OF p2(1) q(1)]])
    with q p2(3,4) tr show ?thesis by (intro exI [of _ q]) (simp add: fun_upd_upd)
  qed
qed

section \<open>Answers after the deadline\<close>

lemma late_answer:
  assumes "pool_wf p" and "t < n" and "frames p t = Waiting (Read_Call fd b count off) host rid False br"
    and "count_timeout host (shared p) = Inr c'"
  shows "\<exists>q. pool_step env n p (Inr q) \<and> frames q t = Returned (-1) \<and> memory q = memory p \<and>
    pool_step env n q (Inl Dangling) \<and>
    (\<forall>bs late. \<exists>q'. pool_run env n q q' \<and> frames q' t = Returned (-1) \<and>
       memory q' b = store_bytes bs late)"
proof -
  let ?q = "(set_frame t (Returned (call_result (Read_Call fd b count off) (-1))) p)\<lparr>shared := c'\<rparr>"
  have rq: "requests p rid = Some \<lparr>rq_call = Read_Call fd b count off, rq_host = host, rq_thread = t\<rparr>"
    using assms(1,3) by (simp add: pool_wf_def)
  have "pool_step env n p (Inr ?q)" by (rule p_deadline [OF assms(2,3,4)])
  moreover have "pool_step env n ?q (Inl Dangling)"
    by (rule p_late [where rid = rid]) (simp_all add: rq frame_live_def)
  moreover have "\<exists>q'. pool_run env n ?q q' \<and> frames q' t = Returned (-1) \<and>
       memory q' b = store_bytes bs late" for bs late
  proof -
    let ?q1 = "?q\<lparr>memory := (memory ?q)(b := bs)\<rparr>"
    let ?q2 = "?q1\<lparr>memory := (memory ?q1)(b := store_bytes (memory ?q1 b) late)\<rparr>"
    have s1: "pool_step env n ?q (Inr ?q1)" by (rule p_program [OF assms(2), where x = "-1"]) simp
    have s2: "pool_step env n ?q1 (Inr ?q2)"
      by (rule p_push [where rid = rid and fd = fd and count = count and off = off
            and rq = "\<lparr>rq_call = Read_Call fd b count off, rq_host = host, rq_thread = t\<rparr>"])
        (simp_all add: rq)
    have "pool_run env n ?q ?q2" by (rule pool_snoc [OF pool_run_one [OF s1] s2])
    then show ?thesis by (intro exI [of _ ?q2]) simp
  qed
  ultimately show ?thesis by (intro exI [of _ ?q]) simp
qed

section \<open>Seeks of two threads\<close>

text \<open>Two waits for \<open>done\<close> to be one, no request that could be answered, and \<open>done\<close> is two.\<close>

definition seeks_stuck :: "pool \<Rightarrow> bool" where
  "seeks_stuck p \<longleftrightarrow> frames p 0 = Seek_Waiting \<and> frames p 1 = Seek_Waiting \<and>
     seek_done p = 2 \<and> seek_requests p = 0"

lemma seeks_stuck_step: "pool_step env 2 p (Inr q) \<Longrightarrow> seeks_stuck p \<Longrightarrow> seeks_stuck q"
  by (cases rule: pool_step.cases)
    (auto simp: seeks_stuck_def less_2_cases_iff split: if_splits intro!: gr0I)

lemma seeks_stuck_run: "pool_run env 2 p q \<Longrightarrow> seeks_stuck p \<Longrightarrow> seeks_stuck q"
  by (induction rule: pool_run.induct) (auto intro: seeks_stuck_step)

lemma two_answers:
  assumes "frames p 0 = Seek_Waiting" and "frames p 1 = Seek_Waiting" and "seek_done p = 0"
    and "seek_requests p = 2"
  shows "\<exists>q. pool_run env 2 p q \<and> seeks_stuck q"
proof -
  let ?q1 = "p\<lparr>seek_done := 1, seek_ret := v, seek_requests := 1\<rparr>"
  let ?q2 = "?q1\<lparr>seek_done := 2, seek_ret := w, seek_requests := 0\<rparr>"
  have "pool_step env 2 p (Inr ?q1)"
    by (rule p_seek_answer [where v = v]) (simp_all add: assms ftc_seek_cb_def)
  moreover have "pool_step env 2 ?q1 (Inr ?q2)"
    by (rule p_seek_answer [where v = w]) (simp_all add: ftc_seek_cb_def)
  ultimately have "pool_run env 2 p ?q2" by (rule pool_snoc [OF pool_run_one])
  then show ?thesis using assms by (intro exI [of _ ?q2]) (simp add: seeks_stuck_def)
qed

end
