(* ===== verification/Client_Runs.thy ===== *)
theory Client_Runs
  imports Wrappers Client_Threads
begin

unbundle bit_operations_syntax

text \<open>
  A client that meets no fault: it knows the addresses of its servers and Mercury's calls succeed.
  Every operation of such a client returns, whatever is answered and whether or not an answer comes
  before the deadline, and leaves a client of this kind. The lemmas give what each operation makes
  of the map of tracked descriptors.
\<close>

section \<open>Clients that meet no fault\<close>

definition ready :: "client_env \<Rightarrow> client \<Rightarrow> bool" where
  "ready env c \<longleftrightarrow> counters_sized c \<and> g_mercury_init c \<and> \<not> redirect_disabled c \<and>
     (\<forall>h. 0 \<le> h \<longrightarrow> h < g_ftc_server_count c \<longrightarrow>
        (\<exists>t a. address_cache c h = Some t \<and> ce_lookup2 env t = Some a)) \<and>
     (\<forall>a. \<exists>fl. server_flag env a c = Inr fl)"

definition calls_ok :: "hg_send \<Rightarrow> cb_call \<Rightarrow> bool" where
  "calls_ok hs cb \<longleftrightarrow> create_ret hs = 0 \<and> send_info_ok hs \<and> send_bulk_ret hs = 0 \<and>
     forward_ret hs = 0 \<and> free_addr_ret hs = 0 \<and> cb_free_ret cb = 0"

text \<open>What no operation of such a client changes.\<close>

definition settled :: "client \<Rightarrow> client \<Rightarrow> bool" where
  "settled c c' \<longleftrightarrow> g_ftc_server_count c' = g_ftc_server_count c \<and>
     length (timeout_counters c') = length (timeout_counters c) \<and>
     g_mercury_init c' = g_mercury_init c \<and> g_disable_redirect c' = g_disable_redirect c \<and>
     tl_disable_redirect c' = tl_disable_redirect c \<and> ftc_data_dir c' = ftc_data_dir c \<and>
     address_cache c' = address_cache c \<and> client_address c' = client_address c"

lemma settled_refl [simp]: "settled c c"
  by (simp add: settled_def)

lemma settled_trans: "settled a b \<Longrightarrow> settled b c \<Longrightarrow> settled a c"
  by (simp add: settled_def)

lemma settled_updates [simp]:
  "settled c (c'\<lparr>fd_map := m\<rparr>) = settled c c'"
  "settled c (c'\<lparr>fd_redir_map := r\<rparr>) = settled c c'"
  "settled c (c'\<lparr>client_logs := L\<rparr>) = settled c c'"
  "settled c (c'\<lparr>sent := q\<rparr>) = settled c c'"
  by (simp_all add: settled_def)

lemma server_flag_settled: "settled c c' \<Longrightarrow> server_flag env a c' = server_flag env a c"
  by (simp add: server_flag_def settled_def)

lemma ready_settled: "ready env c \<Longrightarrow> settled c c' \<Longrightarrow> ready env c'"
  unfolding ready_def using server_flag_settled [of c c' env]
  by (simp add: settled_def counters_sized_def redirect_disabled_def)

lemma lookup_known:
  assumes "ready env c" and "0 \<le> h" and "h < g_ftc_server_count c"
  shows "\<exists>a. lookup_addr env h c = Inr (a, c)"
proof -
  obtain t a where t: "address_cache c h = Some t" "ce_lookup2 env t = Some a"
    using assms by (auto simp: ready_def)
  have "wrap32 h = h" using assms by (simp add: ready_def counters_sized_def)
  with t show ?thesis by (simp add: lookup_addr_def ftc_client_comm_lookup_addr_def hg_addr_of_def)
qed

lemma flag_known: "ready env c \<Longrightarrow> \<exists>fl. server_flag env a c = Inr fl"
  by (simp add: ready_def)

lemma host_of_tracked:
  assumes "counters_sized c"
  obtains h where "select_host (ce_hash env) (g_ftc_server_count c) p = Inr h" "0 \<le> h"
    "h < g_ftc_server_count c" "nat h < length (timeout_counters c)" "uwrap32 h = h"
    "limit_reached c h = Inr (timeout_counters c ! nat h \<ge> TIMEOUT_LIMIT)"
proof -
  obtain h where h: "select_host (ce_hash env) (g_ftc_server_count c) p = Inr h" "0 \<le> h"
    "h < g_ftc_server_count c"
    using select_host_range [of "g_ftc_server_count c" "ce_hash env" p] assms
    by (auto simp: counters_sized_def)
  with assms that show thesis
    by (auto simp: counters_sized_def limit_reached_def nat_less_iff)
qed

section \<open>Logging\<close>

lemma client_log_runs: "log_ok i \<Longrightarrow> \<exists>L. client_log env i c = Inr (c\<lparr>client_logs := L\<rparr>)"
  using logging_info_ok by (simp add: client_log_def) blast

lemma NUL_in_local_fd_name: "NUL \<in> set (local_fd_name fd)"
  by (auto simp: local_fd_name_def cstr_array_def)

lemma request_log_ok:
  assumes "NUL \<in> set fp" and "length req < 256" and "length ex < 256"
  shows "log_ok (request_log fp req ex fl h e clk c)"
  using assms by (simp add: log_ok_def request_log_def NUL_in_strncpy_array)

lemma callback_log_runs:
  assumes "ready env c" and "NUL \<in> set fp" and "length req < 256"
  shows "\<exists>L. callback_log env peer junk fp req h e clk c = Inr (c\<lparr>client_logs := L\<rparr>)"
proof -
  have "\<exists>fl. (case peer of None \<Rightarrow> Inr junk | Some a \<Rightarrow> server_flag env a c) = Inr fl"
    using flag_known [OF assms(1)] by (cases peer) auto
  then obtain fl where "(case peer of None \<Rightarrow> Inr junk | Some a \<Rightarrow> server_flag env a c) = Inr fl" by blast
  then show ?thesis
    using client_log_runs [OF request_log_ok [OF assms(2,3)], of "''CReceive''" env fl h e clk c c]
    by (auto simp: callback_log_def)
qed


section \<open>Requests and waits\<close>

text \<open>The strings in the records are shorter than their arrays.\<close>

lemma short_names [simp]:
  "length ''open'' < 256" "length ''read'' < 256" "length ''close'' < 256" "length ''CRequest'' < 256"
  by simp_all

lemma gen_open_runs:
  assumes "ready env c" and "calls_ok hs cb" and "0 \<le> h" and "h < g_ftc_server_count c"
    and "length p < 256"
  shows "\<exists>c'. ftc_client_comm_gen_open_rpc env hs h p fd c = Inr c' \<and> settled c c' \<and> fd_map c' = fd_map c"
proof -
  obtain a where a: "lookup_addr env h c = Inr (a, c)" using lookup_known [OF assms(1,3,4)] by blast
  obtain fl where fl: "server_flag env a c = Inr fl" using flag_known [OF assms(1)] by blast
  have "NUL \<in> set (strncpy_array 256 p)" using assms(5) by (simp add: NUL_in_strncpy_array)
  from client_log_runs [OF request_log_ok [OF this short_names(1,4)], of env fl h fd "send_clock hs" c c]
  obtain L where "client_log env (request_log (strncpy_array 256 p) ''open'' ''CRequest'' fl h fd
      (send_clock hs) c) c = Inr (c\<lparr>client_logs := L\<rparr>)" by blast
  with a fl assms(2) show ?thesis
    by (simp add: ftc_client_comm_gen_open_rpc_def calls_ok_def hg_forward_def Let_def)
qed

lemma gen_read_runs:
  assumes "ready env c" and "calls_ok hs cb" and "0 \<le> h" and "h < g_ftc_server_count c"
  shows "\<exists>c'. ftc_client_comm_gen_read_rpc env hs h fd False count off c = Inr c' \<and> settled c c' \<and>
    fd_map c' = fd_map c"
proof -
  obtain a where a: "lookup_addr env h c = Inr (a, c)" using lookup_known [OF assms(1,3,4)] by blast
  let ?c = "c\<lparr>fd_redir_map := snd (subscript 0 (fd_redir_map c) fd)\<rparr>"
  have "ready env ?c" by (rule ready_settled [OF assms(1)]) simp
  then obtain fl where fl: "server_flag env a ?c = Inr fl" using flag_known by blast
  from client_log_runs [OF request_log_ok [OF NUL_in_local_fd_name [of fd] short_names(2,4)],
      of env fl h "-1" "send_clock hs" ?c ?c]
  obtain L where "client_log env (request_log (local_fd_name fd) ''read'' ''CRequest'' fl h (-1)
      (send_clock hs) ?c) ?c = Inr (?c\<lparr>client_logs := L\<rparr>)" by blast
  with a fl assms(2) show ?thesis
    by (simp add: ftc_client_comm_gen_read_rpc_def calls_ok_def hg_forward_def Let_def)
qed

lemma gen_close_runs:
  assumes "ready env c" and "calls_ok hs cb" and "0 \<le> h" and "h < g_ftc_server_count c"
  shows "\<exists>c'. ftc_client_comm_gen_close_rpc env hs h fd c = Inr c' \<and> settled c c' \<and>
    fd_map c' = fd_map c"
proof -
  obtain a where a: "lookup_addr env h c = Inr (a, c)" using lookup_known [OF assms(1,3,4)] by blast
  let ?c = "c\<lparr>fd_redir_map := snd (subscript 0 (fd_redir_map c) fd)\<rparr>"
  have "ready env ?c" by (rule ready_settled [OF assms(1)]) simp
  then obtain fl where fl: "server_flag env a ?c = Inr fl" using flag_known by blast
  from client_log_runs [OF request_log_ok [OF NUL_in_local_fd_name [of fd] short_names(3,4)],
      of env fl h "-1" "send_clock hs" ?c ?c]
  obtain L where "client_log env (request_log (local_fd_name fd) ''close'' ''CRequest'' fl h (-1)
      (send_clock hs) ?c) ?c = Inr (?c\<lparr>client_logs := L\<rparr>)" by blast
  with a fl assms(2) show ?thesis
    by (simp add: ftc_client_comm_gen_close_rpc_def calls_ok_def hg_forward_def Let_def)
qed

lemma count_timeout_runs:
  assumes "0 \<le> h" and "nat h < length (timeout_counters c)"
  shows "\<exists>c'. count_timeout h c = Inr c' \<and> settled c c' \<and> fd_map c' = fd_map c"
  using assms by (simp add: count_timeout_def settled_def)

lemma read_cb_runs:
  assumes "ready env c" and "calls_ok hs cb"
  shows "\<exists>c'. ftc_read_cb env cb h fd 0 0 v (br, c) = Inr (v, c') \<and> settled c c' \<and> fd_map c' = fd_map c"
  using callback_log_runs [OF assms(1) NUL_in_local_fd_name [of fd] short_names(2),
      of "cb_peer cb" "cb_junk cb" h "-1" "cb_clock cb"] assms(2)
  by (auto simp: ftc_read_cb_def calls_ok_def)

lemma open_cb_runs:
  assumes "ready env c"
  shows "\<exists>c'. ftc_open_cb env cb h p fd 0 r c = Inr c' \<and> settled c c' \<and> fd_map c' = fd_map c"
proof -
  let ?c = "c\<lparr>fd_redir_map := (fd_redir_map c)(wrap32 fd \<mapsto> r)\<rparr>"
  have "ready env ?c" by (rule ready_settled [OF assms]) simp
  moreover have "NUL \<in> set (strncpy_array 256 (take 255 p))"
    unfolding NUL_in_strncpy_array by (rule disjI2) (simp add: min_def)
  ultimately obtain L where "callback_log env (cb_peer cb) (cb_junk cb) (strncpy_array 256 (take 255 p))
      ''open'' h (wrap32 fd) (cb_clock cb) ?c = Inr (?c\<lparr>client_logs := L\<rparr>)"
    using callback_log_runs [OF _ _ short_names(1)] by blast
  then show ?thesis by (simp add: ftc_open_cb_def)
qed

section \<open>Tracking, reading and closing\<close>

text \<open>A wait for an open that ends, with any answer or with the deadline.\<close>

definition open_ends :: "rpc_event list \<Rightarrow> bool" where
  "open_ends evs \<longleftrightarrow> wait_ends evs = Timed_Out \<or>
     (\<exists>i r. wait_ends evs = Answered 0 i r \<or> wait_ends evs = Tied 0 i r)"

text \<open>
  A wait for a read of the bytes \<open>bs\<close> that ends with the deadline, with -1, or with the number of
  the bytes after they have arrived; either answer may tie with the deadline.
\<close>

definition read_ends :: "byte list \<Rightarrow> rpc_event list \<Rightarrow> bool" where
  "read_ends bs evs \<longleftrightarrow>
     wait_ends evs = Timed_Out \<and> pushed_before evs \<in> {[], [bs]} \<or>
     wait_ends evs \<in> {Answered 0 0 (-1), Tied 0 0 (-1)} \<and> pushed_before evs = [] \<or>
     wait_ends evs \<in> {Answered 0 0 (int (length bs)), Tied 0 0 (int (length bs))} \<and>
       pushed_before evs = [bs]"

lemma open_block_runs:
  assumes "ready env c" and "0 \<le> h" and "nat h < length (timeout_counters c)" and "open_ends evs"
  shows "\<exists>c'. ftc_client_block h (\<lambda>i r v s. ftc_open_cb env cb h cp fd i v s) evs c = Inr c' \<and>
    settled c c' \<and> fd_map c' = fd_map c"
proof -
  note late = count_timeout_runs [OF assms(2)]
  have tie: "\<exists>c'. andThen (ftc_open_cb env cb h cp fd 0 r c) (count_timeout h) = Inr c' \<and> settled c c' \<and>
      fd_map c' = fd_map c" for r
  proof -
    obtain d where d: "ftc_open_cb env cb h cp fd 0 r c = Inr d" "settled c d" "fd_map d = fd_map c"
      using open_cb_runs [OF assms(1)] by blast
    from late [of d] d(2) assms(3) obtain c' where
      "count_timeout h d = Inr c'" "settled d c'" "fd_map c' = fd_map d" by (auto simp: settled_def)
    with d settled_trans [OF d(2)] show ?thesis by auto
  qed
  from assms(4) tie late [OF assms(3)] open_cb_runs [OF assms(1), of cb h cp fd] show ?thesis
    by (auto simp: client_block_eq open_ends_def)
qed

lemma track_file_runs:
  assumes "ready env c" and "calls_ok hs cb" and "open_ends evs"
    and "\<forall>cp. tracked_path canonical cwd (ftc_data_dir c) p = Some cp \<longrightarrow> length cp < 256"
  shows "\<exists>t c'. ftc_track_file canonical cwd env hs cb evs p flags fd c = Inr (t, c') \<and>
    settled c c' \<and> (\<forall>g. g \<noteq> fd \<longrightarrow> fd_map c' g = fd_map c g)"
proof (cases "contains ''.ports.cfg.'' p \<or> flags AND O_ACCMODE = O_WRONLY \<or> flags AND O_APPEND \<noteq> 0 \<or>
    tracked_path canonical cwd (ftc_data_dir c) p = None")
  case True
  then show ?thesis by (auto simp: ftc_track_file_def)
next
  case False
  then obtain cp where cp: "tracked_path canonical cwd (ftc_data_dir c) p = Some cp" "length cp < 256"
    using assms(4) by auto
  let ?c1 = "c\<lparr>fd_map := (fd_map c)(fd \<mapsto> cp)\<rparr>"
  have r1: "ready env ?c1" by (rule ready_settled [OF assms(1)]) simp
  then have sized: "counters_sized ?c1" "g_mercury_init ?c1" by (simp_all add: ready_def)
  obtain h where h: "select_host (ce_hash env) (g_ftc_server_count ?c1) cp = Inr h" "0 \<le> h"
    "h < g_ftc_server_count ?c1" "nat h < length (timeout_counters ?c1)" "uwrap32 h = h"
    "limit_reached ?c1 h = Inr (timeout_counters ?c1 ! nat h \<ge> TIMEOUT_LIMIT)"
    by (rule host_of_tracked [OF sized(1)])
  show ?thesis
  proof (cases "timeout_counters ?c1 ! nat h \<ge> TIMEOUT_LIMIT")
    case True
    with False cp sized h have "ftc_track_file canonical cwd env hs cb evs p flags fd c = Inr (False, ?c1)"
      by (simp add: ftc_track_file_def start_mercury_def)
    then show ?thesis by auto
  next
    case below: False
    obtain c2 where c2: "ftc_client_comm_gen_open_rpc env hs h cp fd ?c1 = Inr c2" "settled ?c1 c2"
      "fd_map c2 = fd_map ?c1"
      using gen_open_runs [OF r1 assms(2) h(2,3) cp(2)] by blast
    have r2: "ready env c2" by (rule ready_settled [OF r1 c2(2)])
    have "nat h < length (timeout_counters c2)" using c2(2) h(4) by (simp add: settled_def)
    note len2 = this
    have "\<exists>c3. ftc_client_block h (\<lambda>i r v s. ftc_open_cb env cb h cp fd i v s) evs c2 = Inr c3 \<and>
        settled c2 c3 \<and> fd_map c3 = fd_map c2"
      by (rule open_block_runs [OF r2 h(2) len2 assms(3)])
    then obtain c3 where c3: "ftc_client_block h (\<lambda>i r v s. ftc_open_cb env cb h cp fd i v s) evs c2 = Inr c3"
      "settled c2 c3" "fd_map c3 = fd_map c2" by blast
    have "settled c c3" using settled_trans [OF c2(2) c3(2)] by (simp add: settled_def)
    moreover have "ftc_track_file canonical cwd env hs cb evs p flags fd c = Inr (True, c3)"
      using False below cp sized h c2 c3 by (simp add: ftc_track_file_def start_mercury_def)
    ultimately show ?thesis using c2(3) c3(3) by auto
  qed
qed

lemma read_block_runs:
  assumes "ready env c" and "calls_ok hs cb" and "0 \<le> h" and "nat h < length (timeout_counters c)"
    and "read_ends bs evs"
  obtains r b c' where "ftc_read_block h (ftc_read_cb env cb h fd) evs buf (-1) c = Inr (r, b, c')"
    and "settled c c'" and "fd_map c' = fd_map c"
    and "r = -1 \<and> b \<in> {buf, store_bytes buf bs} \<or> r = int (length bs) \<and> b = store_bytes buf bs"
proof -
  obtain c2 where c2: "count_timeout h c = Inr c2" "settled c c2" "fd_map c2 = fd_map c"
    using count_timeout_runs [OF assms(3,4)] by blast
  obtain c3 where c3: "ftc_read_cb env cb h fd 0 0 (-1) (-1, c) = Inr (-1, c3)" "settled c c3"
    "fd_map c3 = fd_map c" using read_cb_runs [OF assms(1,2)] by blast
  obtain c4 where c4: "ftc_read_cb env cb h fd 0 0 (int (length bs)) (-1, c) = Inr (int (length bs), c4)"
    "settled c c4" "fd_map c4 = fd_map c" using read_cb_runs [OF assms(1,2)] by blast
  have tie: "\<exists>d. count_timeout h c' = Inr d \<and> settled c d \<and> fd_map d = fd_map c"
    if "settled c c'" "fd_map c' = fd_map c" for c'
    using count_timeout_runs [OF assms(3), of c'] settled_trans [OF that(1)] that assms(4)
    by (auto simp: settled_def)
  from assms(5) show thesis
    unfolding read_ends_def
  proof (elim disjE conjE)
    assume "wait_ends evs = Timed_Out" "pushed_before evs \<in> {[], [bs]}"
    with c2 that [of "-1" "received buf evs" c2] show thesis by (auto simp: read_block_eq received_def)
  next
    assume "wait_ends evs \<in> {Answered 0 0 (-1), Tied 0 0 (-1)}" "pushed_before evs = []"
    with c3 tie [OF c3(2,3)] that [of "-1" buf] show thesis by (auto simp: read_block_eq received_def)
  next
    assume "wait_ends evs \<in> {Answered 0 0 (int (length bs)), Tied 0 0 (int (length bs))}"
      "pushed_before evs = [bs]"
    with c4 tie [OF c4(2,3)] that [of "int (length bs)" "store_bytes buf bs" c4] that [of "-1" "store_bytes buf bs"]
    show thesis by (auto simp: read_block_eq received_def)
  qed
qed

lemma remote_read_runs:
  assumes "ready env c" and "calls_ok hs cb" and "read_ends bs evs"
  shows "\<exists>r b c'. remote_read_at env hs cb evs fd False buf count off c = Inr (r, b, c') \<and>
    settled c c' \<and> fd_map c' = fd_map c \<and>
    (r = -1 \<and> b \<in> {buf, store_bytes buf bs} \<or> r = int (length bs) \<and> b = store_bytes buf bs)"
proof (cases "ftc_file_tracked c fd")
  case False
  then show ?thesis by (simp add: remote_read_at_def)
next
  case True
  have "counters_sized c" using assms(1) by (simp add: ready_def)
  then obtain h where h: "select_host (ce_hash env) (g_ftc_server_count c) (the (fd_map c fd)) = Inr h"
    "0 \<le> h" "h < g_ftc_server_count c" "nat h < length (timeout_counters c)" "uwrap32 h = h"
    "limit_reached c h = Inr (timeout_counters c ! nat h \<ge> TIMEOUT_LIMIT)"
    by (rule host_of_tracked)
  show ?thesis
  proof (cases "timeout_counters c ! nat h \<ge> TIMEOUT_LIMIT")
    case True
    with \<open>ftc_file_tracked c fd\<close> h show ?thesis by (simp add: remote_read_at_def)
  next
    case below: False
    obtain c1 where c1: "ftc_client_comm_gen_read_rpc env hs h fd False (wrap64 count) off c = Inr c1"
      "settled c c1" "fd_map c1 = fd_map c"
      using gen_read_runs [OF assms(1,2) h(2,3)] by blast
    have r1: "ready env c1" by (rule ready_settled [OF assms(1) c1(2)])
    have "nat h < length (timeout_counters c1)" using c1(2) h(4) by (simp add: settled_def)
    obtain r b c' where rd: "ftc_read_block h (ftc_read_cb env cb h fd) evs buf (-1) c1 = Inr (r, b, c')"
      "settled c1 c'" "fd_map c' = fd_map c1"
      "r = -1 \<and> b \<in> {buf, store_bytes buf bs} \<or> r = int (length bs) \<and> b = store_bytes buf bs"
      by (rule read_block_runs [OF r1 assms(2) h(2) \<open>nat h < length (timeout_counters c1)\<close> assms(3)])
    have "remote_read_at env hs cb evs fd False buf count off c = Inr (r, b, c')"
      using True below h c1(1) rd(1) by (simp add: remote_read_at_def)
    with settled_trans [OF c1(2) rd(2)] rd(3,4) c1(3) show ?thesis by auto
  qed
qed

lemma remove_fd_runs:
  assumes "ready env c" and "calls_ok hs cb"
  shows "\<exists>b c'. ftc_remove_fd env hs fd c = Inr (b, c') \<and> settled c c' \<and> fd_map c' = (fd_map c)(fd := None)"
proof -
  have "counters_sized c" using assms(1) by (simp add: ready_def)
  then obtain h where h: "select_host (ce_hash env) (g_ftc_server_count c) (the (fd_map c fd)) = Inr h"
    "0 \<le> h" "h < g_ftc_server_count c" "nat h < length (timeout_counters c)" "uwrap32 h = h"
    "limit_reached c h = Inr (timeout_counters c ! nat h \<ge> TIMEOUT_LIMIT)"
    by (rule host_of_tracked)
  with gen_close_runs [OF assms h(2,3), of fd]
  have "\<exists>c1. ftc_remote_close env hs fd c = Inr c1 \<and> settled c c1 \<and> fd_map c1 = fd_map c"
    by (auto simp: ftc_remote_close_def)
  then obtain c1 where "ftc_remote_close env hs fd c = Inr c1" "settled c c1" "fd_map c1 = fd_map c" by blast
  then show ?thesis by (cases "fd_map c = Map.empty") (auto simp: ftc_remove_fd_def)
qed

end
