(* ===== verification/End_To_End.thy ===== *)
theory End_To_End
  imports Server_Properties Client_Properties Client_Runs
begin

text \<open>
  From a program's call to a server and back: what the network makes of a handler's outcome for
  the waiting client, and how the descriptors of an open pair up. The properties that span client
  and server rest on these lemmas.
\<close>

unbundle bit_operations_syntax

section \<open>A read from the program to the file and back\<close>

text \<open>
  \<open>deliver\<close> is what the network brings a waiting client of a read handler's outcome: the pushed
  bytes and the answer of the bulk callback, or the answer alone. \<open>delivery\<close> adds what else can
  happen to the client: spurious wake-ups, and a deadline that passes before the answer, with or
  without the bytes having arrived.
\<close>

definition answer_event :: "rpc_response option \<Rightarrow> rpc_event list" where
  "answer_event resp = (case resp of Some (Read_Out v) \<Rightarrow> [Callback 0 0 v] | _ \<Rightarrow> [])"

definition deliver :: "outcome \<Rightarrow> rpc_event list" where
  "deliver out =
     (case out_xfer out of
        Some st \<Rightarrow> Push (pushed st) # answer_event (out_resp (ftc_rpc_handler_bulk_cb 0 0 st (out_live out)))
      | None \<Rightarrow> answer_event (out_resp out))"

definition tied :: "rpc_event list \<Rightarrow> rpc_event list" where
  "tied es = map (\<lambda>e. case e of Callback i r v \<Rightarrow> Tie i r v | _ \<Rightarrow> e) es"

definition delivery :: "outcome \<Rightarrow> rpc_event list \<Rightarrow> bool" where
  "delivery out evs \<longleftrightarrow>
     (let es = filter (\<lambda>e. e \<noteq> Spurious) evs
      in es = deliver out \<or> es = tied (deliver out) \<or> es = [Deadline] \<or>
         (case out_xfer out of None \<Rightarrow> False | Some st \<Rightarrow> es = [Push (pushed st), Deadline]))"

lemma wait_ends_spurious: "wait_ends (filter (\<lambda>e. e \<noteq> Spurious) es) = wait_ends es"
  by (induction es rule: wait_ends.induct) auto

lemma pushed_before_spurious: "pushed_before (filter (\<lambda>e. e \<noteq> Spurious) es) = pushed_before es"
  by (induction es rule: pushed_before.induct) auto

text \<open>A wake-up without an answer changes nothing.\<close>

lemma read_block_spurious: "ftc_read_block h cb (Spurious # es) = ftc_read_block h cb es"
proof -
  have "received b (Spurious # es) = received b es" for b by (simp add: received_def)
  then show ?thesis by (simp add: fun_eq_iff read_block_eq cong: wait_end.case_cong)
qed

lemma remote_read_spurious:
  "remote_read_at env hs cb (Spurious # es) = remote_read_at env hs cb es"
  unfolding remote_read_at_def fun_eq_iff read_block_spurious by simp

text \<open>The two outcomes of a positioned read on the server.\<close>

definition read_outcome :: "byte list \<Rightarrow> outcome \<Rightarrow> bool" where
  "read_outcome bytes out \<longleftrightarrow>
     out_resp out = Some (Read_Out (-1)) \<and> out_xfer out = None \<or>
     (\<exists>st. out_resp out = None \<and> out_xfer out = Some st \<and> pushed st = bytes \<and>
        out_resp (ftc_rpc_handler_bulk_cb 0 0 st (out_live out)) =
          Some (Read_Out (int (length bytes))))"

text \<open>How a wait ends, and what the buffer holds then.\<close>

lemma tied_simps [simp]:
  "tied [] = []"
  "tied (Push bs # es) = Push bs # tied es"
  "tied (Callback i r v # es) = Tie i r v # tied es"
  by (simp_all add: tied_def)

lemma delivery_cases:
  assumes "read_outcome bytes out" and "delivery out evs"
  shows "read_ends bytes evs"
proof -
  let ?es = "filter (\<lambda>e. e \<noteq> Spurious) evs"
  have "?es \<in> {[Deadline], [Push bytes, Deadline], [Callback 0 0 (-1)], [Tie 0 0 (-1)],
      [Push bytes, Callback 0 0 (int (length bytes))], [Push bytes, Tie 0 0 (int (length bytes))]}"
    using assms by (auto simp: read_outcome_def delivery_def deliver_def answer_event_def Let_def)
  then have "read_ends bytes ?es" by (auto simp: read_ends_def)
  then show ?thesis unfolding read_ends_def wait_ends_spurious pushed_before_spurious .
qed

text \<open>What a remote read reports for each of them.\<close>

lemma remote_read_outcome:
  assumes "read_outcome bytes out" and "delivery out evs"
    and "remote_read_at env hs cb evs fd nul buf count off c = Inr (r, b, c')"
  shows "r = -1 \<and> b \<in> {buf, store_bytes buf bytes} \<or>
    r = int (length bytes) \<and> b = store_bytes buf bytes"
proof (cases "r = -1 \<and> b = buf")
  case False
  with assms(3) obtain h c1 where
    "ftc_read_block h (ftc_read_cb env cb h fd) evs buf (-1) c1 = Inr (r, b, c')"
    by (auto simp: remote_read_at_def andThen_iffs split: if_splits)
  with delivery_cases [OF assms(1,2)] show ?thesis
    by (auto simp: read_ends_def read_block_eq andThen_iffs received_def dest!: read_cb_effect)
qed simp

text \<open>The argument for one \<open>pread\<close>; the local file may have another name than the server's.\<close>

lemma pread_transparent:
  assumes "posix_files os content ofd" and "server_start s0" and "server_run os le t s0 s"
    and "fd_to_path s rfd = Some p" and "content (world s) p = Some d"
    and "0 \<le> rfd" and "rfd < 2147483648"
    and "posix_files os' content' ofd'" and "ofd' w fd = Some (lp, pos)" and "content' w lp = Some d"
    and "fd_map c fd = Some p" and "fd_redir_map c fd = Some rfd"
    and "0 \<le> count" and "count < 2147483648" and "0 \<le> off" and "off < 9223372036854775808"
    and "req = mk_rpc_in count (send_bulk_handle hs) rfd fd off (client_rank c)"
    and "served hg req s" and "ftc_rpc_handler os le hg req s = Inr (s', out)"
    and "delivery out evs"
    and "wrap_pread os' env hs cb evs fd False buf count off (c, w) = Inr (r, b, c', w')"
  shows "r = -1 \<or>
    r = int (length (take (nat count) (drop (nat off) d))) \<and>
    b = store_bytes buf (take (nat count) (drop (nat off) d))"
proof -
  let ?bytes = "take (nat count) (drop (nat off) d)"
  have req: "input_val req = count" "offset req = off" "accessfd req = rfd"
    using assms(6,7,13-17) by (simp_all add: mk_rpc_in_def)
  have "\<exists>s' out. ftc_rpc_handler os le hg req s = Inr (s', out) \<and>
    (out_resp out = Some (Read_Out (-1)) \<and> out_xfer out = None \<or>
     (\<exists>st. out_resp out = None \<and> out_xfer out = Some st \<and>
        pushed st = take (nat (input_val req)) (drop (nat (offset req)) d) \<and>
        out_resp (ftc_rpc_handler_bulk_cb 0 0 st (out_live out)) =
          Some (Read_Out (int (length (pushed st))))))"
    by (rule pread_outcome [OF assms(1-3,18)]) (use assms(4-6,14,15) req in auto)
  then have outcome: "read_outcome ?bytes out"
    using assms(19) req unfolding read_outcome_def by auto
  from assms(11,21) obtain r0 b0 c1 where
    remote: "remote_read_at env hs cb evs fd False buf count off c = Inr (r0, b0, c1)"
    by (auto simp: wrap_pread_def ftc_get_path_eq ftc_remote_pread_def andThen_iffs)
  obtain r2 bs w1 where real: "sys_pread os' fd count off w = ((r2, bs), w1)"
    by (metis prod.collapse)
  from posix_files.pread_file [OF assms(8,9,10,13,15) real]
  have local: "r2 = -1 \<or> bs = ?bytes \<and> r2 = int (length ?bytes)" by auto
  have wrapped: "Inr (r, b, c', w') =
      (if r0 < 0 then Inr (r2, store_bytes b0 bs, c1, w1) else (Inr (r0, b0, c1, w) :: _ res))"
    using wrap_pread_cases [OF remote [folded ftc_remote_pread_def] real assms(11)] assms(21) by simp
  from remote_read_outcome [OF outcome assms(20) remote] show ?thesis
  proof (elim disjE conjE)
    assume "r0 = -1" "b0 \<in> {buf, store_bytes buf ?bytes}"
    with wrapped local store_bytes_twice [of ?bytes ?bytes buf] show ?thesis by auto
  qed (use wrapped in simp)
qed

section \<open>From the open to the read\<close>

lemma track_check_enters:
  assumes "counters_sized c" and "track_check canonical cwd env p flags fd c = Inr (Some (cp, host), c1)"
  shows "fd_map c1 fd = Some cp \<and> sent c1 = sent c"
proof -
  from assms(2) have m: "start_mercury env (c\<lparr>fd_map := (fd_map c)(fd \<mapsto> cp)\<rparr>) = Inr c1"
    by (auto simp: track_check_def andThen_iffs split: if_splits option.splits)
  have "counters_sized (c\<lparr>fd_map := (fd_map c)(fd \<mapsto> cp)\<rparr>)"
    using assms(1) by (simp add: counters_sized_def)
  from start_mercury_sized [OF this m] show ?thesis by simp
qed

lemma track_check_quiet:
  assumes "counters_sized c" and "track_check canonical cwd env p flags fd c = Inr (None, c1)"
  shows "sent c1 = sent c"
proof (cases "c1 = c")
  case False
  with assms(2) obtain cp where m: "start_mercury env (c\<lparr>fd_map := (fd_map c)(fd \<mapsto> cp)\<rparr>) = Inr c1"
    by (auto simp: track_check_def andThen_iffs split: if_splits option.splits)
  have "counters_sized (c\<lparr>fd_map := (fd_map c)(fd \<mapsto> cp)\<rparr>)"
    using assms(1) by (simp add: counters_sized_def)
  from start_mercury_sized [OF this m] show ?thesis by simp
qed simp

text \<open>An open that sent its request and was answered pairs the two descriptors.\<close>

lemma answered_open_pairs:
  assumes "counters_sized c" and "0 \<le> fd" and "fd < 2147483648"
    and "ftc_track_file canonical cwd env hs cb evs p flags fd c = Inr (tracked, c')"
    and "sent c' = sent c @ [(h, Open_Req oin)]" and "wait_ends evs \<in> {Answered 0 i rfd, Tied 0 i rfd}"
  shows "fd_map c' fd = Some (open_path oin) \<and> fd_redir_map c' fd = Some rfd"
proof -
  from assms(4) obtain next' c1 where chk: "track_check canonical cwd env p flags fd c = Inr (next', c1)"
    by (auto simp: track_file_parts andThen_iffs)
  show ?thesis
  proof (cases next')
    case None
    with assms(4) chk track_check_quiet [OF assms(1), of canonical cwd env p flags fd c1] assms(5)
    show ?thesis by (simp add: track_file_parts)
  next
    case (Some x)
    obtain cp host where x: "x = (cp, host)" by (cases x)
    from assms(4,6) chk Some x obtain c2 c3 where
      c2: "ftc_client_comm_gen_open_rpc env hs host cp fd c1 = Inr c2"
      "ftc_open_cb env cb host cp fd 0 rfd c2 = Inr c3"
      and last: "c' = c3 \<or> count_timeout host c3 = Inr c'"
      by (auto simp: track_file_parts andThen_iffs client_block_eq)
    then have same: "sent c' = sent c3" "fd_map c' = fd_map c3" "fd_redir_map c' = fd_redir_map c3"
      by (auto dest!: count_timeout_effect simp: rpc_frame_def)
    note enters = track_check_enters [OF assms(1) chk [unfolded Some x]]
    note snt = gen_open_sent [OF c2(1)] and opened = open_cb_effect [OF c2(2)]
    have "open_path oin = cp"
      using snt opened enters assms(5) same by (auto simp: quiet_step_def)
    moreover have "fd_map c' fd = Some cp"
      using snt opened enters same by (simp add: quiet_step_def rpc_frame_def)
    moreover have "fd_redir_map c' fd = Some rfd" using opened assms(2,3) same by simp
    ultimately show ?thesis by simp
  qed
qed

text \<open>The interposed \<open>open\<close> around it.\<close>

lemma wrap_open_pairs:
  assumes "counters_sized c" and "0 \<le> fd" and "fd < 2147483648"
    and "wrap_open real_open os env hs cb evs p flags mode (c, w) = Inr (fd, c', w')"
    and "sent c' = sent c @ [(h, Open_Req oin)]" and "wait_ends evs \<in> {Answered 0 i rfd, Tied 0 i rfd}"
  shows "fd_map c' fd = Some (open_path oin) \<and> fd_redir_map c' fd = Some rfd"
proof -
  have "\<exists>w1 tracked. ftc_track_file (\<lambda>q. fs_canonical os q w1) (fs_current_path os w1) env hs cb evs p flags fd c
      = Inr (tracked, c')"
    using assms(2,4,5)
    by (auto simp: wrap_open_def wrap_track_def Let_def andThen_iffs case_prod_unfold split: if_splits)
  then show ?thesis using answered_open_pairs [OF assms(1-3) _ assms(5,6)] by blast
qed

text \<open>A program that opens the data file of \<open>Demo\<close>, and its reads afterwards.\<close>

definition demo_untracked :: client where
  "demo_untracked = demo_client\<lparr>ftc_data_dir := None, fd_map := Map.empty, fd_redir_map := Map.empty\<rparr>"

definition demo_tracked :: client where
  "demo_tracked = demo_client\<lparr>ftc_data_dir := None, sent := [(0, Open_Req demo_open_in)]\<rparr>"

lemma demo_tracked_open:
  "wrap_open (\<lambda>p flags mode w. (7, w)) fsys_os demo_cenv demo_hs demo_cb [Callback 0 0 0] ''/d/a'' 0 0
     (demo_untracked, demo_local) = Inr (7, demo_tracked, demo_local)"
proof -
  have "tracked_path [''/d/a'' \<mapsto> ''/d/a''] ''/d'' None ''/d/a'' = Some ''/d/a''"
    "contains ''.ports.cfg.'' ''/d/a'' = False"
    by code_simp+
  moreover have "(\<lambda>q. fs_canonical fsys_os q demo_local) = [''/d/a'' \<mapsto> ''/d/a'']"
    by (auto simp: demo_local_def fun_eq_iff)
  moreover have "demo_like (demo_untracked\<lparr>fd_map := m\<rparr>)" for m
    by (simp add: demo_like_def demo_untracked_def demo_client_def)
  note demo_gen_open [OF this]
  ultimately show ?thesis
    by (simp add: wrap_open_def wrap_track_def redirect_disabled_def ftc_track_file_def
        start_mercury_def demo_untracked_def demo_client_def demo_local_def demo_host demo_limit
        client_block_eq ftc_open_cb_def demo_cb_def demo_callback_log demo_tracked_def demo_open_in_def)
qed

lemma demo_tracked_pread:
  assumes "demo_like c" and "fd_map c 7 = Some ''/d/a''" and "fd_redir_map c 7 = Some 0"
    and "timeout_counters c = [0, 0]" and "\<not> redirect_disabled c"
  shows "\<exists>c'. wrap_pread fsys_os demo_cenv demo_hs demo_cb [Push [20, 30, 40], Callback 0 0 3]
      7 False [0, 0, 0] 3 1 (c, demo_local) = Inr (3, [20, 30, 40], c', demo_local)"
proof -
  have "remote_read_at demo_cenv demo_hs demo_cb [Push [20, 30, 40], Callback 0 0 3] 7 False [0, 0, 0] 3 1 c =
      Inr (3, store_bytes [0, 0, 0] [20, 30, 40],
        c\<lparr>sent := sent c @ [(0, Read_Req (mk_rpc_in (wrap64 3) 0 0 7 1 0))]\<rparr>)"
    by (rule demo_read(1) [where p = "''/d/a''" and x = 0 and xs = "[0]"]) (use assms in simp_all)
  with assms(2,5) show ?thesis
    by (simp add: wrap_pread_def ftc_get_path_eq ftc_remote_pread_def store_bytes_def Let_def)
qed

lemma demo_served_pread:
  "\<exists>s'. ftc_rpc_handler fsys_os demo_le demo_call (demo_read_in 3 1) demo_opened =
     Inr (s', transferring (demo_read_in 3 1) 3 [20, 30, 40])"
proof -
  have "sys_pread fsys_os (accessfd (demo_read_in 3 1)) (input_val (demo_read_in 3 1))
      (offset (demo_read_in 3 1)) (world demo_opened) = ((3, [20, 30, 40]), world demo_opened)"
    by (simp add: demo_read_in_def demo_opened_eq demo_fs_def demo_data_def fsys_pread_def fsys_data_def)
  from pread_handler_runs [OF demo_served _ this, of demo_le] show ?thesis
    by (auto simp: demo_read_in_def)
qed

lemma demo_delivered:
  "deliver (transferring (demo_read_in 3 1) 3 [20, 30, 40]) = [Push [20, 30, 40], Callback 0 0 3]"
  by (simp add: deliver_def transferring_def transfer_def demo_read_in_def store_bytes_def
      pushed_def answer_event_def ftc_rpc_handler_bulk_cb_def answered_def Let_def)

end
