(* ===== verification/Read_Session.thy ===== *)
theory Read_Session
  imports End_To_End
begin

text \<open>
  A program that opens a file and reads it to the end, the way data is loaded: a sequence of
  sequential reads of one descriptor, between which the server handles any other requests and
  copies files, and the client does anything with its other descriptors. The abstract view of a
  session is the file cut into pieces; the lemmas show that the client, the network and the
  server implement it as long as the answers arrive.
\<close>

section \<open>The abstract view\<close>

text \<open>What reads of the sizes \<open>ns\<close> return of the bytes that are left, each with its number of bytes.\<close>

fun chunks :: "byte list \<Rightarrow> int list \<Rightarrow> (int \<times> byte list) list" where
  "chunks d [] = []"
| "chunks d (n # ns) =
     (int (length (take (nat n) d)), take (nat n) d) # chunks (drop (nat n) d) ns"

abbreviation bytes_of :: "(int \<times> byte list) list \<Rightarrow> byte list" where
  "bytes_of res \<equiv> concat (map snd res)"

lemma bytes_of_chunks: "bytes_of (chunks d ns) = take (\<Sum>n\<leftarrow>ns. nat n) d"
  by (induction ns arbitrary: d) (auto simp: take_add)

lemma drop_length_take: "drop (length (take k d)) d = drop k d"
  by (cases "k \<le> length d") auto

lemma chunks_append: "chunks d (ns @ ms) = chunks d ns @ chunks (drop (\<Sum>n\<leftarrow>ns. nat n) d) ms"
  by (induction ns arbitrary: d) (auto simp: add.commute)

lemma chunks_snoc:
  "chunks d (ns @ [n]) = chunks d ns @ chunks (drop (length (bytes_of (chunks d ns))) d) [n]"
  unfolding chunks_append bytes_of_chunks drop_length_take ..

section \<open>Sessions\<close>

text \<open>
  \<open>read_session os le t ofd env os' fd rfd x ns res y\<close>: from \<open>x\<close> to \<open>y\<close> the program has read its
  descriptor \<open>fd\<close>, the server's \<open>rfd\<close>, with the sizes \<open>ns\<close>, and got the results \<open>res\<close>. Each read
  sends its request, which a server that does not refuse it handles, and whose answer arrives;
  nothing else reads or seeks on the server's descriptor, and nothing closes either.
\<close>

inductive read_session ::
  "'w os \<Rightarrow> log_env \<Rightarrow> path \<Rightarrow> ('w \<Rightarrow> int \<rightharpoonup> path \<times> int) \<Rightarrow> client_env \<Rightarrow> 'v os \<Rightarrow> int \<Rightarrow> int \<Rightarrow>
   'w server \<times> client \<times> 'v \<Rightarrow> int list \<Rightarrow> (int \<times> byte list) list \<Rightarrow> 'w server \<times> client \<times> 'v \<Rightarrow> bool"
  for os le t ofd env os' fd rfd x where
  session_start: "read_session os le t ofd env os' fd rfd x [] [] x"
| session_server: "read_session os le t ofd env os' fd rfd x ns res (s, c, w) \<Longrightarrow>
    server_run os le t s s' \<Longrightarrow> ofd (world s') rfd = ofd (world s) rfd \<Longrightarrow>
    read_session os le t ofd env os' fd rfd x ns res (s', c, w)"
| session_client: "read_session os le t ofd env os' fd rfd x ns res (s, c, w) \<Longrightarrow>
    client_run env ops c c' \<Longrightarrow> fd_map c' fd = fd_map c fd \<Longrightarrow> fd_redir_map c' fd = fd_redir_map c fd \<Longrightarrow>
    read_session os le t ofd env os' fd rfd x ns res (s, c', w')"
| session_read: "read_session os le t ofd env os' fd rfd x ns res (s, c, w) \<Longrightarrow>
    wrap_read os' env hs cb evs fd False buf n (c, w) = Inr (r, b, c', w') \<Longrightarrow>
    sent c' = sent c @ [(h, Read_Req req)] \<Longrightarrow>
    0 \<le> n \<Longrightarrow> n < 2147483648 \<Longrightarrow> n \<le> int (length buf) \<Longrightarrow>
    served hg req s \<Longrightarrow> fst (fst (sys_read os rfd n (world s))) \<noteq> -1 \<Longrightarrow>
    ftc_rpc_handler os le hg req s = Inr (s', out) \<Longrightarrow>
    filter (\<lambda>e. e \<noteq> Spurious) evs = deliver out \<Longrightarrow>
    read_session os le t ofd env os' fd rfd x (ns @ [n]) (res @ [(r, take (nat r) b)]) (s', c', w')"

text \<open>The request an interposed \<open>read\<close> sends.\<close>

lemma read_request:
  assumes "wrap_read os env hs cb evs fd False buf n (c, w) = Inr (r, b, c', w')"
    and "sent c' = sent c @ [(h, Read_Req req)]" and "fd_redir_map c fd = Some rfd"
  shows "req = mk_rpc_in (wrap64 n) (send_bulk_handle hs) rfd fd (-1) (client_rank c)"
proof -
  from assms(1) obtain r0 b0 where "remote_read_at env hs cb evs fd False buf n (-1) c = Inr (r0, b0, c')"
    by (auto simp: wrap_read_def ftc_remote_read_def andThen_iffs Let_def case_prod_unfold split: if_splits)
  with assms(2) obtain host c1 where
    g: "ftc_client_comm_gen_read_rpc env hs host fd False (wrap64 n) (-1) c = Inr c1"
    "ftc_read_block host (ftc_read_cb env cb host fd) evs buf (-1) c1 = Inr (r0, b0, c')"
    by (auto simp: remote_read_at_def andThen_iffs split: if_splits)
  have "sent c' = sent c1"
    using g(2) by (auto simp: read_block_eq andThen_iffs quiet_step_def split: wait_end.splits
        dest!: read_cb_effect count_timeout_effect)
  with gen_read_sent [OF g(1)] assms(2,3) show ?thesis by simp
qed

text \<open>An interposed \<open>read\<close> that sent its request and was answered.\<close>

lemma answered_read:
  assumes "wrap_read os env hs cb evs fd False buf n (c, w) = Inr (r, b, c', w')"
    and "sent c' = sent c @ [(h, Read_Req req)]" and "fd_redir_map c fd = Some rfd"
    and "wait_ends evs = Answered 0 0 v" and "0 \<le> v" and "v < 2147483648"
  shows "r = v" "b = received buf evs" "fd_map c' = fd_map c" "fd_redir_map c' = fd_redir_map c"
proof -
  from assms(1) obtain r0 b0 c0 where rd: "remote_read_at env hs cb evs fd False buf n (-1) c = Inr (r0, b0, c0)"
    and res: "Inr (r, b, c', w') = (if wrap32 r0 < 0
        then Inr (wrap32 (fst (fst (sys_read os fd n w))),
               store_bytes b0 (snd (fst (sys_read os fd n w))), c0, snd (sys_read os fd n w))
        else (Inr (wrap32 r0, b0, c0, w) :: _ res))"
    by (auto simp: wrap_read_def ftc_remote_read_def andThen_iffs Let_def case_prod_unfold split: if_splits)
  then have c0: "c0 = c'" by (auto split: if_splits)
  from rd assms(2,4) c0 obtain host c1 where
    g: "ftc_client_comm_gen_read_rpc env hs host fd False (wrap64 n) (-1) c = Inr c1"
    "ftc_read_cb env cb host fd 0 0 v (-1, c1) = Inr (r0, c')" "b0 = received buf evs"
    by (auto simp: remote_read_at_def andThen_iffs read_block_eq split: if_splits)
  from read_cb_effect [OF g(2)] have cb: "quiet_step c1 c'" "fd_redir_map c' = fd_redir_map c1" "r0 = v"
    by simp_all
  then have "r0 = v" "wrap32 r0 = v" using assms(5,6) by simp_all
  with res assms(5) g(3) show "r = v" "b = received buf evs" by auto
  note snt = gen_read_sent [OF g(1)]
  show "fd_map c' = fd_map c" "fd_redir_map c' = fd_redir_map c"
    using snt cb assms(3) by (simp_all add: quiet_step_def rpc_frame_def)
qed

section \<open>Sessions implement the abstract view\<close>

text \<open>Both sides know the descriptor, and the server's offset is the number of bytes read.\<close>

definition session_ok ::
  "('w \<Rightarrow> path \<rightharpoonup> byte list) \<Rightarrow> ('w \<Rightarrow> int \<rightharpoonup> path \<times> int) \<Rightarrow> int \<Rightarrow> int \<Rightarrow> path \<Rightarrow> byte list \<Rightarrow> nat \<Rightarrow>
   'w server \<times> client \<times> 'v \<Rightarrow> bool" where
  "session_ok content ofd fd rfd q d k x \<longleftrightarrow>
     (case x of (s, c, w) \<Rightarrow>
        server_ok content ofd s \<and> ofd (world s) rfd = Some (q, int k) \<and>
        content (world s) q = Some d \<and> fd_redir_map c fd = Some rfd)"

text \<open>One read moves the offset by the piece it returns.\<close>

lemma session_read_ok:
  assumes "posix_files os content ofd" and "0 \<le> rfd" and "rfd < 2147483648"
    and ok: "session_ok content ofd fd rfd q d k (s, c, w)"
    and "wrap_read os' env hs cb evs fd False buf n (c, w) = Inr (r, b, c', w')"
    and "sent c' = sent c @ [(h, Read_Req req)]"
    and "0 \<le> n" and "n < 2147483648"
    and "served hg req s" and "fst (fst (sys_read os rfd n (world s))) \<noteq> -1"
    and "ftc_rpc_handler os le hg req s = Inr (s', out)"
    and "filter (\<lambda>e. e \<noteq> Spurious) evs = deliver out"
  shows "[(r, take (nat r) b)] = chunks (drop k d) [n] \<and>
    session_ok content ofd fd rfd q d (k + length (take (nat n) (drop k d))) (s', c', w')"
proof -
  let ?bs = "take (nat n) (drop k d)"
  have state: "server_ok content ofd s" "ofd (world s) rfd = Some (q, int k)"
    "content (world s) q = Some d" "fd_redir_map c fd = Some rfd"
    using ok by (simp_all add: session_ok_def)
  have "req = mk_rpc_in (wrap64 n) (send_bulk_handle hs) rfd fd (-1) (client_rank c)"
    by (rule read_request [OF assms(5,6) state(4)])
  then have req: "offset req = -1" "input_val req = n" "accessfd req = rfd"
    using assms(2,3,7,8) by (simp_all add: mk_rpc_in_def)
  have short: "0 \<le> int (length ?bs)" "int (length ?bs) < 2147483648" using assms(7,8) by simp_all
  from sequential_outcome [OF assms(1,9) req(1) _ _ state(3), of "int k" le] req assms(8,10,11) state(2)
  obtain st where st: "out_xfer out = Some st" "pushed st = ?bs"
    "out_resp (ftc_rpc_handler_bulk_cb 0 0 st (out_live out)) = Some (Read_Out (int (length ?bs)))"
    "ofd (world s') = (ofd (world s))(rfd \<mapsto> (q, int k + int (length ?bs)))"
    by auto
  have evs: "filter (\<lambda>e. e \<noteq> Spurious) evs = [Push ?bs, Callback 0 0 (int (length ?bs))]"
    using assms(12) st by (simp add: deliver_def answer_event_def)
  have ends: "wait_ends evs = Answered 0 0 (int (length ?bs))" "pushed_before evs = [?bs]"
    using wait_ends_spurious [of evs] pushed_before_spurious [of evs] evs by simp_all
  note rd = answered_read [OF assms(5,6) state(4) ends(1) short]
  have "server_ok content ofd s' \<and> keeps content (world s) (world s')"
    by (rule posix_files.read_keeps_ok [OF assms(1) state(1) assms(11)])
  then have "session_ok content ofd fd rfd q d (k + length ?bs) (s', c', w')"
    using st(4) state rd(4) short by (simp add: session_ok_def keeps_def)
  moreover have got: "(r, take (nat r) b) = (int (length ?bs), ?bs)"
    unfolding rd(1) unfolding rd(2) received_def ends(2) by (simp del: length_take)
  ultimately show ?thesis unfolding got by simp
qed

lemma session_results:
  assumes "posix_files os content ofd" and "0 \<le> rfd" and "rfd < 2147483648"
    and "read_session os le t ofd env os' fd rfd x ns res y"
    and "session_ok content ofd fd rfd q d k x"
  shows "res = chunks (drop k d) ns \<and> session_ok content ofd fd rfd q d (k + length (bytes_of res)) y"
  using assms(4,5)
proof (induction rule: read_session.induct)
  case session_start
  then show ?case by simp
next
  case (session_server ns res s c w s')
  then have "res = chunks (drop k d) ns"
    "session_ok content ofd fd rfd q d (k + length (bytes_of res)) (s, c, w)" by blast+
  with posix_files.run_keeps_ok [OF assms(1) session_server.hyps(2)] session_server.hyps(3)
  show ?case by (auto simp: session_ok_def keeps_def)
next
  case (session_client ns res s c w ops c' w')
  then show ?case by (auto simp: session_ok_def)
next
  case (session_read ns res s c w hs cb evs buf n r b c' w' h req hg s' out)
  let ?k = "k + length (bytes_of res)"
  from session_read.IH session_read.prems
  have res: "res = chunks (drop k d) ns" and ok: "session_ok content ofd fd rfd q d ?k (s, c, w)" by blast+
  note step = session_read_ok [OF assms(1-3) ok session_read.hyps(2,3,4,5,7,8,9,10)]
  have "drop (length (bytes_of res)) (drop k d) = drop ?k d" by (simp add: add.commute)
  then have "chunks (drop k d) (ns @ [n]) = res @ chunks (drop ?k d) [n]"
    unfolding chunks_snoc res [symmetric] by (simp only:)
  with conjunct1 [OF step] have new: "res @ [(r, take (nat r) b)] = chunks (drop k d) (ns @ [n])"
    by (simp only:)
  have "take (nat r) b = take (nat n) (drop ?k d)" 
    using arg_cong [OF conjunct1 [OF step], of "\<lambda>xs. snd (hd xs)"] by simp
  then have "bytes_of (res @ [(r, take (nat r) b)]) = bytes_of res @ take (nat n) (drop ?k d)" by simp
  with conjunct2 [OF step] new show ?case by (simp only: length_append add.assoc)
qed

text \<open>An open that hands out a descriptor leaves it at the start of a file with the path's data.\<close>

lemma opened_at_start:
  assumes "posix_files os content ofd" and "server_ok content ofd s"
    and "ftc_open_rpc_handler os le hg oin s = Inr (s1, out1)"
    and "out_resp out1 = Some (Open_Out rfd)" and "0 \<le> rfd"
    and "content (world s1) (open_path oin) = Some d"
  obtains q where "ofd (world s1) rfd = Some (q, 0)" and "content (world s1) q = Some d"
proof -
  let ?q = "redirect s (open_path oin)"
  from assms(3) have op: "sys_open os ?q O_RDONLY (world s) = (rfd, world s1)"
    by (rule open_handler_effect) (use assms(4) in auto)
  have same: "content (world s1) = content (world s)"
    using posix_files.open_content [OF assms(1), of ?q "world s"] op by simp
  have "ofd (world s1) rfd = Some (?q, 0)"
    using posix_files.open_ofd [OF assms(1) op] assms(5) by auto
  moreover have "content (world s1) ?q = Some d"
    using assms(2,6) unfolding same
    by (fastforce simp: redirect_def server_ok_def cache_ok_def same_data_def split: option.splits)
  ultimately show thesis by (rule that)
qed

section \<open>A session on the demonstration file\<close>

abbreviation demo_at :: "nat \<Rightarrow> fsys server \<Rightarrow> bool" where
  "demo_at k s \<equiv> server_addr_str s = [CHR ''s'', NUL] \<and>
     world s = demo_fs\<lparr>fs_table := [0 \<mapsto> (''/d/a'', int k)]\<rparr>"

abbreviation demo_reader :: "client \<Rightarrow> bool" where
  "demo_reader c \<equiv> demo_like c \<and> fd_map c 7 = Some ''/d/a'' \<and> fd_redir_map c 7 = Some 0 \<and>
     timeout_counters c = [0, 0]"

lemma demo_seq_handled:
  assumes "demo_at k s" and "bs = take 3 (drop k demo_data)"
  shows "\<exists>s'. ftc_rpc_handler fsys_os demo_le demo_call (demo_read_in 3 (-1)) s =
      Inr (s', transferring (demo_read_in 3 (-1)) (int (length bs)) bs) \<and> demo_at (k + length bs) s'"
proof -
  have srv: "served demo_call (demo_read_in 3 (-1)) s"
    using assms(1) by (simp add: served_def demo_call_def demo_read_in_def demo_peer)
  have "sequential_read fsys_os (demo_read_in 3 (-1)) (input_val (demo_read_in 3 (-1))) (world s) =
      ((int (length bs), bs), demo_fs\<lparr>fs_table := [0 \<mapsto> (''/d/a'', int (k + length bs))]\<rparr>)"
    using assms by (simp add: sequential_read_def demo_read_in_def fsys_read_def fsys_data_def
        demo_fs_def Let_def)
  from sequential_handler_runs [OF srv _ this, of demo_le] show ?thesis
    using assms(1) by (auto simp: demo_read_in_def frame_def)
qed

lemma demo_seq_delivered:
  assumes "length bs \<le> 3"
  shows "deliver (transferring (demo_read_in 3 (-1)) (int (length bs)) bs) =
    [Push bs, Callback 0 0 (int (length bs))]"
  using assms by (simp add: deliver_def transferring_def transfer_def demo_read_in_def store_bytes_def
      pushed_def answer_event_def ftc_rpc_handler_bulk_cb_def answered_def Let_def)

lemma demo_session_step:
  assumes "read_session fsys_os demo_le t fs_table demo_cenv fsys_os 7 0 x ns res (s, c, w)"
    and "demo_at k s" and "demo_reader c" and bs: "bs = take 3 (drop k demo_data)"
  shows "\<exists>s' c'. read_session fsys_os demo_le t fs_table demo_cenv fsys_os 7 0 x (ns @ [3])
      (res @ [(int (length bs), bs)]) (s', c', w) \<and> demo_at (k + length bs) s' \<and> demo_reader c'"
proof -
  have len: "length bs \<le> 3" using bs by simp
  obtain s' where h: "ftc_rpc_handler fsys_os demo_le demo_call (demo_read_in 3 (-1)) s =
      Inr (s', transferring (demo_read_in 3 (-1)) (int (length bs)) bs)" "demo_at (k + length bs) s'"
    using demo_seq_handled [OF assms(2) bs] by blast
  let ?req = "mk_rpc_in 3 0 0 7 (-1) 0"
  let ?c = "c\<lparr>sent := sent c @ [(0, Read_Req ?req)]\<rparr>"
  have req: "?req = demo_read_in 3 (-1)" by (simp add: mk_rpc_in_def demo_read_in_def)
  have "remote_read_at demo_cenv demo_hs demo_cb [Push bs, Callback 0 0 (int (length bs))] 7 False
      [0, 0, 0] 3 (-1) c = Inr (int (length bs), store_bytes [0, 0, 0] bs, ?c)"
    using demo_read(1) [of c 7 "''/d/a''" 0 0 "[0]" bs "int (length bs)" "[0, 0, 0]" 3 "-1"] assms(3)
    by simp
  then have rd: "wrap_read fsys_os demo_cenv demo_hs demo_cb [Push bs, Callback 0 0 (int (length bs))] 7
      False [0, 0, 0] 3 (c, w) = Inr (int (length bs), store_bytes [0, 0, 0] bs, ?c, w)"
    using len by (simp add: wrap_read_def ftc_remote_read_def Let_def)
  have srv: "served demo_call ?req s"
    using assms(2) by (simp add: req served_def demo_call_def demo_read_in_def demo_peer)
  have "fst (fst (sys_read fsys_os 0 3 (world s))) \<noteq> -1"
    using assms(2) by (simp add: fsys_read_def fsys_data_def demo_fs_def Let_def)
  from session_read [OF assms(1) rd _ _ _ _ srv this h(1) [folded req]] len demo_seq_delivered [OF len]
  have "read_session fsys_os demo_le t fs_table demo_cenv fsys_os 7 0 x (ns @ [3])
      (res @ [(int (length bs), bs)]) (s', ?c, w)"
    by (simp add: req)
  moreover have "demo_reader ?c" using assms(3) by (simp add: demo_like_def)
  ultimately show ?thesis using h(2) by blast
qed

end
