(* ===== verification/Hex_Dump.thy ===== *)
theory Hex_Dump
  imports C_Strings
begin

unbundle bit_operations_syntax

text \<open>
  The debugging aid \<open>buffer_to_hex\<close>, which ftc_comm.cpp and wrappers.c both define: two
  hexadecimal digits per byte into a freshly allocated, terminated array. The lemmas show that
  the loop stays in its array, and that the text can be decoded back.
\<close>

definition hex_digits :: string where
  "hex_digits = ''0123456789ABCDEF''"

definition hex_digit :: "byte \<Rightarrow> char" where
  "hex_digit n = hex_digits ! unat (n AND 15)"

text \<open>The loop from index \<open>i\<close>: the two stores of each iteration are bounds-checked.\<close>

fun hex_loop :: "byte list \<Rightarrow> nat \<Rightarrow> char list \<Rightarrow> char list res" where
  "hex_loop [] i hex_str = Inr hex_str"
| "hex_loop (b # bs) i hex_str =
     andThen (put_char hex_str (i * 2) (hex_digit (drop_bit 4 b))) (\<lambda>h1.
     andThen (put_char h1 (i * 2 + 1) (hex_digit b)) (\<lambda>h2.
     hex_loop bs (i + 1) h2))"

text \<open>\<open>heap\<close> is what \<^verbatim>\<open>malloc\<close> returns: the block's contents, or \<open>None\<close> for a null pointer.\<close>

definition buffer_to_hex :: "byte list \<Rightarrow> char list option \<Rightarrow> char list option res" where
  "buffer_to_hex buf heap =
     (case heap of
        None \<Rightarrow> Inr None
      | Some block \<Rightarrow>
          andThen (hex_loop buf 0 block) (\<lambda>h.
          andThen (put_char h (length buf * 2) NUL) (\<lambda>h'. Inr (Some h'))))"

text \<open>The text the loop writes, and the reader that inverts it.\<close>

definition hex_text :: "byte list \<Rightarrow> string" where
  "hex_text bs = concat (map (\<lambda>b. [hex_digit (drop_bit 4 b), hex_digit b]) bs)"

definition unhex_digit :: "char \<Rightarrow> byte option" where
  "unhex_digit c =
     map_option of_nat (List.find (\<lambda>i. hex_digits ! i = c) [0..<16])"

fun unhex :: "string \<Rightarrow> byte list option" where
  "unhex [] = Some []"
| "unhex [c] = None"
| "unhex (c # d # cs) =
     (case (unhex_digit c, unhex_digit d, unhex cs) of
        (Some h, Some l, Some bs) \<Rightarrow> Some ((push_bit 4 h OR l) # bs)
      | _ \<Rightarrow> None)"

lemma length_hex_text [simp]: "length (hex_text bs) = 2 * length bs"
  by (induction bs) (simp_all add: hex_text_def)

lemma nibble_less: "unat (b AND 15 :: byte) < 16"
proof -
  have "unat (b AND 15) \<le> unat (15 :: byte)"
    by (rule word_and_le1 [THEN word_le_nat_alt [THEN iffD1]])
  then show ?thesis by simp
qed

lemma hex_digits_distinct:
  assumes "i < 16" and "j < 16" and "hex_digits ! i = hex_digits ! j"
  shows "i = j"
proof -
  have "distinct hex_digits" "length hex_digits = 16" by (simp_all add: hex_digits_def)
  with assms show ?thesis by (simp add: nth_eq_iff_index_eq)
qed

lemma unhex_digit_hex: "unhex_digit (hex_digit b) = Some (b AND 15)"
proof -
  let ?n = "unat (b AND 15)"
  have "hex_digits ! j \<noteq> hex_digits ! ?n" if "j < ?n" for j
    using hex_digits_distinct [of j ?n] nibble_less [of b] that by auto
  then have "List.find (\<lambda>i. hex_digits ! i = hex_digits ! ?n) [0..<16] = Some ?n"
    using nibble_less [of b] by (auto simp: find_Some_iff intro!: exI [of _ ?n])
  then show ?thesis by (simp add: unhex_digit_def hex_digit_def)
qed

lemma nibbles_join: "push_bit 4 (drop_bit 4 b AND 15) OR (b AND 15) = (b :: byte)"
proof -
  have m: "(15 :: byte) = mask 4" by (simp add: mask_eq_exp_minus_1)
  show ?thesis
    unfolding m
    by (rule bit_word_eqI) (auto simp: bit_or_iff bit_and_iff bit_push_bit_iff bit_drop_bit_eq bit_mask_iff)
qed

lemma hex_loop_ok:
  "pre @ rest = heap \<Longrightarrow> length pre = 2 * i \<Longrightarrow> 2 * length bs \<le> length rest \<Longrightarrow>
   hex_loop bs i heap = Inr (pre @ hex_text bs @ drop (2 * length bs) rest)"
proof (induction bs arbitrary: i pre rest heap)
  case Nil
  then show ?case by (simp add: hex_text_def)
next
  case (Cons b bs)
  from Cons.prems(3) obtain x y rest' where rest: "rest = x # y # rest'"
    by (metis Suc_le_length_iff length_Cons mult_Suc_right numeral_2_eq_2 add_Suc add_0)
  let ?h = "hex_digit (drop_bit 4 b)" and ?l = "hex_digit b"
  have one: "put_char heap (i * 2) ?h = Inr (pre @ ?h # y # rest')"
    using Cons.prems rest by (auto simp: put_char_def list_update_append)
  have two: "put_char (pre @ ?h # y # rest') (i * 2 + 1) ?l = Inr ((pre @ [?h, ?l]) @ rest')"
    using Cons.prems rest by (simp add: put_char_def list_update_append)
  have "hex_loop bs (i + 1) ((pre @ [?h, ?l]) @ rest') =
      Inr ((pre @ [?h, ?l]) @ hex_text bs @ drop (2 * length bs) rest')"
    using Cons.prems rest by (intro Cons.IH) auto
  then show ?case
    unfolding hex_loop.simps one andThen_simps two rest by (simp add: hex_text_def)
qed

lemma unhex_hex_text: "unhex (hex_text bs) = Some bs"
proof (induction bs)
  case Nil
  then show ?case by (simp add: hex_text_def)
next
  case (Cons b bs)
  have "hex_text (b # bs) = hex_digit (drop_bit 4 b) # hex_digit b # hex_text bs"
    by (simp add: hex_text_def)
  then show ?case
    by (simp only: unhex.simps unhex_digit_hex Cons.IH option.case prod.case nibbles_join)
qed

lemma hex_digit_not_NUL: "hex_digit b \<noteq> NUL"
proof -
  have "hex_digits ! unat (b AND 15) \<in> set hex_digits"
    using nibble_less [of b] by (intro nth_mem) (simp add: hex_digits_def)
  moreover have "NUL \<notin> set hex_digits" by (simp add: hex_digits_def NUL_def)
  ultimately show ?thesis unfolding hex_digit_def by metis
qed

lemma no_nul_hex_text: "no_nul (hex_text bs)"
  using hex_digit_not_NUL by (induction bs) (auto simp: hex_text_def)

end
