(* ===== verification/Common_Properties.thy ===== *)
theory Common_Properties
  imports Demo Hex_Dump
begin

text \<open>
  The properties of what both sides share: the registry of server addresses, the host comparison,
  the log files, the logger's configuration and the hexadecimal dump.
\<close>

section \<open>Finding a server\<close>

text \<open>Several servers of a job posting their addresses one after the other.\<close>

fun list_addrs ::
  "string option \<Rightarrow> (path \<Rightarrow> bool) \<Rightarrow> char list \<Rightarrow> (int \<times> string) list \<Rightarrow> (path \<rightharpoonup> string) \<Rightarrow>
   (path \<rightharpoonup> string) res" where
  "list_addrs jobid openable buf [] files = Inr files"
| "list_addrs jobid openable buf ((r, a) # es) files =
     andThen (ftc_comm_list_addr jobid openable a r buf files)
       (\<lambda>(addr_str, files1). list_addrs jobid openable buf es files1)"

lemma list_addrs_text:
  assumes "list_addrs jobid openable buf es files = Inr files'" and "ports_filename jobid = Inr f"
    and "files f = Some t"
  shows "files' f = Some (fold (\<lambda>(r, a). post_line r a) es t)"
  using assms
proof (induction es arbitrary: files t)
  case Nil
  then show ?case by simp
next
  case (Cons e es)
  obtain r a where e: "e = (r, a)" by (cases e)
  from Cons.prems obtain b files1 where
    1: "ftc_comm_list_addr jobid openable a r buf files = Inr (b, files1)"
      "list_addrs jobid openable buf es files1 = Inr files'"
    by (auto simp: e andThen_iffs)
  from 1(1) have "files1 f = Some (post_line r a t)"
    by (rule list_addr_effect) (use Cons.prems in auto)
  from Cons.IH [OF 1(2) Cons.prems(2) this] show ?case by (simp add: e)
qed

text \<open>
  C11. What the servers of a job post is what its clients find. After any number of servers have
  posted to a fresh address file, a client that looks up a rank connects to the first address
  posted for it and remembers it; for a rank nobody posted, the client goes on with an address
  variable that was never set.
\<close>

theorem clients_find_posted_servers:
  assumes "list_addrs jobid openable buf es files = Inr files'"
    and "list_all (\<lambda>(r, a). postable r a) es" and "ports_filename jobid = Inr f"
    and "files f = Some []" and "cache rank = None"
  shows "ftc_client_comm_lookup_addr lookup2 jobid files' rank cache =
    (case map_of es rank of
       None \<Rightarrow> Inl Uninitialised
     | Some a \<Rightarrow> andThen (hg_addr_of (lookup2 a)) (\<lambda>h. Inr (h, cache(rank \<mapsto> a))))"
proof -
  have "files' f = Some (fold (\<lambda>(r, a). post_line r a) es [])"
    by (rule list_addrs_text [OF assms(1,3,4)])
  then show ?thesis
    using ports.find_all [OF assms(2), of rank] assms(3,5)
    by (auto simp: ftc_client_comm_lookup_addr_def split: option.splits)
qed

theorem clients_find_posted_servers_witness:
  "\<exists>files'. ftc_client_comm_lookup_addr (\<lambda>a. Some a) (Some ''j'') files' 1 Map.empty =
    (case map_of [(0, ''t:h:1''), (1, ''t:g:2'')] (1 :: int) of
       None \<Rightarrow> Inl Uninitialised
     | Some a \<Rightarrow> andThen (hg_addr_of (Some a)) (\<lambda>h. Inr (h, [1 \<mapsto> a])))"
proof -
  let ?es = "[(0 :: int, ''t:h:1''), (1, ''t:g:2'')]"
  have g: "extract_ip_portion ''t:g:2'' (replicate 128 NUL) 128 = Inr (''t:g:'' @ replicate 124 NUL)"
    by code_simp
  obtain files' where la: "list_addrs (Some ''j'') (\<lambda>f. True) (replicate 128 NUL) ?es
      [''./.ports.cfg.j'' \<mapsto> []] = Inr files'"
    by (simp add: ftc_comm_list_addr_def demo_ports_file demo_ip g)
  have lall: "list_all (\<lambda>(r, a). postable r a) ?es" by code_simp
  have "ftc_client_comm_lookup_addr (\<lambda>a. Some a) (Some ''j'') files' 1 Map.empty =
    (case map_of ?es 1 of
       None \<Rightarrow> Inl Uninitialised
     | Some a \<Rightarrow> andThen (hg_addr_of (Some a)) (\<lambda>h. Inr (h, [1 \<mapsto> a])))"
    by (rule clients_find_posted_servers [where cache = "\<lambda>r. None" and rank = 1 and
          ?lookup2.0 = "\<lambda>a. Some a" and f = "''./.ports.cfg.j''" and es = ?es and
          files = "[''./.ports.cfg.j'' \<mapsto> []]", OF la lall demo_ports_file fun_upd_same refl])
  then show ?thesis by (intro exI [of _ files'])
qed

text \<open>
  C32. A server that starts is found: if the address file held only well-formed lines, none with
  the server's rank, then after the start a client's lookup of that rank connects to the
  server's address, the server's maps and queue are empty, and its host string is the part of
  its address up to the second colon.
\<close>

theorem started_server_is_found:
  assumes "ftc_start_comm_server env w L files = Inr (s, files')"
    and "ports_filename (se_getenv env ''MY_JOBID'') = Inr f"
    and "files f = Some t" and "ports_valid t" and "scan_ports t (server_rank s) = Inr None"
    and "no_nul (se_self_addr env)" and "postable (server_rank s) (se_self_addr env)"
    and "lookup2 (se_self_addr env) = Some h"
  shows "server_start s \<and>
    cstr (server_addr_str s) = Inr (take (min (ip_length (se_self_addr env)) 127) (se_self_addr env)) \<and>
    ftc_client_comm_lookup_addr lookup2 (se_getenv env ''MY_JOBID'') files' (server_rank s) Map.empty =
      Inr (HG_ADDR h, [server_rank s \<mapsto> se_self_addr env])"
proof -
  from assms(1) obtain r where r: "server_rank s = atoi r" "server_start s"
    "extract_ip_portion (se_self_addr env) (replicate 128 NUL) 128 = Inr (server_addr_str s)"
    "files' = files(f \<mapsto> post_line (server_rank s) (se_self_addr env) t)"
    by (rule start_effect) (use assms(2,3) in auto)
  have "cstr (server_addr_str s) = Inr (take (min (ip_length (se_self_addr env)) 127) (se_self_addr env))"
    using extract_ip_portion_ok [of "replicate 128 NUL" "se_self_addr env"] assms(6) r(3) by auto
  moreover have "scan_ports (post_line (server_rank s) (se_self_addr env) t) (server_rank s) =
      Inr (Some (se_self_addr env))"
    using ports.find_post [OF assms(4,7)] assms(5) by simp
  ultimately show ?thesis
    using r(2,4) assms(2,8) by (simp add: ftc_client_comm_lookup_addr_def hg_addr_of_def)
qed

theorem started_server_is_found_witness:
  "\<exists>s files'. server_start (s :: fsys server) \<and>
    cstr (server_addr_str s) = Inr (take (min (ip_length (se_self_addr demo_env)) 127)
      (se_self_addr demo_env)) \<and>
    ftc_client_comm_lookup_addr (\<lambda>a. Some a) (se_getenv demo_env ''MY_JOBID'') files' (server_rank s)
      Map.empty = Inr (HG_ADDR (se_self_addr demo_env), [server_rank s \<mapsto> se_self_addr demo_env])"
proof -
  have rank: "atoi ''0'' = 0" by code_simp
  obtain s f where s: "ftc_start_comm_server demo_env demo_fs Map.empty [''./.ports.cfg.j'' \<mapsto> []] =
      Inr (s, f)" and r: "server_rank s = 0"
    by (simp add: ftc_start_comm_server_def ftc_init_comm_def demo_env_def initialize_log_def
        ftc_comm_list_addr_def demo_ports_file demo_ip rank Let_def)
  have fname: "ports_filename (se_getenv demo_env ''MY_JOBID'') = Inr ''./.ports.cfg.j''"
    by (simp add: demo_env_def demo_ports_file)
  have addr: "no_nul (se_self_addr demo_env)" "postable (server_rank s) (se_self_addr demo_env)"
    unfolding r demo_env_def by code_simp+
  from started_server_is_found [OF s fname _ ports.valid_empty ports.find_empty addr,
      of "\<lambda>a. Some a" "se_self_addr demo_env"]
  show ?thesis by auto
qed

section \<open>Comparing hosts\<close>

lemma ip_length_parts:
  assumes "CHR '':'' \<notin> set a" and "CHR '':'' \<notin> set b"
  shows "take (min (ip_length (a @ '':'' @ b @ '':'' @ p)) n) (a @ '':'' @ b @ '':'' @ p) =
    take n (a @ '':'' @ b @ '':'')"
proof -
  have "ip_length (a @ '':'' @ b @ '':'' @ p) = length a + length b + 2"
    using second_colon_split [OF assms] by (simp add: ip_length_def)
  then show ?thesis by (simp add: take_Cons' min_def)
qed

lemma host_parts_inject:
  assumes "CHR '':'' \<notin> set a" and "CHR '':'' \<notin> set b"
    and "CHR '':'' \<notin> set a'" and "CHR '':'' \<notin> set b'"
    and "a @ '':'' @ b @ '':'' = a' @ '':'' @ b' @ '':''"
  shows "a = a' \<and> b = b'"
proof -
  have "strchr (a @ '':'' @ b @ '':'') CHR '':'' = Some (length a)"
    "strchr (a' @ '':'' @ b' @ '':'') CHR '':'' = Some (length a')"
    using assms(1,3) by (simp_all add: strchr_append)
  then have "length a = length a'" unfolding assms(5) by simp
  with assms(5) show ?thesis by simp
qed

text \<open>
  The logged flag says whether client and server run on one host: for addresses of the form
  protocol, colon, host, colon, port, whose first two parts fit the 128-byte arrays, it is 1
  exactly when protocol and host are equal, whatever the ports, and no array is overrun.
\<close>

theorem same_host_flag:
  assumes "CHR '':'' \<notin> set a" and "CHR '':'' \<notin> set b"
    and "CHR '':'' \<notin> set a'" and "CHR '':'' \<notin> set b'"
    and "no_nul (a @ '':'' @ b @ '':'' @ p)" and "no_nul (a' @ '':'' @ b' @ '':'' @ p')"
    and "length a + length b < 126" and "length a' + length b' < 126"
    and "extract_ip_portion (a @ '':'' @ b @ '':'' @ p) (replicate 128 NUL) 128 = Inr own"
  shows "peer_flag own (a' @ '':'' @ b' @ '':'' @ p') =
    Inr (if a = a' \<and> b = b' then 1 else 0)"
proof -
  obtain ip where ip: "extract_ip_portion (a' @ '':'' @ b' @ '':'' @ p') (replicate 128 NUL) 128 = Inr ip"
    using extract_ip_portion_ok [of "replicate 128 NUL" "a' @ '':'' @ b' @ '':'' @ p'"] assms(6) by auto
  have "strcmp_flag own ip = Inr (if a @ '':'' @ b @ '':'' = a' @ '':'' @ b' @ '':'' then 1 else 0)"
    using strcmp_extract [OF _ assms(5,6,9) _ ip] assms(7,8)
    unfolding ip_length_parts [OF assms(1,2)] ip_length_parts [OF assms(3,4)] by simp
  moreover have "a @ '':'' @ b @ '':'' = a' @ '':'' @ b' @ '':'' \<longleftrightarrow> a = a' \<and> b = b'"
    using host_parts_inject [OF assms(1-4)] by auto
  ultimately show ?thesis unfolding peer_flag_def ip andThen_simps by simp
qed

theorem same_host_flag_witness:
  "peer_flag (''t:h:'' @ replicate 124 NUL) (''t'' @ '':'' @ ''h'' @ '':'' @ ''99'') =
    Inr (if ''t'' = ''t'' \<and> ''h'' = ''h'' then 1 else 0)"
proof (rule same_host_flag [where p = "''1''"])
  show "extract_ip_portion (''t'' @ '':'' @ ''h'' @ '':'' @ ''1'') (replicate 128 NUL) 128 =
      Inr (''t:h:'' @ replicate 124 NUL)"
    using demo_ip by simp
qed (simp_all add: NUL_def)

section \<open>The log\<close>

text \<open>
  Logging appends: a record whose three strings are terminated is written without a fault, it
  only adds text at the end of the log file of its rank, and no other file changes. A record
  with an unterminated string is read past its array as soon as the log file can be opened.
\<close>

theorem logging_appends:
  "(log_ok i \<longrightarrow> (\<exists>M. logging_info e i ty L = Inr M \<and>
      (\<forall>f t. L f = Some t \<longrightarrow> (\<exists>u. M f = Some (t @ u))) \<and>
      (\<forall>f. f \<noteq> log_filename e ty (log_server_rank i) \<longrightarrow> M f = L f))) \<and>
   (\<not> log_ok i \<longrightarrow> log_openable e (log_filename e ty (log_server_rank i)) \<longrightarrow>
      logging_info e i ty L = Inl Overrun)"
proof (cases "log_ok i")
  case True
  note run = logging_info_ok [OF True, of e ty L]
  show ?thesis
    using True run logging_info_extends [OF run] logging_info_other [OF run] by blast
next
  case False
  then show ?thesis by (simp add: logging_info_def log_line_overrun)
qed

theorem logging_appends_witness:
  "\<exists>M. logging_info demo_le (read_log demo_call (demo_read_in 3 1) 0 1) ''server'' Map.empty = Inr M"
proof -
  have "log_ok (read_log demo_call (demo_read_in 3 1) 0 1)" by simp
  with logging_appends [of "read_log demo_call (demo_read_in 3 1) 0 1" demo_le "''server''" Map.empty]
  show ?thesis by blast
qed

text \<open>The text \<open>snprintf\<close> cuts to the size of the array.\<close>

definition log_name :: "log_env \<Rightarrow> string \<Rightarrow> int \<Rightarrow> string" where
  "log_name e ty k = text_of_env (log_dir e) @ ''/'' @ ty @ ''_node_'' @ show_int k @ ''.log''"

text \<open>
  Two ranks write to different log files as long as both names fit the 64-byte array; with a
  log directory of 63 characters or more every rank, of servers and clients alike, shares one
  name.
\<close>

theorem log_files_of_ranks:
  "(length (log_name e ty r) < 64 \<longrightarrow> length (log_name e ty q) < 64 \<longrightarrow>
      (log_filename e ty r = log_filename e ty q \<longleftrightarrow> r = q)) \<and>
    (63 \<le> length (text_of_env (log_dir e)) \<longrightarrow> log_filename e ty r = log_filename e ty' q)"
proof (intro conjI impI)
  assume "length (log_name e ty r) < 64" and "length (log_name e ty q) < 64"
  then show "log_filename e ty r = log_filename e ty q \<longleftrightarrow> r = q"
    using log_filename_inject [of e ty r q] unfolding log_name_def by auto
next
  assume "63 \<le> length (text_of_env (log_dir e))"
  then show "log_filename e ty r = log_filename e ty' q"
    by (simp add: log_filename_def snprintf_text_def)
qed

theorem log_files_of_ranks_witness:
  "log_filename \<lparr>log_dir = Some (replicate 63 CHR ''d''), log_openable = (\<lambda>f. True)\<rparr> ''server'' 0 =
   log_filename \<lparr>log_dir = Some (replicate 63 CHR ''d''), log_openable = (\<lambda>f. True)\<rparr> ''client'' 7"
  using log_files_of_ranks [of "\<lparr>log_dir = Some (replicate 63 CHR ''d''), log_openable = (\<lambda>f. True)\<rparr>"
      "''server''" 0 7 "''client''"]
  by (simp add: text_of_env_def)

text \<open>
  Configuring log4c: whatever the environment says, the priority stays in log4c's range from 0
  to 800; the prefix with the process id fits its block for ids below 100000 and overruns it
  for every id from 100000 on.
\<close>

theorem logger_configuration:
  assumes "0 \<le> pid"
  shows "(pid < 100000 \<longrightarrow> (\<exists>c. ftc_init_logging dd dp 0 env pid = Inr (Some c) \<and>
      0 \<le> l4_priority c \<and> l4_priority c \<le> 800 \<and>
      l4_dir c = (case env ''FT_Cache_LOG_DIR'' of None \<Rightarrow> dd | Some d \<Rightarrow> d) \<and>
      l4_prefix c = (case env ''FT_Cache_LOG_PREFIX'' of None \<Rightarrow> dp | Some d \<Rightarrow> d) @ ''.'' @ show_int pid)) \<and>
    (100000 \<le> pid \<longrightarrow> ftc_init_logging dd dp 0 env pid = Inl Overrun)"
  using prefix_and_pid_iff [OF assms] log_priority_range
  by (auto simp: ftc_init_logging_def)

theorem logger_configuration_witness:
  "ftc_init_logging ''.'' ''ftc'' 0 (\<lambda>v. None) 100000 = Inl Overrun"
  using logger_configuration [of 100000 "''.''" "''ftc''" "\<lambda>v. None"] by simp

section \<open>The hexadecimal dump\<close>

text \<open>
  The hexadecimal dump stays inside the block of twice the size and one byte that it
  allocates, terminates it, and loses nothing: reading its digits back gives the buffer.
\<close>

theorem hex_dump_roundtrip:
  assumes "length block = 2 * length buf + 1"
  shows "\<exists>h t. buffer_to_hex buf (Some block) = Inr (Some h) \<and> cstr h = Inr t \<and>
    length t = 2 * length buf \<and> unhex t = Some buf"
proof -
  let ?t = "hex_text buf"
  have "hex_loop buf 0 block = Inr ([] @ ?t @ drop (2 * length buf) block)"
    using assms by (intro hex_loop_ok) simp_all
  moreover have "drop (2 * length buf) block = [block ! (2 * length buf)]"
    using assms by (metis Cons_nth_drop_Suc Suc_eq_plus1 drop_all le_refl lessI)
  moreover have "(?t @ [block ! (2 * length buf)])[length buf * 2 := NUL] = ?t @ [NUL]"
    by (simp add: list_update_append mult.commute)
  ultimately have "buffer_to_hex buf (Some block) = Inr (Some (?t @ [NUL]))"
    by (simp add: buffer_to_hex_def put_char_def)
  with no_nul_hex_text [of buf] show ?thesis by (simp add: unhex_hex_text)
qed

theorem hex_dump_roundtrip_witness:
  "\<exists>h t. buffer_to_hex [202, 254] (Some (replicate 5 CHR ''x'')) = Inr (Some h) \<and> cstr h = Inr t \<and>
    length t = 2 * length [202 :: byte, 254] \<and> unhex t = Some [202, 254]"
  by (rule hex_dump_roundtrip) simp

end
