(* ===== verification/Ordered_Map.thy ===== *)
theory Ordered_Map
  imports Ftc_Base
begin

text \<open>
  \<^verbatim>\<open>std::map\<close> where the source uses its order: iteration in key order, \<open>begin()\<close> and
  \<open>lower_bound\<close>. A map is the list of its entries in key order. The locale \<open>ordered_map\<close> states
  what the source relies on; its lemmas are about the \<open>successor\<close> of a key on the circle of keys
  (the entry \<open>lower_bound\<close> finds, or the first one), which consistent hashing is made of. It is
  interpreted on the sorted lists at the end.
\<close>

section \<open>Entries in key order\<close>

fun om_update :: "'k::linorder \<Rightarrow> 'v \<Rightarrow> ('k \<times> 'v) list \<Rightarrow> ('k \<times> 'v) list" where
  "om_update k v [] = [(k, v)]"
| "om_update k v ((j, u) # m) =
     (if k < j then (k, v) # (j, u) # m
      else if k = j then (k, v) # m
      else (j, u) # om_update k v m)"

fun om_erase :: "'k::linorder \<Rightarrow> ('k \<times> 'v) list \<Rightarrow> ('k \<times> 'v) list" where
  "om_erase k [] = []"
| "om_erase k ((j, u) # m) =
     (if k < j then (j, u) # m else if k = j then m else (j, u) # om_erase k m)"

definition om_lookup :: "('k \<times> 'v) list \<Rightarrow> 'k \<rightharpoonup> 'v" where
  "om_lookup m = map_of m"

definition om_sorted :: "('k::linorder \<times> 'v) list \<Rightarrow> bool" where
  "om_sorted m \<longleftrightarrow> sorted_wrt (<) (map fst m)"

text \<open>Dereferenced iterators; \<open>None\<close> is the iterator at the end.\<close>

definition om_begin :: "('k \<times> 'v) list \<Rightarrow> ('k \<times> 'v) option" where
  "om_begin m = (case m of [] \<Rightarrow> None | e # es \<Rightarrow> Some e)"

definition om_lower_bound :: "'k::linorder \<Rightarrow> ('k \<times> 'v) list \<Rightarrow> ('k \<times> 'v) option" where
  "om_lower_bound k m = om_begin (dropWhile (\<lambda>e. fst e < k) m)"

lemma set_om_update: "fst ` set (om_update k v m) = insert k (fst ` set m)"
  by (induction k v m rule: om_update.induct) auto

lemma set_om_erase: "set (om_erase k m) \<subseteq> set m"
  by (induction k m rule: om_erase.induct) auto

lemma om_sorted_Cons [simp]: "om_sorted ((k, v) # m) \<longleftrightarrow> (\<forall>j \<in> fst ` set m. k < j) \<and> om_sorted m"
  by (simp add: om_sorted_def)

lemma om_sorted_Nil [simp]: "om_sorted []"
  by (simp add: om_sorted_def)

lemma om_lookup_simps [simp]:
  "om_lookup [] = Map.empty"
  "om_lookup ((k, v) # m) = (om_lookup m)(k \<mapsto> v)"
  by (simp_all add: om_lookup_def)

lemma om_sorted_update: "om_sorted m \<Longrightarrow> om_sorted (om_update k v m)"
  by (induction k v m rule: om_update.induct) (auto simp: set_om_update)

lemma om_sorted_erase: "om_sorted m \<Longrightarrow> om_sorted (om_erase k m)"
proof (induction k m rule: om_erase.induct)
  case (2 k j u m)
  then show ?case using set_om_erase [of k m] by (auto simp: subset_iff)
qed simp

lemma om_lookup_update: "om_lookup (om_update k v m) = (om_lookup m)(k \<mapsto> v)"
  by (induction k v m rule: om_update.induct) (auto simp: fun_upd_twist)

lemma om_lookup_None: "\<forall>j \<in> fst ` set m. (k :: 'k::linorder) < j \<Longrightarrow> om_lookup m k = None"
  by (induction m) auto

lemma om_lookup_erase: "om_sorted m \<Longrightarrow> om_lookup (om_erase k m) = (om_lookup m)(k := None)"
proof (induction k m rule: om_erase.induct)
  case (2 k j u m)
  have "om_lookup m k = None" if "k \<le> j"
    using "2.prems" that by (intro om_lookup_None) auto
  with 2 show ?case by (auto simp: fun_eq_iff)
qed simp

lemma om_lookup_Some: "om_sorted m \<Longrightarrow> om_lookup m k = Some v \<longleftrightarrow> (k, v) \<in> set m"
proof (induction m)
  case (Cons e m)
  then show ?case by (cases e) force
qed simp

lemma om_lookup_dom: "om_lookup m k \<noteq> None \<longleftrightarrow> k \<in> fst ` set m"
  by (simp add: om_lookup_def map_of_eq_None_iff)

lemma om_begin_Some:
  assumes "om_sorted m"
  shows "om_begin m = Some (k, v) \<longleftrightarrow>
    om_lookup m k = Some v \<and> (\<forall>i. om_lookup m i \<noteq> None \<longrightarrow> k \<le> i)"
proof (cases m)
  case (Cons e es)
  then show ?thesis using assms
    by (cases e) (force simp: om_begin_def om_lookup_Some om_lookup_dom [unfolded not_None_eq])
qed (simp add: om_begin_def)

lemma om_lower_bound_Some:
  "om_sorted m \<Longrightarrow> om_lower_bound h m = Some (k, v) \<longleftrightarrow>
     om_lookup m k = Some v \<and> h \<le> k \<and> (\<forall>i. om_lookup m i \<noteq> None \<longrightarrow> h \<le> i \<longrightarrow> k \<le> i)"
proof (induction m)
  case Nil
  then show ?case by (simp add: om_lower_bound_def om_begin_def)
next
  case (Cons e m)
  obtain j u where e: "e = (j, u)" by (cases e)
  show ?case
  proof (cases "j < h")
    case True
    then have "om_lower_bound h (e # m) = om_lower_bound h m" by (simp add: om_lower_bound_def e)
    with Cons True show ?thesis by (auto simp: e)
  next
    case False
    then have lb: "om_lower_bound h (e # m) = om_begin (e # m)" by (simp add: om_lower_bound_def e)
    have ge: "h \<le> i" if "om_lookup (e # m) i \<noteq> None" for i
    proof -
      from that have "i = j \<or> i \<in> fst ` set m" unfolding om_lookup_dom by (simp add: e)
      then have "j \<le> i" using Cons.prems by (auto simp: e less_imp_le)
      with False show ?thesis by simp
    qed
    show ?thesis
      unfolding lb om_begin_Some [OF Cons.prems] using ge by (metis option.distinct(1))
  qed
qed

lemma om_begin_None: "om_begin m = None \<longleftrightarrow> m = []"
  by (cases m) (simp_all add: om_begin_def)

lemma om_lower_bound_None:
  "om_lower_bound h m = None \<longleftrightarrow> (\<forall>i. om_lookup m i \<noteq> None \<longrightarrow> i < h)"
  unfolding om_lower_bound_def om_begin_None dropWhile_eq_Nil_conv om_lookup_dom by auto

section \<open>The interface\<close>

text \<open>\<open>is_successor K h k\<close>: \<open>k\<close> is the least key of \<open>K\<close> from \<open>h\<close> on, or the least one if there is none.\<close>

definition is_successor :: "'k::linorder set \<Rightarrow> 'k \<Rightarrow> 'k \<Rightarrow> bool" where
  "is_successor K h k \<longleftrightarrow> k \<in> K \<and>
     (if \<exists>i \<in> K. h \<le> i then h \<le> k \<and> (\<forall>i \<in> K. h \<le> i \<longrightarrow> k \<le> i) else (\<forall>i \<in> K. k \<le> i))"

lemma is_successor_unique: "is_successor K h k \<Longrightarrow> is_successor K h j \<Longrightarrow> k = j"
  by (auto simp: is_successor_def split: if_splits intro: antisym)

text \<open>Keys that leave do not matter unless the successor itself leaves.\<close>

lemma is_successor_subset:
  "is_successor K h k \<Longrightarrow> J \<subseteq> K \<Longrightarrow> k \<in> J \<Longrightarrow> is_successor J h k"
  by (auto simp: is_successor_def split: if_splits)

text \<open>A key that joins takes over or changes nothing.\<close>

lemma is_successor_insert:
  "is_successor (insert j K) h k \<Longrightarrow> k \<noteq> j \<Longrightarrow> is_successor K h k"
  using is_successor_subset [of "insert j K" h k K]
  by (simp add: subset_insertI) (simp add: is_successor_def)

locale ordered_map =
  fixes empty :: "'m"
    and lookup :: "'m \<Rightarrow> 'k::linorder \<rightharpoonup> 'v"
    and update :: "'k \<Rightarrow> 'v \<Rightarrow> 'm \<Rightarrow> 'm"
    and delete :: "'k \<Rightarrow> 'm \<Rightarrow> 'm"
    and first :: "'m \<Rightarrow> ('k \<times> 'v) option"
    and lower :: "'k \<Rightarrow> 'm \<Rightarrow> ('k \<times> 'v) option"
    and invar :: "'m \<Rightarrow> bool"
  assumes invar_empty: "invar empty" and lookup_empty: "lookup empty = Map.empty"
    and invar_update: "invar m \<Longrightarrow> invar (update k v m)"
    and lookup_update: "invar m \<Longrightarrow> lookup (update k v m) = (lookup m)(k \<mapsto> v)"
    and invar_delete: "invar m \<Longrightarrow> invar (delete k m)"
    and lookup_delete: "invar m \<Longrightarrow> lookup (delete k m) = (lookup m)(k := None)"
    and first_Some: "invar m \<Longrightarrow> first m = Some (k, v) \<longleftrightarrow>
      lookup m k = Some v \<and> (\<forall>i. lookup m i \<noteq> None \<longrightarrow> k \<le> i)"
    and first_None: "invar m \<Longrightarrow> first m = None \<longleftrightarrow> lookup m = Map.empty"
    and lower_Some: "invar m \<Longrightarrow> lower h m = Some (k, v) \<longleftrightarrow>
      lookup m k = Some v \<and> h \<le> k \<and> (\<forall>i. lookup m i \<noteq> None \<longrightarrow> h \<le> i \<longrightarrow> k \<le> i)"
    and lower_None: "invar m \<Longrightarrow> lower h m = None \<longleftrightarrow> (\<forall>i. lookup m i \<noteq> None \<longrightarrow> i < h)"
begin

definition successor :: "'k \<Rightarrow> 'm \<Rightarrow> ('k \<times> 'v) option" where
  "successor h m = (case lower h m of None \<Rightarrow> first m | Some e \<Rightarrow> Some e)"

lemma successor_Some:
  assumes "invar m"
  shows "successor h m = Some (k, v) \<longleftrightarrow> lookup m k = Some v \<and> is_successor (dom (lookup m)) h k"
proof (cases "lower h m")
  case None
  with lower_None [OF assms] have "\<not> (\<exists>i \<in> dom (lookup m). h \<le> i)" by (auto simp: not_le)
  with None first_Some [OF assms] show ?thesis
    by (auto simp: successor_def is_successor_def)
next
  case (Some e)
  obtain j u where "e = (j, u)" by (cases e)
  with Some lower_Some [OF assms] have j: "lookup m j = Some u" "h \<le> j"
    "\<forall>i. lookup m i \<noteq> None \<longrightarrow> h \<le> i \<longrightarrow> j \<le> i" by auto
  then have "is_successor (dom (lookup m)) h j" by (auto simp: is_successor_def)
  then have "is_successor (dom (lookup m)) h k \<longleftrightarrow> k = j"
    using is_successor_unique by blast
  with j(1) Some \<open>e = (j, u)\<close> show ?thesis by (auto simp: successor_def)
qed

lemma successor_None: "invar m \<Longrightarrow> successor h m = None \<longleftrightarrow> lookup m = Map.empty"
  using first_None lower_None by (fastforce simp: successor_def split: option.splits)

lemma invar_deletes: "invar m \<Longrightarrow> invar (fold delete ks m)"
  by (induction ks arbitrary: m) (auto intro: invar_delete)

lemma lookup_deletes: "invar m \<Longrightarrow> lookup (fold delete ks m) k = (if k \<in> set ks then None else lookup m k)"
  by (induction ks arbitrary: m) (auto simp: lookup_delete invar_delete)

lemma invar_updates: "invar m \<Longrightarrow> invar (fold (\<lambda>k. update k v) ks m)"
  by (induction ks arbitrary: m) (auto intro: invar_update)

lemma lookup_updates:
  "invar m \<Longrightarrow> lookup (fold (\<lambda>k. update k v) ks m) k = (if k \<in> set ks then Some v else lookup m k)"
  by (induction ks arbitrary: m) (auto simp: lookup_update invar_update)

text \<open>Deleting keys leaves every other successor in its place.\<close>

lemma successor_deletes:
  assumes "invar m" and "successor h m = Some (k, v)" and "k \<notin> set ks"
  shows "successor h (fold delete ks m) = Some (k, v)"
proof -
  let ?m = "fold delete ks m"
  have dom: "dom (lookup ?m) \<subseteq> dom (lookup m)" "k \<in> dom (lookup ?m)" "lookup ?m k = Some v"
    using assms by (auto simp: lookup_deletes successor_Some split: if_splits)
  with assms show ?thesis
    by (auto simp: successor_Some invar_deletes intro: is_successor_subset)
qed

lemma successor_updates:
  assumes "invar m" and "successor h (fold (\<lambda>k. update k v) ks m) = Some (k, u)"
  shows "k \<in> set ks \<and> u = v \<or> successor h m = Some (k, u)"
proof (cases "k \<in> set ks")
  case False
  let ?m = "fold (\<lambda>k. update k v) ks m"
  have "lookup m k = Some u" "dom (lookup m) \<subseteq> dom (lookup ?m)" "k \<in> dom (lookup m)"
    using assms False by (auto simp: lookup_updates successor_Some invar_updates)
  with assms show ?thesis
    by (auto simp: successor_Some invar_updates intro: is_successor_subset)
qed (use assms in \<open>auto simp: successor_Some invar_updates lookup_updates\<close>)

end

interpretation om: ordered_map "[]" om_lookup om_update om_erase om_begin om_lower_bound om_sorted
proof unfold_locales
  show "om_begin m = None \<longleftrightarrow> om_lookup m = Map.empty" for m :: "('k::linorder \<times> 'v) list"
    by (cases m) (auto simp: om_begin_def)
qed (simp_all add: om_sorted_update om_sorted_erase om_lookup_update om_lookup_erase om_begin_Some
    om_lower_bound_Some om_lower_bound_None)

end
