(* ===== verification/Hash_Ring.thy ===== *)
theory Hash_Ring
  imports Address_Book Ordered_Map "HOL-Library.List_Lexorder" "HOL-Library.Char_ord"
begin

text \<open>
  The load-distribution simulation (src/tests/load_distribution_simul.cpp): the class
  \<open>HashRing<string, string>\<close>, which places data on servers by consistent hashing, and the program
  that fails one of 1024 servers and counts where its files go. \<^verbatim>\<open>std::hash\<close>, the random generator
  and the directory listing are parameters. The lemmas show which entries a ring holds, that
  leaving servers move no data but their own and joining servers only take data, and that the
  counts of the program are those of a full recount.
\<close>

section \<open>The ring\<close>

type_synonym size_t = "64 word"

record hash_ring =
  ring_map :: "(size_t \<times> string) list"
  replica_count :: nat

definition HashRing :: "int \<Rightarrow> hash_ring" where
  "HashRing replicas = \<lparr>ring_map = [], replica_count = nat (uwrap32 replicas)\<rparr>"

definition StringifyReplica :: "nat \<Rightarrow> string" where
  "StringifyReplica num = show_nat num"

text \<open>The string a \<^verbatim>\<open>c_str()\<close> is read back as: what stands before the first terminator.\<close>

definition c_str :: "string \<Rightarrow> string" where
  "c_str s = takeWhile (\<lambda>c. c \<noteq> NUL) s"

definition replica_position :: "(string \<Rightarrow> size_t) \<Rightarrow> string \<Rightarrow> nat \<Rightarrow> size_t" where
  "replica_position hash server r = hash (c_str (server @ StringifyReplica r))"

text \<open>Without replicas \<open>AddServer\<close> returns a variable nothing was stored in.\<close>

definition AddServer :: "(string \<Rightarrow> size_t) \<Rightarrow> string \<Rightarrow> hash_ring \<Rightarrow> (size_t \<times> hash_ring) res" where
  "AddServer hash server R =
     (let (last_hash, m) =
            fold (\<lambda>r (l, m). let h = replica_position hash server r
                             in (Some h, om_update h server m))
              [0..<replica_count R] (None, ring_map R)
      in case last_hash of
           None \<Rightarrow> Inl Uninitialised
         | Some h \<Rightarrow> Inr (h, R\<lparr>ring_map := m\<rparr>))"

definition RemoveServer :: "(string \<Rightarrow> size_t) \<Rightarrow> string \<Rightarrow> hash_ring \<Rightarrow> hash_ring" where
  "RemoveServer hash server R =
     R\<lparr>ring_map := fold (\<lambda>r m. om_erase (replica_position hash server r) m)
                 [0..<replica_count R] (ring_map R)\<rparr>"

definition GetServer :: "(string \<Rightarrow> size_t) \<Rightarrow> string \<Rightarrow> hash_ring \<Rightarrow> string res" where
  "GetServer hash data R =
     (case ring_map R of
        [] \<Rightarrow> Inl (Thrown ''Empty ring'')
      | begin_entry # _ \<Rightarrow>
          (let h = hash (c_str data)
           in case om_lower_bound h (ring_map R) of
                None \<Rightarrow> Inr (snd begin_entry)
              | Some e \<Rightarrow> Inr (snd e)))"

text \<open>\<^verbatim>\<open>m[k]\<close> with a default, changed in place.\<close>

definition om_modify ::
  "'v \<Rightarrow> ('v \<Rightarrow> 'v) \<Rightarrow> 'k::linorder \<Rightarrow> ('k \<times> 'v) list \<Rightarrow> ('k \<times> 'v) list" where
  "om_modify d f k m = om_update k (f (case om_lookup m k of None \<Rightarrow> d | Some v \<Rightarrow> v)) m"

definition om_get :: "'v \<Rightarrow> 'k \<Rightarrow> ('k \<times> 'v) list \<Rightarrow> 'v" where
  "om_get d k m = (case om_lookup m k of None \<Rightarrow> d | Some v \<Rightarrow> v)"

fun distribute ::
  "(string \<Rightarrow> size_t) \<Rightarrow> hash_ring \<Rightarrow> string list \<Rightarrow> (string \<times> string list) list \<Rightarrow>
   (string \<times> string list) list res" where
  "distribute hash R [] distribution = Inr distribution"
| "distribute hash R (item # items) distribution =
     andThen (GetServer hash item R) (\<lambda>server.
     distribute hash R items (om_modify [] (\<lambda>v. v @ [item]) server distribution))"

definition GetDistribution ::
  "(string \<Rightarrow> size_t) \<Rightarrow> hash_ring \<Rightarrow> string list \<Rightarrow> (string \<times> string list) list res" where
  "GetDistribution hash R items = distribute hash R items []"

section \<open>The simulation\<close>

text \<open>
  The entries of \<^verbatim>\<open>recursive_directory_iterator\<close> are a parameter: the path of each and whether it
  is a regular file.
\<close>

definition getFilePaths :: "(path \<times> bool) list \<Rightarrow> string \<Rightarrow> path list" where
  "getFilePaths entries exclude_path =
     map fst (filter (\<lambda>(p, regular). regular \<and> \<not> contains exclude_path p) entries)"

definition csv_header :: string where
  "csv_header = ''V_NODE,X,Server,BeforeCount,AfterCount,GainedData'' @ [newline]"

definition csv_line :: "int \<Rightarrow> int \<Rightarrow> (string \<times> int) list \<Rightarrow> string \<times> int \<Rightarrow> string" where
  "csv_line V_NODE X after entry =
     (let (server, count_before) = entry; count_after = om_get 0 server after
      in show_int V_NODE @ '','' @ show_int X @ '','' @ server @ '','' @ show_int count_before @ '','' @
         show_int count_after @ '','' @ (if count_after > count_before then ''Yes'' else ''No'') @
         [newline])"

text \<open>\<open>openable\<close>: the file can be opened for appending; nothing is written otherwise.\<close>

definition writeDetailedData ::
  "bool \<Rightarrow> int \<Rightarrow> int \<Rightarrow> (string \<times> int) list \<Rightarrow> (string \<times> int) list \<Rightarrow> string \<Rightarrow> string" where
  "writeDetailedData openable V_NODE X before after file =
     (if \<not> openable then file
      else file @ (if file = [] then csv_header else []) @
        concat (map (csv_line V_NODE X after) before))"

fun add_servers :: "(string \<Rightarrow> size_t) \<Rightarrow> string list \<Rightarrow> hash_ring \<Rightarrow> hash_ring res" where
  "add_servers hash [] R = Inr R"
| "add_servers hash (server # servers) R =
     andThen (AddServer hash server R) (\<lambda>(h, R1). add_servers hash servers R1)"

definition server_names :: "int \<Rightarrow> string list" where
  "server_names R_NODE = map (\<lambda>i. ''Server'' @ show_int i) [1..R_NODE]"

text \<open>\<open>original_distribution\<close> and \<open>server_to_data\<close> after the loop over the files.\<close>

fun place_files ::
  "(string \<Rightarrow> size_t) \<Rightarrow> hash_ring \<Rightarrow> path list \<Rightarrow>
   (string \<times> int) list \<times> (string \<times> path list) list \<Rightarrow>
   ((string \<times> int) list \<times> (string \<times> path list) list) res" where
  "place_files hash R [] s = Inr s"
| "place_files hash R (file # files) s =
     andThen (GetServer hash file R) (\<lambda>server.
     place_files hash R files
       (om_modify 0 (\<lambda>n. wrap32 (n + 1)) server (fst s),
        om_modify [] (\<lambda>v. v @ [file]) server (snd s)))"

fun redistribute ::
  "(string \<Rightarrow> size_t) \<Rightarrow> hash_ring \<Rightarrow> path list \<Rightarrow> (string \<times> int) list \<Rightarrow> (string \<times> int) list res" where
  "redistribute hash R [] new_distribution = Inr new_distribution"
| "redistribute hash R (file # files) new_distribution =
     andThen (GetServer hash file R) (\<lambda>new_server.
     redistribute hash R files (om_modify 0 (\<lambda>n. wrap32 (n + 1)) new_server new_distribution))"

text \<open>
  One failure: the ring without the failed server, and the new counts. The subscript on
  \<open>server_to_data\<close> enters an empty list for a server without files.
\<close>

definition fail_server ::
  "(string \<Rightarrow> size_t) \<Rightarrow> string \<Rightarrow> (string \<times> int) list \<Rightarrow>
   hash_ring \<times> (string \<times> path list) list \<Rightarrow>
   ((string \<times> int) list \<times> hash_ring \<times> (string \<times> path list) list) res" where
  "fail_server hash failed_server original_distribution s =
     (let R1 = RemoveServer hash failed_server (fst s);
          new_distribution = om_update failed_server 0 original_distribution;
          server_to_data = om_modify [] (\<lambda>v. v) failed_server (snd s)
      in andThen (redistribute hash R1 (om_get [] failed_server server_to_data) new_distribution)
           (\<lambda>nd. Inr (nd, R1, server_to_data)))"

text \<open>
  \<open>dis n g\<close> is the random index between 0 and \<open>n\<close> that the generator gives in state \<open>g\<close>.
\<close>

fun fail_rounds ::
  "(string \<Rightarrow> size_t) \<Rightarrow> (int \<Rightarrow> 'g \<Rightarrow> int \<times> 'g) \<Rightarrow> bool \<Rightarrow> int \<Rightarrow> string list \<Rightarrow>
   (string \<times> int) list \<Rightarrow> int list \<Rightarrow>
   (hash_ring \<times> (string \<times> path list) list) \<times> 'g \<times> string \<Rightarrow> ('g \<times> string) res" where
  "fail_rounds hash dis openable V_NODE servers od [] (s, g, file) = Inr (g, file)"
| "fail_rounds hash dis openable V_NODE servers od (X # Xs) (s, g, file) =
     (let (failed_server_index, g1) = dis (int (length servers) - 1) g
      in if failed_server_index < 0 \<or> length servers \<le> nat failed_server_index then Inl Vector_Range
         else
           andThen (fail_server hash (servers ! nat failed_server_index) od s) (\<lambda>(nd, s1).
           fail_rounds hash dis openable V_NODE servers od Xs
             (s1, g1, writeDetailedData openable V_NODE X od nd file)))"

fun simulate ::
  "(string \<Rightarrow> size_t) \<Rightarrow> (int \<Rightarrow> 'g \<Rightarrow> int \<times> 'g) \<Rightarrow> bool \<Rightarrow> int \<Rightarrow> int list \<Rightarrow> path list \<Rightarrow> int list \<Rightarrow>
   'g \<times> string \<Rightarrow> ('g \<times> string) res" where
  "simulate hash dis openable R_NODE Xs file_paths [] s = Inr s"
| "simulate hash dis openable R_NODE Xs file_paths (V_NODE # Vs) s =
     andThen (add_servers hash (server_names R_NODE) (HashRing V_NODE)) (\<lambda>R.
     andThen (place_files hash R file_paths ([], [])) (\<lambda>(od, server_to_data).
     andThen (fail_rounds hash dis openable V_NODE (server_names R_NODE) od Xs
                ((R, server_to_data), s)) (\<lambda>s1.
     simulate hash dis openable R_NODE Xs file_paths Vs s1)))"

text \<open>\<open>listing\<close> is \<open>None\<close> for a directory that cannot be read: the iterator's exception.\<close>

definition simulation_main ::
  "(string \<Rightarrow> size_t) \<Rightarrow> (int \<Rightarrow> 'g \<Rightarrow> int \<times> 'g) \<Rightarrow> 'g \<Rightarrow> (path \<Rightarrow> (path \<times> bool) list option) \<Rightarrow> bool \<Rightarrow>
   string list \<Rightarrow> string \<Rightarrow> (int \<times> string) res" where
  "simulation_main hash dis gen listing openable argv file =
     (if length argv < 3 then Inr (1, file)
      else
        (let directory_path = argv ! 2; exclude_path = directory_path @ ''/test''
         in case listing directory_path of
              None \<Rightarrow> Inl (Thrown ''filesystem_error'')
            | Some entries \<Rightarrow>
                andThen (simulate hash dis openable 1024 [1] (getFilePaths entries exclude_path)
                           [10, 50, 100, 500, 1000] (gen, file)) (\<lambda>(g, text). Inr (0, text))))"

section \<open>The entries of a ring\<close>

definition positions :: "(string \<Rightarrow> size_t) \<Rightarrow> nat \<Rightarrow> string \<Rightarrow> size_t list" where
  "positions hash n server = map (replica_position hash server) [0..<n]"

definition ring_ok :: "(string \<Rightarrow> size_t) \<Rightarrow> nat \<Rightarrow> hash_ring \<Rightarrow> bool" where
  "ring_ok hash n R \<longleftrightarrow> replica_count R = n \<and> om_sorted (ring_map R) \<and>
     (\<forall>k s. om_lookup (ring_map R) k = Some s \<longrightarrow> k \<in> set (positions hash n s))"

lemma fold_last:
  "fold (\<lambda>r (l, m). (Some (f r), g (f r) m)) xs (l, m) =
     (if xs = [] then l else Some (f (last xs)), fold g (map f xs) m)"
  by (induction xs arbitrary: l m) auto

lemma AddServer_eq:
  "AddServer hash s R =
     (if replica_count R = 0 then Inl Uninitialised
      else Inr (replica_position hash s (replica_count R - 1),
                R\<lparr>ring_map := fold (\<lambda>k. om_update k s) (positions hash (replica_count R) s) (ring_map R)\<rparr>))"
  using fold_last [of "replica_position hash s" "\<lambda>k. om_update k s" "[0..<replica_count R]" None "ring_map R"]
  by (simp add: AddServer_def Let_def positions_def)

lemma RemoveServer_eq:
  "RemoveServer hash s R =
     R\<lparr>ring_map := fold om_erase (positions hash (replica_count R) s) (ring_map R)\<rparr>"
  by (simp add: RemoveServer_def positions_def fold_map comp_def)

lemma GetServer_eq:
  "GetServer hash d R =
     (case om.successor (hash (c_str d)) (ring_map R) of
        None \<Rightarrow> Inl (Thrown ''Empty ring'') | Some e \<Rightarrow> Inr (snd e))"
  by (auto simp: GetServer_def om.successor_def om_lower_bound_def om_begin_def Let_def
      split: list.splits option.splits)

lemma GetServer_Inr:
  "GetServer hash d R = Inr s \<longleftrightarrow> (\<exists>k. om.successor (hash (c_str d)) (ring_map R) = Some (k, s))"
  by (auto simp: GetServer_eq split: option.splits)

lemma ring_ok_HashRing: "ring_ok hash (nat (uwrap32 v)) (HashRing v)"
  by (simp add: ring_ok_def HashRing_def)

lemma ring_ok_AddServer:
  "ring_ok hash n R \<Longrightarrow> AddServer hash s R = Inr (h, R') \<Longrightarrow> ring_ok hash n R'"
  by (auto simp: ring_ok_def AddServer_eq om.invar_updates om.lookup_updates split: if_splits)

lemma ring_ok_RemoveServer: "ring_ok hash n R \<Longrightarrow> ring_ok hash n (RemoveServer hash s R)"
  by (auto simp: ring_ok_def RemoveServer_eq om.invar_deletes om.lookup_deletes split: if_splits)

text \<open>A history of a ring: servers join and leave.\<close>

datatype ring_op = Join string | Leave string

fun ring_ops :: "(string \<Rightarrow> size_t) \<Rightarrow> ring_op list \<Rightarrow> hash_ring \<Rightarrow> hash_ring res" where
  "ring_ops hash [] R = Inr R"
| "ring_ops hash (Join s # ops) R = andThen (AddServer hash s R) (\<lambda>(h, R1). ring_ops hash ops R1)"
| "ring_ops hash (Leave s # ops) R = ring_ops hash ops (RemoveServer hash s R)"

lemma ring_ok_ops: "ring_ok hash n R \<Longrightarrow> ring_ops hash ops R = Inr R' \<Longrightarrow> ring_ok hash n R'"
  by (induction hash ops R rule: ring_ops.induct)
    (auto simp: andThen_iffs dest: ring_ok_AddServer ring_ok_RemoveServer)

lemma add_servers_ops: "add_servers hash ss R = ring_ops hash (map Join ss) R"
  by (induction hash ss R rule: add_servers.induct) (auto simp: andThen_def split: sum.splits)

text \<open>With a replica to place, adding servers succeeds and only the added servers are on the ring.\<close>

lemma add_servers_ok:
  assumes "ring_ok hash n R" and "0 < n"
  shows "\<exists>R'. add_servers hash ss R = Inr R' \<and> ring_ok hash n R' \<and>
    (\<forall>k s. om_lookup (ring_map R') k = Some s \<longrightarrow> s \<in> set ss \<or> om_lookup (ring_map R) k = Some s) \<and>
    dom (om_lookup (ring_map R')) =
      dom (om_lookup (ring_map R)) \<union> (\<Union>s \<in> set ss. set (positions hash n s))"
  using assms(1)
proof (induction ss arbitrary: R)
  case (Cons s ss)
  let ?R = "R\<lparr>ring_map := fold (\<lambda>k. om_update k s) (positions hash n s) (ring_map R)\<rparr>"
  have add: "AddServer hash s R = Inr (replica_position hash s (n - 1), ?R)"
    using Cons.prems assms(2) by (simp add: AddServer_eq ring_ok_def)
  have look: "om_lookup (ring_map ?R) k =
      (if k \<in> set (positions hash n s) then Some s else om_lookup (ring_map R) k)" for k
    using Cons.prems by (simp add: om.lookup_updates ring_ok_def)
  then have dom: "dom (om_lookup (ring_map ?R)) =
      dom (om_lookup (ring_map R)) \<union> set (positions hash n s)"
    by (auto simp: dom_def)
  from Cons.IH [OF ring_ok_AddServer [OF Cons.prems add]] add look dom show ?case
    by (fastforce split: if_splits)
qed simp

text \<open>The servers whose positions are apart from those of \<open>s\<close>.\<close>

definition apart :: "(string \<Rightarrow> size_t) \<Rightarrow> nat \<Rightarrow> string \<Rightarrow> string \<Rightarrow> bool" where
  "apart hash n s t \<longleftrightarrow> set (positions hash n s) \<inter> set (positions hash n t) = {}"

lemma GetServer_RemoveServer:
  assumes "ring_ok hash n R" and "GetServer hash d R = Inr t" and "apart hash n s t"
  shows "GetServer hash d (RemoveServer hash s R) = Inr t"
proof -
  obtain k where k: "om.successor (hash (c_str d)) (ring_map R) = Some (k, t)"
    using assms(2) GetServer_Inr by auto
  then have "om_lookup (ring_map R) k = Some t"
    using assms(1) by (simp add: ring_ok_def om.successor_Some)
  then have "k \<notin> set (positions hash n s)"
    using assms(1,3) by (auto simp: ring_ok_def apart_def)
  with k assms(1) show ?thesis
    by (auto simp: GetServer_Inr RemoveServer_eq ring_ok_def intro: om.successor_deletes)
qed

lemma GetServer_AddServer:
  assumes "ring_ok hash n R" and "AddServer hash s R = Inr (h, R')" and "GetServer hash d R' = Inr t"
  shows "t = s \<or> GetServer hash d R = Inr t"
proof -
  obtain k where k: "om.successor (hash (c_str d)) (ring_map R') = Some (k, t)"
    using assms(3) GetServer_Inr by auto
  have R': "ring_map R' = fold (\<lambda>k. om_update k s) (positions hash n s) (ring_map R)"
    using assms(1,2) by (auto simp: AddServer_eq ring_ok_def split: if_splits)
  from om.successor_updates [OF _ k [unfolded R']] assms(1) show ?thesis
    by (auto simp: GetServer_Inr ring_ok_def)
qed

text \<open>A server that left, and whose positions no other server shares, receives nothing.\<close>

lemma GetServer_removed:
  assumes "ring_ok hash n R"
  shows "GetServer hash d (RemoveServer hash s R) \<noteq> Inr s"
proof
  assume "GetServer hash d (RemoveServer hash s R) = Inr s"
  then obtain k where k: "om.successor (hash (c_str d)) (ring_map (RemoveServer hash s R)) = Some (k, s)"
    using GetServer_Inr by auto
  with ring_ok_RemoveServer [OF assms, of s]
  have look: "om_lookup (ring_map (RemoveServer hash s R)) k = Some s"
    by (simp add: ring_ok_def om.successor_Some)
  with ring_ok_RemoveServer [OF assms, of s] have "k \<in> set (positions hash n s)"
    by (auto simp: ring_ok_def)
  with look assms show False
    by (auto simp: RemoveServer_eq ring_ok_def om.lookup_deletes)
qed

section \<open>Counting files\<close>

lemma om_get_update: "om_get d j (om_update k v m) = (if j = k then v else om_get d j m)"
  by (simp add: om_get_def om_lookup_update)

lemma om_get_modify:
  "om_get d j (om_modify d f k m) = (if j = k then f (om_get d k m) else om_get d j m)"
  by (simp add: om_modify_def om_get_update) (simp add: om_get_def)

lemma om_get_Nil [simp]: "om_get d k [] = d"
  by (simp add: om_get_def)

lemma wrap32_add: "wrap32 (wrap32 a + b) = wrap32 (a + b)" "wrap32 (b + wrap32 a) = wrap32 (b + a)"
proof -
  show "wrap32 (wrap32 a + b) = wrap32 (a + b)"
  proof -
    have "wrap32 a + b + 2147483648 = (a + 2147483648) mod 4294967296 + b"
      by (simp add: wrap32_def)
    then have "(wrap32 a + b + 2147483648) mod 4294967296 = (a + 2147483648 + b) mod 4294967296"
      by (simp only: mod_add_left_eq)
    moreover have "a + 2147483648 + b = a + b + 2147483648" by simp
    ultimately show ?thesis
      by (simp only: wrap32_def [of "wrap32 a + b"] wrap32_def [of "a + b"])
  qed
  then show "wrap32 (b + wrap32 a) = wrap32 (b + a)" by (simp add: add.commute)
qed

text \<open>The files a ring places on a server.\<close>

definition files_of :: "(string \<Rightarrow> size_t) \<Rightarrow> hash_ring \<Rightarrow> path list \<Rightarrow> string \<Rightarrow> path list" where
  "files_of hash R files s = filter (\<lambda>f. GetServer hash f R = Inr s) files"

lemma files_of_simps [simp]:
  "files_of hash R [] s = []"
  "files_of hash R (f # fs) s =
     (if GetServer hash f R = Inr s then f # files_of hash R fs s else files_of hash R fs s)"
  by (simp_all add: files_of_def)

definition ring_serves :: "hash_ring \<Rightarrow> bool" where
  "ring_serves R \<longleftrightarrow> om_sorted (ring_map R) \<and> ring_map R \<noteq> []"

lemma GetServer_serves:
  assumes "ring_serves R"
  obtains s where "GetServer hash d R = Inr s"
proof -
  have "om_lookup (ring_map R) \<noteq> Map.empty"
    using assms by (cases "ring_map R") (auto simp: ring_serves_def)
  then have "om.successor (hash (c_str d)) (ring_map R) \<noteq> None"
    using assms by (simp add: ring_serves_def om.successor_None del: not_None_eq)
  then obtain e where "om.successor (hash (c_str d)) (ring_map R) = Some e" by blast
  with that show thesis by (auto simp: GetServer_eq)
qed

lemma place_files_counts:
  assumes "ring_serves R" and "\<And>s. om_get 0 s od = wrap32 (int (length (om_get [] s std)))"
  shows "\<exists>od' std'. place_files hash R files (od, std) = Inr (od', std') \<and>
    (\<forall>s. om_get [] s std' = om_get [] s std @ files_of hash R files s \<and>
         om_get 0 s od' = wrap32 (int (length (om_get [] s std'))))"
  using assms(2)
proof (induction files arbitrary: od std)
  case (Cons f fs)
  obtain t where t: "GetServer hash f R = Inr t" by (rule GetServer_serves [OF assms(1)])
  let ?od = "om_modify 0 (\<lambda>n. wrap32 (n + 1)) t od" and ?std = "om_modify [] (\<lambda>v. v @ [f]) t std"
  have "om_get 0 s ?od = wrap32 (int (length (om_get [] s ?std)))" for s
    by (simp add: om_get_modify Cons.prems wrap32_add add.commute [of _ 1])
  from Cons.IH [OF this] t show ?case by (auto simp: om_get_modify)
qed simp

lemma redistribute_counts:
  assumes "ring_serves R" and "\<And>s. om_get 0 s nd = wrap32 (c s)"
  shows "\<exists>nd'. redistribute hash R files nd = Inr nd' \<and>
    (\<forall>s. om_get 0 s nd' = wrap32 (c s + int (length (files_of hash R files s))))"
  using assms(2)
proof (induction files arbitrary: nd c)
  case (Cons f fs)
  obtain t where t: "GetServer hash f R = Inr t" by (rule GetServer_serves [OF assms(1)])
  let ?nd = "om_modify 0 (\<lambda>n. wrap32 (n + 1)) t nd" and ?c = "\<lambda>s. c s + (if s = t then 1 else 0)"
  have "om_get 0 s ?nd = wrap32 (?c s)" for s
    by (simp add: om_get_modify Cons.prems wrap32_add)
  from Cons.IH [of ?nd ?c, OF this] t show ?case by (auto simp: algebra_simps)
qed simp

text \<open>Moving only the files of the failed server gives what counting anew would give.\<close>

lemma files_of_recount:
  assumes "\<And>f t. GetServer hash f R = Inr t \<Longrightarrow> t \<noteq> failed \<Longrightarrow> GetServer hash f R' = Inr t"
    and "\<And>f. GetServer hash f R' \<noteq> Inr failed" and "ring_serves R"
  shows "length (files_of hash R' files s) =
    (if s = failed then 0 else length (files_of hash R files s)) +
    length (files_of hash R' (files_of hash R files failed) s)"
proof (induction files)
  case (Cons f fs)
  obtain t where "GetServer hash f R = Inr t" by (rule GetServer_serves [OF assms(3)])
  with Cons assms(1) [of f t] assms(2) [of f] show ?case by auto
qed simp

end
