(* ===== verification/Ring_Properties.thy ===== *)
theory Ring_Properties
  imports Hash_Ring
begin

text \<open>
  What the hash ring of the load-distribution simulation guarantees: where data goes, what
  happens to it when servers join and leave, and when the simulation counts correctly.
\<close>

section \<open>A ring to look at\<close>

text \<open>Strings of up to eight characters, read as numbers.\<close>

definition demo_hash :: "string \<Rightarrow> size_t" where
  "demo_hash s = fold (\<lambda>c a. a * 256 + of_nat (of_char c)) s 0"

definition demo_ring :: hash_ring where
  "demo_ring = \<lparr>ring_map = [(0x4130, ''A''), (0x4131, ''A''), (0x4230, ''B''), (0x4231, ''B'')],
     replica_count = 2\<rparr>"

lemma demo_add:
  "AddServer demo_hash ''A'' (HashRing 2) =
     Inr (0x4131, \<lparr>ring_map = [(0x4130, ''A''), (0x4131, ''A'')], replica_count = 2\<rparr>)"
  by code_simp

lemma demo_ring_ops: "ring_ops demo_hash [Join ''A'', Join ''B''] (HashRing 2) = Inr demo_ring"
  by code_simp

lemma ring_ok_history:
  "ring_ops hash ops (HashRing v) = Inr R \<Longrightarrow> ring_ok hash (nat (uwrap32 v)) R"
  using ring_ok_ops ring_ok_HashRing by blast

lemma demo_ring_ok: "ring_ok demo_hash 2 demo_ring"
  using ring_ok_history [OF demo_ring_ops] by simp

section \<open>Where data goes\<close>

text \<open>
  C35. Consistent hashing. After any history of servers joining and leaving, data goes to the server
  at the first position from its hash on, or at the first position of the ring if there is
  none, and that is one of the positions of this server; the lookup throws exactly when
  the ring is empty.
\<close>

theorem data_goes_to_the_successor:
  assumes "ring_ops hash ops (HashRing v) = Inr R"
  shows "(GetServer hash d R = Inr s \<longleftrightarrow>
      (\<exists>k. om_lookup (ring_map R) k = Some s \<and> k \<in> set (positions hash (replica_count R) s) \<and>
           is_successor (dom (om_lookup (ring_map R))) (hash (c_str d)) k)) \<and>
    (GetServer hash d R = Inl e \<longleftrightarrow> ring_map R = [] \<and> e = Thrown ''Empty ring'')"
proof -
  note ok = ring_ok_history [OF assms]
  then have sorted: "om_sorted (ring_map R)"
    and entry: "\<And>k s. om_lookup (ring_map R) k = Some s \<Longrightarrow> k \<in> set (positions hash (replica_count R) s)"
    by (auto simp: ring_ok_def)
  have empty: "om_lookup (ring_map R) = Map.empty \<longleftrightarrow> ring_map R = []"
    by (cases "ring_map R") auto
  show ?thesis
  proof
    show "GetServer hash d R = Inr s \<longleftrightarrow>
      (\<exists>k. om_lookup (ring_map R) k = Some s \<and> k \<in> set (positions hash (replica_count R) s) \<and>
           is_successor (dom (om_lookup (ring_map R))) (hash (c_str d)) k)"
      using entry by (auto simp: GetServer_Inr om.successor_Some [OF sorted])
    show "GetServer hash d R = Inl e \<longleftrightarrow> ring_map R = [] \<and> e = Thrown ''Empty ring''"
      using om.successor_None [OF sorted, of "hash (c_str d)"] empty
      by (auto simp: GetServer_eq split: option.splits)
  qed
qed

theorem data_goes_to_the_successor_witness:
  "GetServer demo_hash ''A1'' demo_ring = Inr ''A'' \<and> GetServer demo_hash ''Z'' demo_ring = Inr ''A'' \<and>
   (\<exists>k. om_lookup (ring_map demo_ring) k = Some ''A'' \<and> k \<in> set (positions demo_hash 2 ''A'') \<and>
        is_successor (dom (om_lookup (ring_map demo_ring))) (demo_hash (c_str ''A1'')) k)"
proof -
  have g: "GetServer demo_hash ''A1'' demo_ring = Inr ''A''" "GetServer demo_hash ''Z'' demo_ring = Inr ''A''"
    by code_simp+
  have "replica_count demo_ring = 2" by (simp add: demo_ring_def)
  with data_goes_to_the_successor [OF demo_ring_ops, of "''A1''" "''A''"] g show ?thesis by simp
qed



section \<open>The counts of the simulation\<close>

lemma ring_serves_apart:
  assumes "ring_ok hash n R" and "om_lookup (ring_map R) k = Some t" and "apart hash n s t"
  shows "ring_serves R \<and> ring_serves (RemoveServer hash s R)"
proof -
  have "k \<notin> set (positions hash n s)" using assms by (auto simp: ring_ok_def apart_def)
  with assms have "om_lookup (ring_map (RemoveServer hash s R)) k = Some t"
    by (simp add: RemoveServer_eq ring_ok_def om.lookup_deletes)
  with assms ring_ok_RemoveServer [OF assms(1), of s] show ?thesis
    by (auto simp: ring_serves_def ring_ok_def)
qed

lemma redistribution_recount:
  assumes "0 < V" and "V < 4294967296" and "length files < 2147483648"
    and "add_servers hash servers (HashRing V) = Inr R"
    and "\<forall>t \<in> set servers. t \<noteq> failed \<longrightarrow> apart hash (nat V) failed t"
    and "other \<in> set servers" and "other \<noteq> failed"
  shows "\<exists>od std nd R' std'. place_files hash R files ([], []) = Inr (od, std) \<and>
    fail_server hash failed od (R, std) = Inr (nd, R', std') \<and>
    R' = RemoveServer hash failed R \<and>
    (\<forall>s. om_get 0 s nd = int (length (files_of hash R' files s)))"
proof -
  let ?n = "nat V" and ?R' = "RemoveServer hash failed R"
  from ring_ok_HashRing [of hash V] assms(1,2) have "ring_ok hash ?n (HashRing V)" by simp
  from add_servers_ok [OF this, of servers] assms(1,4) obtain
    ok: "ring_ok hash ?n R"
    and from_servers: "\<And>k s. om_lookup (ring_map R) k = Some s \<Longrightarrow> s \<in> set servers"
    and dom: "dom (om_lookup (ring_map R)) = (\<Union>s \<in> set servers. set (positions hash ?n s))"
    by (auto simp: HashRing_def)
  have apart: "apart hash ?n failed t" if "om_lookup (ring_map R) k = Some t" "t \<noteq> failed" for k t
    using assms(5) from_servers that by blast
  from assms(1) have "replica_position hash other 0 \<in> set (positions hash ?n other)"
    by (simp add: positions_def)
  then obtain k where k: "k \<in> set (positions hash ?n other)" ..
  then have "k \<notin> set (positions hash ?n failed)"
    using assms(5-7) by (auto simp: apart_def)
  moreover from k dom assms(6) obtain t where t: "om_lookup (ring_map R) k = Some t" by blast
  ultimately have "t \<noteq> failed" using ok by (auto simp: ring_ok_def)
  with t apart have serves: "ring_serves R" "ring_serves ?R'"
    using ring_serves_apart [OF ok t] by blast+
  have stay: "GetServer hash f ?R' = Inr t" if f: "GetServer hash f R = Inr t" "t \<noteq> failed" for f t
  proof -
    have "\<exists>k. om_lookup (ring_map R) k = Some t"
      using f(1) ok by (auto simp: GetServer_Inr om.successor_Some ring_ok_def)
    with apart f show ?thesis using GetServer_RemoveServer [OF ok] by blast
  qed
  obtain od std where place: "place_files hash R files ([], []) = Inr (od, std)"
    and std: "\<And>s. om_get [] s std = files_of hash R files s"
    and od: "\<And>s. om_get 0 s od = wrap32 (int (length (files_of hash R files s)))"
    using place_files_counts [OF serves(1), where hash = hash and od = "[]" and std = "[]" and files = files] by auto
  let ?c = "\<lambda>s. if s = failed then 0 else int (length (files_of hash R files s))"
  have "om_get 0 s (om_update failed 0 od) = wrap32 (?c s)" for s
    by (simp add: om_get_update od)
  from redistribute_counts [OF serves(2) this, where files = "files_of hash R files failed"] obtain nd where
    nd: "redistribute hash ?R' (files_of hash R files failed) (om_update failed 0 od) = Inr nd"
    "\<And>s. om_get 0 s nd = wrap32 (?c s + int (length (files_of hash ?R' (files_of hash R files failed) s)))"
    by auto
  have "om_get 0 s nd = int (length (files_of hash ?R' files s))" for s
  proof -
    have "length (files_of hash ?R' files s) < 2147483648"
      using assms(3) length_filter_le [of _ files] unfolding files_of_def by (rule le_less_trans [rotated])
    moreover have "?c s + int (length (files_of hash ?R' (files_of hash R files failed) s)) =
        int (length (files_of hash ?R' files s))"
      using files_of_recount [where files = files and s = s, OF stay GetServer_removed [OF ok] serves(1)] by auto
    ultimately show ?thesis using nd(2) [of s] by simp
  qed
  with place nd std show ?thesis
    by (simp add: fail_server_def Let_def om_get_modify)
qed



section \<open>The names of replicas\<close>

definition replica_name :: "string \<Rightarrow> nat \<Rightarrow> string" where
  "replica_name server r = server @ StringifyReplica r"

lemma server_names_nth: "s \<in> set (server_names n) \<longleftrightarrow> (\<exists>i. 1 \<le> i \<and> i \<le> n \<and> s = ''Server'' @ show_int i)"
  by (auto simp: server_names_def)

lemma c_str_replica_name:
  "c_str (replica_name (''Server'' @ show_int i) r) = replica_name (''Server'' @ show_int i) r"
proof -
  have "NUL \<notin> set (show_int i)" "NUL \<notin> set (show_nat r)"
    using no_nul_show_int no_nul_show_nat by (auto simp: no_nul_def)
  then show ?thesis
    unfolding c_str_def takeWhile_eq_all_conv replica_name_def StringifyReplica_def
    by (auto simp: NUL_def)
qed

text \<open>Replica numbers of one digit are told apart from the number of the server.\<close>

lemma replica_name_inject:
  assumes "replica_name (''Server'' @ show_int i) q = replica_name (''Server'' @ show_int j) r"
    and "q < 10" and "r < 10"
  shows "i = j \<and> q = r"
proof -
  have "show_int i @ [digit_char q] = show_int j @ [digit_char r]"
    using assms by (simp add: replica_name_def StringifyReplica_def show_nat.simps)
  then have "show_int i = show_int j" "digit_char q = digit_char r" by simp_all
  then show ?thesis
    using show_int_inject digit_val_digit_char [OF assms(2)] digit_val_digit_char [OF assms(3)] by metis
qed

lemma single_digit_replicas_apart:
  assumes "V \<le> 10" and "s \<in> set (server_names n)" and "t \<in> set (server_names n)" and "s \<noteq> t"
    and "inj_on hash {replica_name u r |u r. u \<in> set (server_names n) \<and> r < V}"
  shows "apart hash V s t"
proof -
  obtain i j where ij: "s = ''Server'' @ show_int i" "t = ''Server'' @ show_int j"
    using assms(2,3) server_names_nth by auto
  have "replica_position hash s q \<noteq> replica_position hash t r" if qr: "q < V" "r < V" for q r
  proof
    assume "replica_position hash s q = replica_position hash t r"
    then have "hash (replica_name s q) = hash (replica_name t r)"
      using c_str_replica_name [unfolded replica_name_def]
      by (simp add: replica_position_def ij replica_name_def)
    then have "replica_name s q = replica_name t r"
      by (rule inj_onD [OF assms(5)]) (use assms(2,3) qr in blast)+
    with replica_name_inject [of i q j r] qr assms(1,4) ij show False by simp
  qed
  then show ?thesis by (auto simp: apart_def positions_def)
qed

text \<open>
  The first pass of the simulation, with ten replicas for each server, counts right when the hash
  function tells the names of the replicas apart.
\<close>

lemma first_pass_is_a_recount:
  assumes "inj_on hash {replica_name u r |u r. u \<in> set (server_names n) \<and> r < 10}"
    and "add_servers hash (server_names n) (HashRing 10) = Inr R" and "2 \<le> n"
    and "failed \<in> set (server_names n)" and "length files < 2147483648"
  shows "\<exists>od std nd R' std'. place_files hash R files ([], []) = Inr (od, std) \<and>
    fail_server hash failed od (R, std) = Inr (nd, R', std') \<and>
    (\<forall>s. om_get 0 s nd = int (length (files_of hash R' files s)))"
proof -
  have "\<forall>t \<in> set (server_names n). t \<noteq> failed \<longrightarrow> apart hash (nat 10) failed t"
    using single_digit_replicas_apart [OF _ assms(4) _ _ assms(1)] by auto
  moreover have "\<exists>other \<in> set (server_names n). other \<noteq> failed"
  proof (rule ccontr)
    assume "\<not> ?thesis"
    moreover have "''Server'' @ show_int 1 \<in> set (server_names n)"
      "''Server'' @ show_int 2 \<in> set (server_names n)"
      using assms(3) by (auto simp: server_names_def)
    ultimately have "show_int 1 = show_int 2" by (metis append_same_eq same_append_eq)
    then show False by (simp add: show_int_inject)
  qed
  ultimately show ?thesis
    using redistribution_recount [OF _ _ assms(5,2)] by fastforce
qed

text \<open>
  A position that belongs to two servers goes with the first of them that fails.
\<close>

lemma shared_position_is_lost:
  assumes "ring_ok hash n R" and "replica_position hash s q = replica_position hash t r" and "q < n"
  shows "om_lookup (ring_map (RemoveServer hash s R)) (replica_position hash t r) = None"
proof -
  have "replica_position hash t r \<in> set (positions hash n s)"
    unfolding assms(2) [symmetric] using assms(3) by (auto simp: positions_def)
  with assms(1) show ?thesis by (simp add: RemoveServer_eq ring_ok_def om.lookup_deletes)
qed





end
