(* ===== verification/Recovery_Store.thy ===== *)
theory Recovery_Store
  imports Server_System
begin

text \<open>
  The recovery store (ftc_fault_client.cpp, ftc_fault.h): file contents kept in memory for each
  server node, written to the node-local storage when the node fails and entered in the map of
  cached paths. The repository neither builds nor calls it, and the function it ends with does
  not exist; that function is a parameter. The locale \<open>stdio_files\<close> holds what the C library
  documents about writing a file; the lemmas show what the map and the files hold afterwards.
\<close>

section \<open>Writing files\<close>

text \<open>
  \<open>io_fopen\<close> is \<^verbatim>\<open>fopen(p, "wb")\<close>, \<open>False\<close> for a null pointer; \<open>io_fwrite\<close> is
  \<^verbatim>\<open>fwrite(v, 1, n, f)\<close> and the \<^verbatim>\<open>fclose\<close> after it, on a file just opened: the number of bytes
  that reached the file.
\<close>

record 'w stdio =
  io_fopen :: "path \<Rightarrow> 'w \<Rightarrow> bool \<times> 'w"
  io_fwrite :: "path \<Rightarrow> byte list \<Rightarrow> 'w \<Rightarrow> nat \<times> 'w"

text \<open>
  \<open>tidy\<close> holds of worlds in which nothing stands yet where \<^verbatim>\<open>mkdtemp\<close> will make a directory. A
  directory \<^verbatim>\<open>mkdtemp\<close> made is new and empty; opening a file in it for writing creates or
  truncates that file alone, writing fills it with a prefix of the data.
\<close>

locale stdio_files = posix_files os content ofd
  for os :: "'w os" and content :: "'w \<Rightarrow> path \<rightharpoonup> byte list" and ofd :: "'w \<Rightarrow> int \<rightharpoonup> path \<times> int" +
  fixes io :: "'w stdio"
    and tidy :: "'w \<Rightarrow> bool"
    and made :: "path \<Rightarrow> 'w \<Rightarrow> bool"
  assumes mkdtemp_fresh:
      "tidy w \<Longrightarrow> sys_mkdtemp os (b @ ''/XXXXXX'') w = (d, w') \<Longrightarrow>
         tidy w' \<and> made d w' \<and> (\<forall>f. CHR ''/'' \<notin> set f \<longrightarrow> content w' (d @ ''/'' @ f) = None)"
    and fopen_wb:
      "tidy w \<Longrightarrow> made d w \<Longrightarrow> CHR ''/'' \<notin> set f \<Longrightarrow>
         io_fopen io (d @ ''/'' @ f) w = (ok, w') \<Longrightarrow>
         tidy w' \<and> content w' = (if ok then (content w)(d @ ''/'' @ f \<mapsto> []) else content w)"
    and fwrite_file:
      "tidy w \<Longrightarrow> content w p = Some old \<Longrightarrow> io_fwrite io p bs w = (n, w') \<Longrightarrow>
         tidy w' \<and> n \<le> length bs \<and> content w' = (content w)(p \<mapsto> take n bs)"

section \<open>The store\<close>

text \<open>
  \<open>value\<close> of the source is the block of bytes copied; \<open>saved_path\<close> is the array of 256 characters.
\<close>

record saved_data =
  saved_path :: "char list"
  saved_value :: "byte list"
  saved_size :: int

record ('n, 'w) recovery =
  data_storage :: "'n \<rightharpoonup> saved_data list"
  recovered_paths :: "path \<rightharpoonup> path"
  recovery_world :: 'w

text \<open>
  \<open>malloc n\<close> tells whether the allocation of \<open>n\<close> bytes succeeds; \<open>junk\<close> is what the array of the
  local variable holds before the copy.
\<close>

definition storeData ::
  "(int \<Rightarrow> bool) \<Rightarrow> char list \<Rightarrow> 'n \<Rightarrow> string \<Rightarrow> byte list \<Rightarrow> int \<Rightarrow> ('n, 'w) recovery \<Rightarrow>
   ('n, 'w) recovery res" where
  "storeData malloc junk node p buffer sz s =
     (let n = uwrap64 sz
      in if \<not> malloc n then Inr s
         else if int (length buffer) < n then Inl Overrun
         else
           andThen (copy_terminated junk p) (\<lambda>file_path.
           let data = \<lparr>saved_path = file_path, saved_value = take (nat n) buffer, saved_size = sz\<rparr>;
               (datas, m) = subscript [] (data_storage s) node
           in Inr (s\<lparr>data_storage := m(node \<mapsto> datas @ [data])\<rparr>)))"

text \<open>
  The body of the loop: a directory of its own for every file; a file that cannot be opened is
  skipped, and what \<^verbatim>\<open>fwrite\<close> returns is not looked at.
\<close>

definition write_saved ::
  "'w os \<Rightarrow> 'w stdio \<Rightarrow> path \<Rightarrow> saved_data \<Rightarrow> (path \<rightharpoonup> path) \<times> 'w \<Rightarrow> ((path \<rightharpoonup> path) \<times> 'w) res" where
  "write_saved os io nvmepath data s =
     (let (dirpath, w1) = sys_mkdtemp os nvmepath (snd s)
      in andThen (cstr (saved_path data)) (\<lambda>file_path.
         let filename = dirpath @ ''/'' @ filename_of file_path;
             (opened, w2) = io_fopen io filename w1
         in if \<not> opened then Inr (fst s, w2)
            else if int (length (saved_value data)) < uwrap64 (saved_size data) then Inl Overrun
            else (let (n, w3) = io_fwrite io filename
                                  (take (nat (uwrap64 (saved_size data))) (saved_value data)) w2
                  in Inr ((fst s)(file_path \<mapsto> filename), w3))))"

fun write_all ::
  "'w os \<Rightarrow> 'w stdio \<Rightarrow> path \<Rightarrow> saved_data list \<Rightarrow> (path \<rightharpoonup> path) \<times> 'w \<Rightarrow> ((path \<rightharpoonup> path) \<times> 'w) res" where
  "write_all os io nvmepath [] s = Inr s"
| "write_all os io nvmepath (data # datas) s =
     andThen (write_saved os io nvmepath data s) (write_all os io nvmepath datas)"

text \<open>\<open>gen_update_rpc\<close> is the missing \<^verbatim>\<open>ftc_client_comm_gen_update_rpc\<close>.\<close>

definition writeToFile ::
  "'w os \<Rightarrow> 'w stdio \<Rightarrow> string option \<Rightarrow> (int \<Rightarrow> (path \<rightharpoonup> path) \<Rightarrow> 'w \<Rightarrow> 'w) \<Rightarrow> 'n \<Rightarrow>
   ('n, 'w) recovery \<Rightarrow> ('n, 'w) recovery res" where
  "writeToFile os io bbpath gen_update_rpc node s =
     (case data_storage s node of
        None \<Rightarrow> Inr s
      | Some datas \<Rightarrow>
          (case bbpath of
             None \<Rightarrow> Inl Null_Arg
           | Some b \<Rightarrow>
               andThen (write_all os io (nvme_template b) datas (recovered_paths s, recovery_world s))
                 (\<lambda>(m, w). Inr (s\<lparr>recovered_paths := m, recovery_world := gen_update_rpc 1 m w\<rparr>))))"

definition emptyStore :: "('n, 'w) recovery \<Rightarrow> ('n, 'w) recovery" where
  "emptyStore s = s\<lparr>data_storage := Map.empty\<rparr>"

section \<open>What the store holds\<close>

text \<open>An entry as \<open>storeData\<close> makes it for the path \<open>p\<close> and the bytes \<open>v\<close>.\<close>

definition saved_for :: "path \<Rightarrow> byte list \<Rightarrow> saved_data \<Rightarrow> bool" where
  "saved_for p v data \<longleftrightarrow> cstr (saved_path data) = Inr (take 255 p) \<and> saved_value data = v \<and>
     saved_size data = int (length v)"

definition stored :: "('n, 'w) recovery \<Rightarrow> 'n \<Rightarrow> saved_data list" where
  "stored s node = (case data_storage s node of None \<Rightarrow> [] | Some ds \<Rightarrow> ds)"

text \<open>\<open>s'\<close> holds \<open>datas\<close> in addition for the node, and is \<open>s\<close> otherwise.\<close>

definition stored_more ::
  "'n \<Rightarrow> saved_data list \<Rightarrow> ('n, 'w) recovery \<Rightarrow> ('n, 'w) recovery \<Rightarrow> bool" where
  "stored_more node datas s s' \<longleftrightarrow>
     stored s' node = stored s node @ datas \<and> (datas \<noteq> [] \<longrightarrow> data_storage s' node \<noteq> None) \<and>
     (\<forall>n. n \<noteq> node \<longrightarrow> data_storage s' n = data_storage s n) \<and>
     recovered_paths s' = recovered_paths s \<and> recovery_world s' = recovery_world s"

lemma stored_more_append:
  "stored_more node xs s s1 \<Longrightarrow> stored_more node ys s1 s2 \<Longrightarrow> stored_more node (xs @ ys) s s2"
  by (auto simp: stored_more_def stored_def split: option.splits)

lemma storeData_ok:
  assumes "malloc (int (length v))" and "length v < 9223372036854775808"
    and "length junk = 256" and "no_nul p"
  shows "\<exists>data s'. storeData malloc junk node p v (int (length v)) s = Inr s' \<and>
    stored_more node [data] s s' \<and> saved_for p v data"
proof -
  obtain b where b: "copy_terminated junk p = Inr b" "cstr b = Inr (take 255 p)"
    using copy_terminated_ok [of junk p] assms(3,4) by auto
  have "uwrap64 (int (length v)) = int (length v)" using assms(2) by simp
  with assms(1) b show ?thesis
    by (auto simp: storeData_def Let_def saved_for_def subscript_def stored_more_def stored_def
        split: option.splits)
qed

text \<open>Storing a list of files for a node.\<close>

fun store_all ::
  "(int \<Rightarrow> bool) \<Rightarrow> char list \<Rightarrow> 'n \<Rightarrow> (path \<times> byte list) list \<Rightarrow> ('n, 'w) recovery \<Rightarrow>
   ('n, 'w) recovery res" where
  "store_all malloc junk node [] s = Inr s"
| "store_all malloc junk node ((p, v) # pvs) s =
     andThen (storeData malloc junk node p v (int (length v)) s) (store_all malloc junk node pvs)"

definition storable :: "path \<times> byte list \<Rightarrow> bool" where
  "storable pv \<longleftrightarrow> no_nul (fst pv) \<and> length (snd pv) < 9223372036854775808"

lemma store_all_ok:
  assumes "\<And>n. malloc n" and "length junk = 256" and "\<forall>pv \<in> set pvs. storable pv"
  shows "\<exists>datas s'. store_all malloc junk node pvs s = Inr s' \<and> stored_more node datas s s' \<and>
      list_all2 (\<lambda>(p, v). saved_for p v) pvs datas"
  using assms(3)
proof (induction pvs arbitrary: s)
  case Nil
  have "stored_more node [] s s" by (simp add: stored_more_def)
  then show ?case by auto
next
  case (Cons pv pvs)
  obtain p v where pv: "pv = (p, v)" by (cases pv)
  with Cons.prems have "length v < 9223372036854775808" "no_nul p"
    by (simp_all add: storable_def)
  from storeData_ok [where malloc = malloc and node = node and s = s, OF assms(1) this(1) assms(2) this(2)]
  obtain data s1 where data: "storeData malloc junk node p v (int (length v)) s = Inr s1"
    "stored_more node [data] s s1" "saved_for p v data"
    by blast
  from Cons obtain datas s' where "store_all malloc junk node pvs s1 = Inr s'"
    "stored_more node datas s1 s'" "list_all2 (\<lambda>(p, v). saved_for p v) pvs datas"
    by fastforce
  with data pv stored_more_append [OF data(2)] show ?case
    by (intro exI [of _ "data # datas"] exI [of _ s']) simp
qed

section \<open>What writing leaves behind\<close>

text \<open>No file fails to open in a directory just made, and no write is cut short.\<close>

definition never_fails ::
  "'w stdio \<Rightarrow> ('w \<Rightarrow> path \<rightharpoonup> byte list) \<Rightarrow> ('w \<Rightarrow> bool) \<Rightarrow> (path \<Rightarrow> 'w \<Rightarrow> bool) \<Rightarrow> bool" where
  "never_fails io content tidy made \<longleftrightarrow>
     (\<forall>d f w. tidy w \<longrightarrow> made d w \<longrightarrow> CHR ''/'' \<notin> set f \<longrightarrow> fst (io_fopen io (d @ ''/'' @ f) w)) \<and>
     (\<forall>p bs w. tidy w \<longrightarrow> content w p \<noteq> None \<longrightarrow> fst (io_fwrite io p bs w) = length bs)"

text \<open>The entries a list of stored files asks for; of two files with one key the later one counts.\<close>

definition last_stored :: "(path \<times> byte list) list \<Rightarrow> path \<rightharpoonup> byte list" where
  "last_stored pvs = map_of (rev (map (\<lambda>(p, v). (take 255 p, v)) pvs))"

lemma last_stored_simps [simp]:
  "last_stored [] = Map.empty"
  "last_stored ((p, v) # pvs) = [take 255 p \<mapsto> v] ++ last_stored pvs"
  by (simp_all add: last_stored_def)

lemma filename_of_no_slash: "CHR ''/'' \<notin> set (filename_of p)"
  by (auto simp: filename_of_def dest: set_takeWhileD)

context stdio_files
begin

lemma write_saved_effect:
  assumes "tidy w" and "saved_for p v data" and "length v < 9223372036854775808"
    and "write_saved os io (nvme_template b) data (m, w) = Inr (m', w')"
  shows "tidy w' \<and> keeps content w w' \<and>
    (m' = m \<or>
     (\<exists>f n. m' = m(take 255 p \<mapsto> f) \<and> content w f = None \<and> content w' f = Some (take n v)))"
    and "never_fails io content tidy made \<Longrightarrow>
      \<exists>f. m' = m(take 255 p \<mapsto> f) \<and> content w' f = Some v"
proof -
  obtain d w1 where mk: "sys_mkdtemp os (nvme_template b) w = (d, w1)" by fastforce
  let ?g = "filename_of (take 255 p)" and ?f = "d @ ''/'' @ filename_of (take 255 p)"
  obtain ok w2 where op: "io_fopen io ?f w1 = (ok, w2)" by fastforce
  obtain n w3 where wr: "io_fwrite io ?f v w2 = (n, w3)" by fastforce
  note slash = filename_of_no_slash [of "take 255 p"]
  have c1: "content w1 = content w"
    using mkdtemp_world(1) [of "nvme_template b" w] mk by simp
  from mkdtemp_fresh [OF assms(1) mk [unfolded nvme_template_def]]
  have t1: "tidy w1" "made d w1" "content w1 ?f = None" using slash by auto
  from fopen_wb [OF t1(1,2) slash op]
  have t2: "tidy w2" "content w2 = (if ok then (content w1)(?f \<mapsto> []) else content w1)" by auto
  have res: "write_saved os io (nvme_template b) data (m, w) =
      (if ok then Inr (m(take 255 p \<mapsto> ?f), w3) else Inr (m, w2))"
    using assms(2,3) mk op wr by (simp add: write_saved_def saved_for_def Let_def)
  have t3: "tidy w3 \<and> n \<le> length v \<and> content w3 = (content w2)(?f \<mapsto> take n v)" if ok
    using fwrite_file [OF t2(1) _ wr] t2(2) that by simp
  from assms(4) res t1 t2 t3 c1 show "tidy w' \<and> keeps content w w' \<and>
    (m' = m \<or>
     (\<exists>f n. m' = m(take 255 p \<mapsto> f) \<and> content w f = None \<and> content w' f = Some (take n v)))"
    by (auto simp: keeps_def split: if_splits)
  assume "never_fails io content tidy made"
  with t1 t2 slash op wr have ok and "n = length v"
    unfolding never_fails_def by (metis fst_conv fun_upd_same option.distinct(1))+
  with assms(4) res t3 show "\<exists>f. m' = m(take 255 p \<mapsto> f) \<and> content w' f = Some v" by auto
qed

lemma write_saved_runs:
  assumes "saved_for p v data" and "length v < 9223372036854775808"
  obtains m' w' where "write_saved os io (nvme_template b) data (m, w) = Inr (m', w')"
  using assms that by (fastforce simp: write_saved_def saved_for_def Let_def split: prod.splits)

text \<open>Every file that was stored is in the map with its data.\<close>

lemma write_all_effect:
  assumes "list_all2 (\<lambda>(p, v). saved_for p v) pvs datas" and "\<forall>pv \<in> set pvs. storable pv"
    and "tidy w" and "never_fails io content tidy made"
  shows "\<exists>m' w'. write_all os io (nvme_template b) datas (m, w) = Inr (m', w') \<and> tidy w' \<and>
    keeps content w w' \<and>
    (\<forall>p. case last_stored pvs p of
           None \<Rightarrow> m' p = m p
         | Some v \<Rightarrow> \<exists>f. m' p = Some f \<and> content w' f = Some v)"
  using assms(1-3)
proof (induction pvs arbitrary: datas m w)
  case Nil
  then show ?case by simp
next
  case (Cons pv pvs)
  obtain p v data ds where pv: "pv = (p, v)" "datas = data # ds" "saved_for p v data"
    "list_all2 (\<lambda>(p, v). saved_for p v) pvs ds"
    using Cons.prems(1) by (cases pv) (auto simp: list_all2_Cons1)
  have len: "length v < 9223372036854775808" using Cons.prems(2) pv(1) by (simp add: storable_def)
  obtain m1 w1 where run: "write_saved os io (nvme_template b) data (m, w) = Inr (m1, w1)"
    by (rule write_saved_runs [OF pv(3) len])
  note step = write_saved_effect [OF Cons.prems(3) pv(3) len run]
  obtain f where f: "m1 = m(take 255 p \<mapsto> f)" "content w1 f = Some v"
    using step(2) assms(4) by blast
  have "\<forall>pv \<in> set pvs. storable pv" using Cons.prems(2) by simp
  from Cons.IH [OF pv(4) this, of w1 m1] step(1) obtain m' w' where
    ih: "write_all os io (nvme_template b) ds (m1, w1) = Inr (m', w')" "tidy w'" "keeps content w1 w'"
    "\<And>p. case last_stored pvs p of None \<Rightarrow> m' p = m1 p
       | Some v \<Rightarrow> \<exists>f. m' p = Some f \<and> content w' f = Some v"
    by blast
  have "case last_stored (pv # pvs) q of None \<Rightarrow> m' q = m q
       | Some v \<Rightarrow> \<exists>f. m' q = Some f \<and> content w' f = Some v" for q
    using ih(3) ih(4) [of q] f pv(1)
    by (cases "last_stored pvs q") (auto simp: map_add_def keeps_def)
  with ih step(1) run pv(2) keeps_trans show ?case by fastforce
qed

end

section \<open>Writing on the file system of \<open>Posix_Files\<close>\<close>

definition fsys_stdio :: "fsys stdio" where
  "fsys_stdio =
     \<lparr>io_fopen = (\<lambda>p w. if fs_dirs w (parent_of p)
                       then (True, w\<lparr>fs_files := (fs_files w)(p \<mapsto> [])\<rparr>) else (False, w)),
      io_fwrite = (\<lambda>p bs w. (length bs, w\<lparr>fs_files := (fs_files w)(p \<mapsto> bs)\<rparr>))\<rparr>"

definition fsys_tidy :: "fsys \<Rightarrow> bool" where
  "fsys_tidy w \<longleftrightarrow> (\<forall>n b f. fs_temp w \<le> n \<longrightarrow> CHR ''/'' \<notin> set f \<longrightarrow>
     fs_files w (b @ ''/'' @ show_nat n @ ''/'' @ f) = None)"

definition fsys_made :: "path \<Rightarrow> fsys \<Rightarrow> bool" where
  "fsys_made d w \<longleftrightarrow> fs_dirs w d \<and> (\<exists>b n. d = b @ ''/'' @ show_nat n \<and> n < fs_temp w)"

lemma split_at_slash:
  assumes "a @ ''/'' @ f = b @ ''/'' @ g" and "CHR ''/'' \<notin> set f" and "CHR ''/'' \<notin> set g"
  shows "a = b \<and> f = g"
proof -
  have "f = g" using filename_of_split [OF assms(2), of a] filename_of_split [OF assms(3), of b] assms(1) by simp
  with assms(1) show ?thesis by simp
qed

lemma show_nat_no_slash: "CHR ''/'' \<notin> set (show_nat n)"
  using show_nat_digits [of n] by (auto simp: is_digit_def)

lemma show_nat_inject: "show_nat m = show_nat n \<longleftrightarrow> m = n"
  using show_int_inject [of "int m" "int n"] by (simp add: show_int_def)

lemma parent_of_split:
  assumes "CHR ''/'' \<notin> set f" and "d \<noteq> []"
  shows "parent_of (d @ ''/'' @ f) = d"
proof -
  have "dropWhile (\<lambda>c. c \<noteq> CHR ''/'') (rev f @ CHR ''/'' # rev d) = CHR ''/'' # rev d"
    using assms(1) by (subst dropWhile_append2) auto
  with assms(2) show ?thesis by (simp add: parent_of_def Let_def)
qed

lemma temp_dir_fresh:
  assumes "d = b @ ''/'' @ show_nat k" and "k < n"
    and "CHR ''/'' \<notin> set f" and "CHR ''/'' \<notin> set g"
  shows "c @ ''/'' @ show_nat n @ ''/'' @ g \<noteq> d @ ''/'' @ f"
proof
  assume "c @ ''/'' @ show_nat n @ ''/'' @ g = d @ ''/'' @ f"
  then have "c @ ''/'' @ show_nat n = b @ ''/'' @ show_nat k"
    using split_at_slash [of "c @ ''/'' @ show_nat n" g d f] assms by simp
  then have "n = k" using split_at_slash show_nat_no_slash show_nat_inject by blast
  with assms(2) show False by simp
qed

interpretation fsys_io: stdio_files fsys_os fs_files fs_table fsys_stdio fsys_tidy fsys_made
proof unfold_locales
  fix w b d w'
  assume tidy: "fsys_tidy w" and mk: "sys_mkdtemp fsys_os (b @ ''/XXXXXX'') w = (d, w')"
  from mk have d: "d = b @ ''/'' @ show_nat (fs_temp w)"
    and w': "fs_files w' = fs_files w" "fs_temp w' = Suc (fs_temp w)" "fs_dirs w' d"
    by (auto simp: fsys_mkdtemp_def Let_def)
  with tidy show "fsys_tidy w' \<and> fsys_made d w' \<and>
      (\<forall>f. CHR ''/'' \<notin> set f \<longrightarrow> fs_files w' (d @ ''/'' @ f) = None)"
    by (auto simp: fsys_tidy_def fsys_made_def)
next
  fix w d f ok w'
  assume tidy: "fsys_tidy w" and made: "fsys_made d w" and f: "CHR ''/'' \<notin> set f"
    and op: "io_fopen fsys_stdio (d @ ''/'' @ f) w = (ok, w')"
  from made obtain b k where d: "d = b @ ''/'' @ show_nat k" "k < fs_temp w" "fs_dirs w d"
    by (auto simp: fsys_made_def)
  have "parent_of (d @ ''/'' @ f) = d" by (rule parent_of_split [OF f]) (simp add: d(1))
  with op d(3) have w': "ok" "w' = w\<lparr>fs_files := (fs_files w)(d @ ''/'' @ f \<mapsto> [])\<rparr>"
    by (simp_all add: fsys_stdio_def)
  moreover have "fsys_tidy w'"
    unfolding fsys_tidy_def
  proof (intro allI impI)
    fix n c g
    assume n: "fs_temp w' \<le> n" and g: "CHR ''/'' \<notin> set g"
    then have "c @ ''/'' @ show_nat n @ ''/'' @ g \<noteq> d @ ''/'' @ f"
      using temp_dir_fresh [OF d(1) _ f g] d(2) w'(2) by simp
    with tidy n g w'(2) show "fs_files w' (c @ ''/'' @ show_nat n @ ''/'' @ g) = None"
      by (simp add: fsys_tidy_def)
  qed
  ultimately show "fsys_tidy w' \<and> fs_files w' =
      (if ok then (fs_files w)(d @ ''/'' @ f \<mapsto> []) else fs_files w)"
    by simp
next
  fix w p old bs n w'
  assume "fsys_tidy w" and "fs_files w p = Some old" and "io_fwrite fsys_stdio p bs w = (n, w')"
  then show "fsys_tidy w' \<and> n \<le> length bs \<and> fs_files w' = (fs_files w)(p \<mapsto> take n bs)"
    by (auto simp: fsys_stdio_def fsys_tidy_def)
qed

lemma fsys_never_fails: "never_fails fsys_stdio fs_files fsys_tidy fsys_made"
  unfolding never_fails_def
proof (intro conjI allI impI)
  fix d f w
  assume made: "fsys_made d w" and f: "CHR ''/'' \<notin> set f"
  have "parent_of (d @ ''/'' @ f) = d"
    by (rule parent_of_split [OF f]) (use made in \<open>auto simp: fsys_made_def\<close>)
  with made show "fst (io_fopen fsys_stdio (d @ ''/'' @ f) w)"
    by (simp add: fsys_stdio_def fsys_made_def)
qed (simp add: fsys_stdio_def)

end
