(* ===== verification/Recovery_Properties.thy ===== *)
theory Recovery_Properties
  imports Recovery_Store Demo
begin

text \<open>
  What a node's failure brings back from the recovery store, with a witness on the file system of
  \<open>Posix_Files\<close>.
\<close>





end
