(* ===== verification/Server_Threads.thy ===== *)
theory Server_Threads
  imports Server_System
begin

text \<open>
  The two threads of the server at the grain of their critical sections. \<open>Server_System\<close> runs a
  handler as one step; here the open and the close handler are cut where they take and release
  \<^verbatim>\<open>path_map_mutex\<close> and where they call the operating system, and the data mover may act at every
  cut. The stages of a handler run one after the other are the handler itself, so that every run
  of \<open>Server_System\<close> is a run here; the invariant is shown for all the other interleavings.
\<close>

section \<open>The stages of the handlers\<close>

text \<open>The open handler: up to the end of the lookup under \<^verbatim>\<open>path_map_mutex\<close>.\<close>

definition open_lookup ::
  "log_env \<Rightarrow> hg_call \<Rightarrow> open_in \<Rightarrow> 'w server \<Rightarrow> ('w server \<times> (path \<times> bool \<times> log_info) option) res" where
  "open_lookup le hg inp s =
     andThen (assert_that (get_input_ret hg = 0)) (\<lambda>_.
     case get_info hg of
       None \<Rightarrow> Inr (s, None)
     | Some client_addr \<Rightarrow>
         andThen (peer_flag (server_addr_str s) client_addr) (\<lambda>fl.
         let li = \<lparr>filepath = lit (open_path inp), request = lit ''open'', flag = fl,
                   log_client_rank = open_client_rank inp, log_server_rank = server_rank s,
                   expn = lit ''SReceive'', n_epoch = open_localfd inp, n_batch = -1,
                   clocktime = clock hg 0\<rparr>
         in andThen (server_log le li s) (\<lambda>s1.
         Inr (s1, Some (case path_cache_map s1 (open_path inp) of
                          Some copy \<Rightarrow> (copy, True, li\<lparr>expn := lit ''SNVMeRequest''\<rparr>)
                        | None \<Rightarrow> (open_path inp, False, li\<lparr>expn := lit ''SPFSRequest''\<rparr>))))))"

text \<open>The call of \<^verbatim>\<open>open\<close>.\<close>

definition open_file ::
  "'w os \<Rightarrow> log_env \<Rightarrow> hg_call \<Rightarrow> path \<Rightarrow> bool \<Rightarrow> log_info \<Rightarrow> 'w server \<Rightarrow>
   ('w server \<times> int \<times> log_info) res" where
  "open_file os le hg redir_path nvme li s =
     (let li2 = li\<lparr>clocktime := clock hg 1\<rparr>
      in andThen (server_log le li2 s) (\<lambda>s2.
         let (fd, w) = sys_open os redir_path O_RDONLY (world s2)
         in Inr (s2\<lparr>world := w\<rparr>, fd,
                 li2\<lparr>clocktime := clock hg 2,
                     expn := lit (if nvme then ''SNVMeReceive'' else ''SPFSReceive'')\<rparr>)))"

text \<open>The entry in \<open>fd_to_path\<close> and the answer.\<close>

definition open_record ::
  "log_env \<Rightarrow> hg_call \<Rightarrow> open_in \<Rightarrow> int \<Rightarrow> log_info \<Rightarrow> 'w server \<Rightarrow> ('w server \<times> outcome) res" where
  "open_record le hg inp fd li s =
     andThen (server_log le li s) (\<lambda>s3.
     Inr (s3\<lparr>fd_to_path := (fd_to_path s3)(fd \<mapsto> open_path inp)\<rparr>,
          answered (addr_to_string_ret hg) (Open_Out fd)))"

text \<open>The close handler: the call of \<^verbatim>\<open>close\<close>.\<close>

definition close_file ::
  "'w os \<Rightarrow> log_env \<Rightarrow> hg_call \<Rightarrow> close_in \<Rightarrow> 'w server \<Rightarrow> ('w server \<times> log_info option) res" where
  "close_file os le hg inp s =
     andThen (assert_that (get_input_ret hg = 0)) (\<lambda>_.
     case get_info hg of
       None \<Rightarrow> Inr (s\<lparr>fd_to_path := (fd_to_path s)(close_fd inp := None)\<rparr>, None)
     | Some client_addr \<Rightarrow>
         andThen (peer_flag (server_addr_str s) client_addr) (\<lambda>fl.
         let li = \<lparr>filepath = lit (fd_name (close_fd inp)), request = lit ''close'', flag = fl,
                   log_client_rank = close_client_rank inp, log_server_rank = server_rank s,
                   expn = lit ''SReceive'', n_epoch = -1, n_batch = -1,
                   clocktime = clock hg 0\<rparr>
         in andThen (server_log le li s) (\<lambda>s1.
         let (ret, w) = sys_close os (close_fd inp) (world s1)
         in andThen (assert_that (ret = 0)) (\<lambda>_.
            Inr (s1\<lparr>world := w\<rparr>, Some (li\<lparr>clocktime := clock hg 1\<rparr>))))))"

text \<open>The critical section: the path is looked up and queued.\<close>

definition close_queue :: "close_in \<Rightarrow> 'w server \<Rightarrow> bool \<times> 'w server" where
  "close_queue inp s =
     (let (p, m) = subscript [] (fd_to_path s) (close_fd inp);
          s1 = s\<lparr>fd_to_path := m\<rparr>;
          nvme = (path_cache_map s1 p = None)
      in (nvme, if nvme then s1\<lparr>data_queue := data_queue s1 @ [p]\<rparr> else s1))"

text \<open>The end: the records of the log and the removal of the descriptor.\<close>

definition close_finish ::
  "log_env \<Rightarrow> hg_call \<Rightarrow> close_in \<Rightarrow> bool \<Rightarrow> log_info \<Rightarrow> 'w server \<Rightarrow> ('w server \<times> outcome) res" where
  "close_finish le hg inp nvme li s =
     andThen (server_log le (li\<lparr>expn := lit (if nvme then ''SNVMeRequest'' else ''SPFSRequest'')\<rparr>) s)
       (\<lambda>s4.
     andThen (server_log le (li\<lparr>expn := lit (if nvme then ''SNVMeReceive'' else ''SPFSReceive''),
                               clocktime := clock hg 2\<rparr>) s4) (\<lambda>s5.
     Inr (s5\<lparr>fd_to_path := (fd_to_path s5)(close_fd inp := None)\<rparr>, quiet 0 [R_Handle])))"

text \<open>Uninterrupted, the stages are the handler.\<close>

lemma open_stages:
  "ftc_open_rpc_handler os le hg inp s =
     andThen (open_lookup le hg inp s) (\<lambda>(s1, next).
     case next of
       None \<Rightarrow> Inr (s1, quiet (get_input_ret hg) [R_Handle])
     | Some (q, nvme, li) \<Rightarrow>
         andThen (open_file os le hg q nvme li s1) (\<lambda>(s2, fd, li'). open_record le hg inp fd li' s2))"
  by (auto simp: ftc_open_rpc_handler_def open_lookup_def open_file_def open_record_def Let_def
      andThen_def split: option.splits sum.splits prod.splits)

lemma close_stages:
  "ftc_close_rpc_handler os le hg inp s =
     andThen (close_file os le hg inp s) (\<lambda>(s1, next).
     case next of
       None \<Rightarrow> Inr (s1, quiet (get_input_ret hg) [R_Handle])
     | Some li \<Rightarrow>
         (let (nvme, s2) = close_queue inp s1 in close_finish le hg inp nvme li s2))"
  by (auto simp: ftc_close_rpc_handler_def close_file_def close_queue_def close_finish_def Let_def
      andThen_def assert_that_def split: option.splits sum.splits prod.splits)

section \<open>The machine\<close>

text \<open>Where the progress thread stands, with the local variables that are still needed.\<close>

datatype stage =
    Idle
  | Opening hg_call open_in path bool log_info
  | Opened hg_call open_in int log_info
  | Closing hg_call close_in log_info
  | Queued hg_call close_in bool log_info

inductive mover_step :: "'w os \<Rightarrow> path \<Rightarrow> 'w server \<Rightarrow> 'w server \<Rightarrow> bool" for os tmpl where
  m_drain: "local_list s = [] \<Longrightarrow> mover_file s = None \<Longrightarrow> data_queue s \<noteq> [] \<Longrightarrow>
    mover_step os tmpl s (mover_drain s)"
| m_copy: "local_list s \<noteq> [] \<Longrightarrow> mover_file s = None \<Longrightarrow> mover_step os tmpl s (mover_copy os tmpl s)"
| m_publish: "local_list s \<noteq> [] \<Longrightarrow> mover_file s = Some f \<Longrightarrow> mover_step os tmpl s (mover_publish s)"

inductive thread_step ::
  "'w os \<Rightarrow> log_env \<Rightarrow> path \<Rightarrow> 'w server \<times> stage \<Rightarrow> 'w server \<times> stage \<Rightarrow> bool"
  for os le tmpl where
  t_lookup: "open_lookup le hg oin s = Inr (s', Some (q, nvme, li)) \<Longrightarrow>
    thread_step os le tmpl (s, Idle) (s', Opening hg oin q nvme li)"
| t_lookup_none: "open_lookup le hg oin s = Inr (s', None) \<Longrightarrow>
    thread_step os le tmpl (s, Idle) (s', Idle)"
| t_open: "open_file os le hg q nvme li s = Inr (s', fd, li') \<Longrightarrow>
    thread_step os le tmpl (s, Opening hg oin q nvme li) (s', Opened hg oin fd li')"
| t_record: "open_record le hg oin fd li s = Inr (s', out) \<Longrightarrow>
    thread_step os le tmpl (s, Opened hg oin fd li) (s', Idle)"
| t_close: "close_file os le hg cin s = Inr (s', Some li) \<Longrightarrow>
    thread_step os le tmpl (s, Idle) (s', Closing hg cin li)"
| t_close_none: "close_file os le hg cin s = Inr (s', None) \<Longrightarrow>
    thread_step os le tmpl (s, Idle) (s', Idle)"
| t_queue: "close_queue cin s = (nvme, s') \<Longrightarrow>
    thread_step os le tmpl (s, Closing hg cin li) (s', Queued hg cin nvme li)"
| t_finish: "close_finish le hg cin nvme li s = Inr (s', out) \<Longrightarrow>
    thread_step os le tmpl (s, Queued hg cin nvme li) (s', Idle)"
| t_read: "ftc_rpc_handler os le hg rin s = Inr (s', out) \<Longrightarrow>
    thread_step os le tmpl (s, Idle) (s', Idle)"
| t_seek: "ftc_seek_rpc_handler os hg sin s = Inr (s', out) \<Longrightarrow>
    thread_step os le tmpl (s, Idle) (s', Idle)"
| t_mover: "mover_step os tmpl s s' \<Longrightarrow> thread_step os le tmpl (s, st) (s', st)"

inductive thread_run ::
  "'w os \<Rightarrow> log_env \<Rightarrow> path \<Rightarrow> 'w server \<times> stage \<Rightarrow> 'w server \<times> stage \<Rightarrow> bool"
  for os le tmpl where
  tr_refl: "thread_run os le tmpl x x"
| tr_step: "thread_run os le tmpl x y \<Longrightarrow> thread_step os le tmpl y z \<Longrightarrow> thread_run os le tmpl x z"

lemma thread_run_trans:
  assumes "thread_run os le tmpl x y" and "thread_run os le tmpl y z"
  shows "thread_run os le tmpl x z"
  using assms(2,1) by (induction rule: thread_run.induct) (auto intro: thread_run.intros)

lemma thread_run_one: "thread_step os le tmpl x y \<Longrightarrow> thread_run os le tmpl x y"
  by (auto intro: thread_run.intros)

lemma open_handler_thread_run:
  assumes "ftc_open_rpc_handler os le hg inp s = Inr (s', out)"
  shows "thread_run os le tmpl (s, Idle) (s', Idle)"
proof -
  from assms obtain s1 next' where a: "open_lookup le hg inp s = Inr (s1, next')"
    by (auto simp: open_stages andThen_iffs)
  show ?thesis
  proof (cases next')
    case None
    with a assms have "s' = s1" by (simp add: open_stages)
    with a None show ?thesis by (auto intro: thread_run_one t_lookup_none)
  next
    case (Some x)
    obtain q nvme li where x: "x = (q, nvme, li)" by (cases x)
    from a assms Some x obtain s2 fd li' where b: "open_file os le hg q nvme li s1 = Inr (s2, fd, li')"
      "open_record le hg inp fd li' s2 = Inr (s', out)"
      by (auto simp: open_stages andThen_iffs)
    from a Some x b show ?thesis
      by (meson thread_run.intros t_lookup t_open t_record)
  qed
qed

lemma close_handler_thread_run:
  assumes "ftc_close_rpc_handler os le hg inp s = Inr (s', out)"
  shows "thread_run os le tmpl (s, Idle) (s', Idle)"
proof -
  from assms obtain s1 next' where a: "close_file os le hg inp s = Inr (s1, next')"
    by (auto simp: close_stages andThen_iffs)
  show ?thesis
  proof (cases next')
    case None
    with a assms have "s' = s1" by (simp add: close_stages)
    with a None show ?thesis by (auto intro: thread_run_one t_close_none)
  next
    case (Some li)
    obtain nvme s2 where b: "close_queue inp s1 = (nvme, s2)" by fastforce
    with a assms Some have "close_finish le hg inp nvme li s2 = Inr (s', out)"
      by (simp add: close_stages)
    with a Some b show ?thesis
      by (meson thread_run.intros t_close t_queue t_finish)
  qed
qed

text \<open>Runs of \<open>Server_System\<close> are runs of the machine.\<close>

lemma server_run_threads:
  assumes "server_run os le tmpl s s'"
  shows "thread_run os le tmpl (s, Idle) (s', Idle)"
  using assms
proof (induction rule: server_run.induct)
  case (run_step s t u)
  from run_step.hyps(2) have "thread_run os le tmpl (t, Idle) (u, Idle)"
    by (cases rule: server_step.cases)
      (blast intro: open_handler_thread_run close_handler_thread_run thread_run_one t_read t_seek
        t_mover m_drain m_copy m_publish)+
  with run_step.IH show ?case by (rule thread_run_trans)
qed (rule tr_refl)

section \<open>The invariant at every cut\<close>

text \<open>
  Between the call of \<^verbatim>\<open>close\<close> and the removal from \<open>fd_to_path\<close> the map holds a descriptor that is
  closed: \<open>settled\<close> is the state without it.
\<close>

fun settled :: "stage \<Rightarrow> 'w server \<Rightarrow> 'w server" where
  "settled (Closing hg inp li) s = s\<lparr>fd_to_path := (fd_to_path s)(close_fd inp := None)\<rparr>"
| "settled (Queued hg inp nvme li) s = s\<lparr>fd_to_path := (fd_to_path s)(close_fd inp := None)\<rparr>"
| "settled st s = s"

text \<open>What the local variables of a handler that is under way promise.\<close>

fun stage_ok ::
  "('w \<Rightarrow> path \<rightharpoonup> byte list) \<Rightarrow> ('w \<Rightarrow> int \<rightharpoonup> path \<times> int) \<Rightarrow> stage \<Rightarrow> 'w \<Rightarrow> bool" where
  "stage_ok content ofd (Opening hg inp q nvme li) w \<longleftrightarrow>
     q = open_path inp \<or> same_data content w (open_path inp) q"
| "stage_ok content ofd (Opened hg inp fd li) w \<longleftrightarrow>
     fd = -1 \<or>
     (\<exists>q. map_option fst (ofd w fd) = Some q \<and>
        (q = open_path inp \<or> same_data content w (open_path inp) q))"
| "stage_ok content ofd st w \<longleftrightarrow> True"

definition machine_ok ::
  "('w \<Rightarrow> path \<rightharpoonup> byte list) \<Rightarrow> ('w \<Rightarrow> int \<rightharpoonup> path \<times> int) \<Rightarrow> 'w server \<times> stage \<Rightarrow> bool" where
  "machine_ok content ofd x \<longleftrightarrow>
     server_ok content ofd (settled (snd x) (fst x)) \<and> stage_ok content ofd (snd x) (world (fst x))"

lemma stage_ok_keeps:
  assumes "stage_ok content ofd st w" and "keeps content w w'" and "ofd w' = ofd w"
  shows "stage_ok content ofd st w'"
  using assms by (cases st) (auto dest: same_data_keeps)

lemma settled_sel [simp]:
  "world (settled st s) = world s" "path_cache_map (settled st s) = path_cache_map s"
  "local_list (settled st s) = local_list s" "mover_file (settled st s) = mover_file s"
  "data_queue (settled st s) = data_queue s"
  by (cases st; simp)+

lemma mover_settled:
  "mover_drain (settled st s) = settled st (mover_drain s)"
  "mover_copy os t (settled st s) = settled st (mover_copy os t s)"
  "mover_publish (settled st s) = settled st (mover_publish s)"
  by (cases st; auto simp: mover_drain_eq mover_copy_def mover_publish_def Let_def
      split: list.splits prod.splits option.splits)+

lemma mover_step_settled:
  assumes "mover_step os tmpl s s'"
  shows "server_step os le tmpl (settled st s) (settled st s')"
  using assms
  by (cases rule: mover_step.cases)
    (auto simp: mover_settled [symmetric] intro!: drain_step copy_step publish_step)

subsection \<open>What the stages change\<close>

lemma server_log_Inr: "server_log le i s = Inr s' \<Longrightarrow> \<exists>L. s' = s\<lparr>server_logs := L\<rparr>"
  by (auto simp: server_log_def andThen_iffs)

text \<open>The fields the invariant is about.\<close>

definition same_state :: "'w server \<Rightarrow> 'w server \<Rightarrow> bool" where
  "same_state s s' \<longleftrightarrow> fd_to_path s' = fd_to_path s \<and> path_cache_map s' = path_cache_map s \<and>
     local_list s' = local_list s \<and> mover_file s' = mover_file s \<and> world s' = world s"

lemma server_ok_same: "same_state s s' \<Longrightarrow> server_ok content ofd s' = server_ok content ofd s"
  by (simp add: same_state_def server_ok_def cache_ok_def mover_ok_def fds_ok_def)

lemma open_lookup_effect:
  assumes "open_lookup le hg inp s = Inr (s', next')"
  shows "same_state s s'"
    and "next' = Some (q, nvme, li) \<Longrightarrow> q = redirect s (open_path inp)"
  using assms
  by (auto simp: open_lookup_def andThen_iffs same_state_def redirect_def Let_def
      split: option.splits dest!: server_log_Inr)

lemma open_file_effect:
  assumes "open_file os le hg q nvme li s = Inr (s', fd, li')"
  shows "sys_open os q O_RDONLY (world s) = (fd, world s') \<and> same_state (s\<lparr>world := world s'\<rparr>) s'"
  using assms
  by (auto simp: open_file_def andThen_iffs same_state_def Let_def case_prod_unfold
      prod_eq_iff dest!: server_log_Inr)

lemma open_record_effect:
  assumes "open_record le hg inp fd li s = Inr (s', out)"
  shows "same_state (s\<lparr>fd_to_path := (fd_to_path s)(fd \<mapsto> open_path inp)\<rparr>) s'"
  using assms
  by (auto simp: open_record_def andThen_iffs same_state_def dest!: server_log_Inr)

lemma close_file_effect:
  assumes "close_file os le hg inp s = Inr (s', Some li)"
  shows "sys_close os (close_fd inp) (world s) = (0, world s') \<and>
    same_state (s\<lparr>world := world s'\<rparr>) s'"
  using assms
  by (auto simp: close_file_def andThen_iffs same_state_def Let_def case_prod_unfold
      prod_eq_iff split: option.split_asm dest!: server_log_Inr)

lemma close_file_none:
  assumes "close_file os le hg inp s = Inr (s', None)"
  shows "s' = s\<lparr>fd_to_path := (fd_to_path s)(close_fd inp := None)\<rparr>"
  using assms
  by (auto simp: close_file_def andThen_iffs Let_def case_prod_unfold split: option.split_asm)

lemma close_queue_effect:
  assumes "close_queue inp s = (nvme, s')"
  shows "same_state (s\<lparr>fd_to_path := (fd_to_path s)(close_fd inp := None)\<rparr>)
    (s'\<lparr>fd_to_path := (fd_to_path s')(close_fd inp := None)\<rparr>)"
proof -
  obtain p m where p: "subscript [] (fd_to_path s) (close_fd inp) = (p, m)" by fastforce
  then have "m = (fd_to_path s)(close_fd inp \<mapsto> p)"
    using subscript_map [of "[]" "fd_to_path s" "close_fd inp"] by simp
  with assms p show ?thesis by (auto simp: close_queue_def same_state_def Let_def split: if_splits)
qed

lemma close_finish_effect:
  assumes "close_finish le hg inp nvme li s = Inr (s', out)"
  shows "same_state (s\<lparr>fd_to_path := (fd_to_path s)(close_fd inp := None)\<rparr>) s'"
  using assms
  by (auto simp: close_finish_def andThen_iffs same_state_def dest!: server_log_Inr)

context posix_files
begin

text \<open>A redirection taken from a coherent map leads to the data of the path.\<close>

lemma redirect_ok:
  "server_ok content ofd s \<Longrightarrow>
   redirect s p = p \<or> same_data content (world s) p (redirect s p)"
  by (auto simp: redirect_def server_ok_def cache_ok_def split: option.splits)

text \<open>Opening a file leaves the invariant alone: the new descriptor is in no map.\<close>

lemma server_ok_open:
  assumes "server_ok content ofd s" and "sys_open os q O_RDONLY (world s) = (fd, w)"
  shows "server_ok content ofd (s\<lparr>world := w\<rparr>) \<and> content w = content (world s)"
proof -
  have same: "content w = content (world s)" using open_content [of q "world s"] assms(2) by simp
  moreover have "server_ok content ofd (s\<lparr>world := w\<rparr>)"
  proof (rule server_ok_frame [OF assms(1)])
    fix g p
    assume g: "fd_to_path (s\<lparr>world := w\<rparr>) g = Some p" "0 \<le> g"
    then have "fd_to_path s g = Some p" by simp
    with assms(1) g(2) obtain q' where "map_option fst (ofd (world s) g) = Some q'"
      unfolding server_ok_def fds_ok_def by blast
    then have "g \<noteq> fd \<or> fd = -1" using open_ofd [OF assms(2)] by auto
    then show "(fd_to_path s g = Some p \<and>
         map_option fst (ofd (world (s\<lparr>world := w\<rparr>)) g) = map_option fst (ofd (world s) g)) \<or>
        (\<exists>q. map_option fst (ofd (world (s\<lparr>world := w\<rparr>)) g) = Some q \<and>
           (q = p \<or> same_data content (world (s\<lparr>world := w\<rparr>)) p q))"
      using g open_ofd [OF assms(2)] by auto
  qed (simp_all add: same keeps_same)
  ultimately show ?thesis by simp
qed

lemma server_ok_record:
  assumes "server_ok content ofd s"
    and "fd = -1 \<or> (\<exists>q. map_option fst (ofd (world s) fd) = Some q \<and>
      (q = p \<or> same_data content (world s) p q))"
  shows "server_ok content ofd (s\<lparr>fd_to_path := (fd_to_path s)(fd \<mapsto> p)\<rparr>)"
  using assms(2) by (intro server_ok_frame [OF assms(1)]) (auto split: if_splits)

lemma server_ok_forget:
  "server_ok content ofd s \<Longrightarrow> server_ok content ofd (s\<lparr>fd_to_path := (fd_to_path s)(fd := None)\<rparr>)"
  by (erule server_ok_frame) (auto split: if_splits)

lemma server_ok_close:
  assumes "server_ok content ofd s" and "sys_close os fd (world s) = (0, w)"
  shows "server_ok content ofd (s\<lparr>world := w, fd_to_path := (fd_to_path s)(fd := None)\<rparr>)"
  using close_content [of fd "world s"] close_ofd [OF assms(2)] assms(2)
  by (intro server_ok_frame [OF assms(1)]) (auto simp: keeps_same split: if_splits)

lemma mover_step_ofd: "mover_step os t s s' \<Longrightarrow> ofd (world s') = ofd (world s)"
proof (induction rule: mover_step.induct)
  case (m_copy s)
  then obtain p ps where "local_list s = p # ps" by (auto simp: neq_Nil_conv)
  then show ?case
  proof (rule mover_copy_cases [of s p ps os t])
    fix d w1 w2 c
    assume m: "sys_mkdtemp os t (world s) = (d, w1)"
    have w1: "ofd w1 = ofd (world s)" using mkdtemp_world(2) [of t "world s"] m by simp
    have w2: "ofd w2 = ofd w1" if "fs_copy os p (d @ ''/'' @ filename_of p) w1 = (c, w2)" for c w2
      using copy_ofd [of p "d @ ''/'' @ filename_of p" w1] that by simp
    show "ofd (world (mover_copy os t s)) = ofd (world s)"
      if "fs_copy os p (d @ ''/'' @ filename_of p) w1 = (True, w2)"
        "mover_copy os t s = s\<lparr>world := w2, mover_file := Some (d @ ''/'' @ filename_of p)\<rparr>"
      using that(2) w2 [OF that(1)] w1 by simp
    show "ofd (world (mover_copy os t s)) = ofd (world s)"
      if "fs_copy os p (d @ ''/'' @ filename_of p) w1 = (False, w2)"
        "mover_copy os t s = s\<lparr>world := w2, mover_file := None,
         mover_errors := mover_errors s @ [p], local_list := ps\<rparr>"
      using that(2) w2 [OF that(1)] w1 by simp
  qed
qed (auto simp: mover_drain_eq mover_publish_def split: list.splits option.splits)

text \<open>Every step, at every cut, keeps the invariant and the files.\<close>

lemma thread_step_ok:
  assumes "thread_step os le t x y" and "machine_ok content ofd x"
  shows "machine_ok content ofd y \<and> keeps content (world (fst x)) (world (fst y))"
  using assms
proof (cases rule: thread_step.cases)
  case (t_lookup hg oin s s' q nvme li)
  note eff = open_lookup_effect [OF t_lookup(3)]
  have ok: "server_ok content ofd s" using assms(2) t_lookup by (simp add: machine_ok_def)
  have "server_ok content ofd s'" using ok server_ok_same [OF eff(1)] by simp
  moreover have "world s' = world s" using eff(1) by (simp add: same_state_def)
  ultimately show ?thesis
    using redirect_ok [OF ok, of "open_path oin"] eff(2) [OF refl] t_lookup(1,2)
    by (simp add: machine_ok_def)
next
  case (t_lookup_none hg oin s s')
  note eff = open_lookup_effect(1) [OF t_lookup_none(3)]
  from eff assms(2) t_lookup_none show ?thesis
    by (simp add: machine_ok_def server_ok_same) (simp add: same_state_def)
next
  case (t_open hg q nvme li s s' fd li' oin)
  note eff = open_file_effect [OF t_open(3)]
  have ok: "server_ok content ofd s" "q = open_path oin \<or> same_data content (world s) (open_path oin) q"
    using assms(2) t_open by (simp_all add: machine_ok_def)
  from server_ok_open [OF ok(1)] eff have ok': "server_ok content ofd s'"
    "content (world s') = content (world s)" by (auto simp: server_ok_same)
  have "fd = -1 \<or> map_option fst (ofd (world s') fd) = Some q"
    using open_ofd eff by fastforce
  with ok(2) ok' t_open show ?thesis
    by (auto simp: machine_ok_def keeps_same same_data_def)
next
  case (t_record hg oin fd li s s' out)
  note eff = open_record_effect [OF t_record(3)]
  have "server_ok content ofd (s\<lparr>fd_to_path := (fd_to_path s)(fd \<mapsto> open_path oin)\<rparr>)"
    by (rule server_ok_record) (use assms(2) t_record in \<open>auto simp: machine_ok_def\<close>)
  with eff t_record show ?thesis
    by (simp add: machine_ok_def server_ok_same) (simp add: same_state_def)
next
  case (t_close hg cin s s' li)
  note eff = close_file_effect [OF t_close(3)]
  have ok: "server_ok content ofd s" using assms(2) t_close by (simp add: machine_ok_def)
  have "same_state (s\<lparr>world := world s', fd_to_path := (fd_to_path s)(close_fd cin := None)\<rparr>)
      (s'\<lparr>fd_to_path := (fd_to_path s')(close_fd cin := None)\<rparr>)"
    using eff by (simp add: same_state_def)
  with server_ok_close [OF ok] eff have "server_ok content ofd (settled (Closing hg cin li) s')"
    by (simp add: server_ok_same)
  moreover have "content (world s') = content (world s)"
    using close_content [of "close_fd cin" "world s"] eff by simp
  ultimately show ?thesis using t_close by (simp add: machine_ok_def keeps_same)
next
  case (t_close_none hg cin s s')
  with close_file_none [OF t_close_none(3)] assms(2) server_ok_forget show ?thesis
    by (simp add: machine_ok_def)
next
  case (t_queue cin s nvme s' hg li)
  note eff = close_queue_effect [OF t_queue(3)]
  from eff assms(2) t_queue show ?thesis
    by (simp add: machine_ok_def server_ok_same) (simp add: same_state_def)
next
  case (t_finish hg cin nvme li s s' out)
  note eff = close_finish_effect [OF t_finish(3)]
  from eff assms(2) t_finish show ?thesis
    by (simp add: machine_ok_def server_ok_same) (simp add: same_state_def)
next
  case (t_read hg rin s s' out)
  with assms(2) read_keeps_ok show ?thesis by (fastforce simp: machine_ok_def)
next
  case (t_seek hg sin s s' out)
  with assms(2) seek_keeps_ok show ?thesis by (fastforce simp: machine_ok_def)
next
  case (t_mover s s' st)
  have ok: "server_ok content ofd (settled st s)" "stage_ok content ofd st (world s)"
    using assms(2) t_mover by (simp_all add: machine_ok_def)
  from step_keeps_ok [OF mover_step_settled [OF t_mover(3)] ok(1)]
  have "server_ok content ofd (settled st s')" and keep: "keeps content (world s) (world s')"
    by simp_all
  moreover from stage_ok_keeps [OF ok(2) keep mover_step_ofd [OF t_mover(3)]]
  have "stage_ok content ofd st (world s')" .
  ultimately show ?thesis using t_mover by (simp add: machine_ok_def)
qed

lemma thread_run_ok:
  assumes "thread_run os le t x y" and "machine_ok content ofd x"
  shows "machine_ok content ofd y \<and> keeps content (world (fst x)) (world (fst y))"
  using assms
  by (induction rule: thread_run.induct) (auto dest: thread_step_ok intro: keeps_trans)

end

end
