(* ===== verification/Thread_Properties.thy ===== *)
theory Thread_Properties
  imports Server_Threads Demo
begin

text \<open>
  What holds of the server when its two threads interleave between the critical sections of a
  handler, and how this finer view relates to the atomic handlers of \<open>Server_System\<close>.
\<close>

text \<open>
  C6. The cache is coherent at every cut. Let the data mover act between any two stages of a
  handler: after the lookup in the map and before the call of \<open>open\<close>, after it and before the
  descriptor is entered, after \<open>close\<close> and before the path is queued or the descriptor removed.
  In every state so reached, a cached path and its copy hold the same data; a descriptor that is
  entered and not being closed is open on a file with the data of its path; a redirection an open
  handler has taken from the map, and the descriptor it has opened and not yet entered, still
  lead to the data of the path asked for; and no file has changed.
\<close>

theorem every_interleaving_is_coherent:
  assumes "posix_files os content ofd" and "server_start s0"
    and "thread_run os le t (s0, Idle) (s, st)"
  shows "(path_cache_map s p = Some q \<longrightarrow> same_data content (world s) p q) \<and>
    (fd_to_path (settled st s) fd = Some p \<longrightarrow> 0 \<le> fd \<longrightarrow> content (world s) p = Some d \<longrightarrow>
      (\<exists>q off. ofd (world s) fd = Some (q, off) \<and> content (world s) q = Some d)) \<and>
    (st = Opening hg oin q nvme li \<longrightarrow>
      q = open_path oin \<or> same_data content (world s) (open_path oin) q) \<and>
    (st = Opened hg oin fd li \<longrightarrow> fd \<noteq> -1 \<longrightarrow> content (world s) (open_path oin) = Some d \<longrightarrow>
      (\<exists>q off. ofd (world s) fd = Some (q, off) \<and> content (world s) q = Some d)) \<and>
    keeps content (world s0) (world s)"
proof -
  have "machine_ok content ofd (s0, Idle)"
    using server_ok_start [OF assms(2)] by (simp add: machine_ok_def)
  from posix_files.thread_run_ok [OF assms(1,3) this]
  have ok: "server_ok content ofd (settled st s)" and stage: "stage_ok content ofd st (world s)"
    and keep: "keeps content (world s0) (world s)"
    by (simp_all add: machine_ok_def)
  have "path_cache_map s p = Some q \<longrightarrow> same_data content (world s) p q"
    using ok by (simp add: server_ok_def cache_ok_def)
  moreover have "fd_to_path (settled st s) fd = Some p \<longrightarrow> 0 \<le> fd \<longrightarrow> content (world s) p = Some d \<longrightarrow>
      (\<exists>q off. ofd (world s) fd = Some (q, off) \<and> content (world s) q = Some d)"
    using posix_files.fd_data [OF assms(1) ok] by (metis settled_sel(1))
  ultimately show ?thesis using stage keep by (auto simp: same_data_def)
qed

lemma demo_lookup_again:
  "\<exists>li. open_lookup demo_le demo_call demo_open_in demo_round =
     Inr (demo_round, Some (''/n/0/a'', True, li))"
  by (simp add: open_lookup_def demo_call_def demo_server_log demo_round_state demo_server_def
      demo_open_in_def demo_peer Let_def)

theorem every_interleaving_is_coherent_witness:
  "\<exists>li. thread_run fsys_os demo_le (nvme_template ''/n'') (demo_server, Idle)
       (demo_round, Opening demo_call demo_open_in ''/n/0/a'' True li) \<and>
     (''/n/0/a'' = open_path demo_open_in \<or>
      same_data fs_files (world demo_round) (open_path demo_open_in) ''/n/0/a'')"
proof -
  obtain li where li: "open_lookup demo_le demo_call demo_open_in demo_round =
      Inr (demo_round, Some (''/n/0/a'', True, li))"
    using demo_lookup_again by blast
  have run: "thread_run fsys_os demo_le (nvme_template ''/n'') (demo_server, Idle)
      (demo_round, Opening demo_call demo_open_in ''/n/0/a'' True li)"
    by (rule tr_step [OF server_run_threads [OF demo_round_run] t_lookup [OF li]])
  from every_interleaving_is_coherent [OF fsys.posix_files_axioms demo_start run] run
  show ?thesis by blast
qed



end
