(* ===== verification/Client_Thread_Properties.thy ===== *)
theory Client_Thread_Properties
  imports Client_Threads Client_Properties
begin

text \<open>
  What holds of a client with several threads, and what its threads do to each other. Each property
  is followed by a witness on two threads of the client of \<open>Client_Properties\<close>.
\<close>

section \<open>Two threads\<close>

text \<open>Two threads outside the library; the server they read from has missed two deadlines.\<close>

definition demo_shared :: client where
  "demo_shared = demo_client\<lparr>timeout_counters := [2, 0]\<rparr>"

definition demo_pool :: pool where
  "demo_pool = \<lparr>shared = demo_shared, frames = (\<lambda>t. Returned 0), memory = (\<lambda>b. [0, 0, 0]),
     requests = Map.empty, next_request = 0, seek_done = 0, seek_ret = -1, seek_requests = 0\<rparr>"

abbreviation demo_read_call :: call where
  "demo_read_call \<equiv> Read_Call 7 5 1 0"

abbreviation demo_request :: "int \<times> rpc_request" where
  "demo_request \<equiv> (0, Read_Req (mk_rpc_in 1 0 0 7 0 0))"

lemma demo_pool_start: "pool_start demo_pool"
  by (simp add: pool_start_def demo_pool_def demo_shared_def demo_client_def counters_ok_def
      TIMEOUT_LIMIT_def)

lemma demo_check: "read_check demo_cenv 7 (demo_shared\<lparr>sent := x\<rparr>) = Inr (Some 0)"
  "read_check demo_cenv 7 demo_shared = Inr (Some 0)"
  by (simp_all add: read_check_def ftc_file_tracked_iff demo_shared_def demo_client_def demo_host
      demo_limit)

lemma demo_send:
  "send_call demo_cenv demo_hs 0 demo_read_call (demo_shared\<lparr>sent := x\<rparr>) =
     Inr (demo_shared\<lparr>sent := x @ [demo_request]\<rparr>)"
proof -
  have "demo_like (demo_shared\<lparr>sent := x\<rparr>)" by (simp add: demo_shared_def demo_like_def demo_client_def)
  from demo_gen_read [OF this, of 7 0] show ?thesis
    by (simp add: demo_shared_def demo_client_def)
qed

lemma demo_send_first:
  "send_call demo_cenv demo_hs 0 demo_read_call demo_shared = Inr (demo_shared\<lparr>sent := [demo_request]\<rparr>)"
  using demo_send [of "[]"] by (simp add: demo_shared_def demo_client_def del: send_call.simps)

text \<open>Both threads have passed the check and wait for an answer.\<close>

definition demo_waiting :: pool where
  "demo_waiting = \<lparr>shared = demo_shared\<lparr>sent := [demo_request, demo_request]\<rparr>,
     frames = (\<lambda>t. Returned 0)(0 := Waiting demo_read_call 0 0 False (-1),
       1 := Waiting demo_read_call 0 1 False (-1)),
     memory = (\<lambda>b. [0, 0, 0]),
     requests = [0 \<mapsto> \<lparr>rq_call = demo_read_call, rq_host = 0, rq_thread = 0\<rparr>,
       1 \<mapsto> \<lparr>rq_call = demo_read_call, rq_host = 0, rq_thread = 1\<rparr>],
     next_request = 2, seek_done = 0, seek_ret = -1, seek_requests = 0\<rparr>"

lemma demo_waiting_run: "pool_run demo_cenv 2 demo_pool demo_waiting"
proof -
  let ?p1 = "set_frame 0 (Sending demo_read_call 0) demo_pool"
  let ?p2 = "set_frame 1 (Sending demo_read_call 0) ?p1"
  let ?p3 = "(set_frame 0 (Waiting demo_read_call 0 (next_request ?p2) False (-1)) ?p2)
      \<lparr>shared := demo_shared\<lparr>sent := [] @ [demo_request]\<rparr>, next_request := Suc (next_request ?p2),
       requests := (requests ?p2)(next_request ?p2 \<mapsto> \<lparr>rq_call = demo_read_call, rq_host = 0, rq_thread = 0\<rparr>)\<rparr>"
  let ?p4 = "(set_frame 1 (Waiting demo_read_call 0 (next_request ?p3) False (-1)) ?p3)
      \<lparr>shared := demo_shared\<lparr>sent := ([] @ [demo_request]) @ [demo_request]\<rparr>,
       next_request := Suc (next_request ?p3),
       requests := (requests ?p3)(next_request ?p3 \<mapsto> \<lparr>rq_call = demo_read_call, rq_host = 0, rq_thread = 1\<rparr>)\<rparr>"
  have s1: "pool_step demo_cenv 2 demo_pool (Inr ?p1)"
    by (rule p_read [where x = 0]) (simp_all add: demo_pool_def demo_check)
  have s2: "pool_step demo_cenv 2 ?p1 (Inr ?p2)"
    by (rule p_read [where x = 0]) (simp_all add: demo_pool_def demo_check)
  have s3: "pool_step demo_cenv 2 ?p2 (Inr ?p3)"
    by (rule p_send [where hs = demo_hs])
      (simp_all add: demo_pool_def demo_send_first del: send_call.simps)
  have s4: "pool_step demo_cenv 2 ?p3 (Inr ?p4)"
    by (rule p_send [where hs = demo_hs])
      (simp_all add: demo_send [of "[demo_request]", simplified append.simps] del: send_call.simps)
  have "pool_run demo_cenv 2 demo_pool ?p4"
    by (rule pool_snoc [OF pool_snoc [OF pool_snoc [OF pool_run_one [OF s1] s2] s3] s4])
  moreover have "?p4 = demo_waiting"
    by (simp add: demo_waiting_def demo_pool_def fun_upd_twist numeral_2_eq_2)
  ultimately show ?thesis by simp
qed

lemma demo_count:
  "count_timeout 0 (demo_shared\<lparr>sent := x, timeout_counters := k # ks\<rparr>) =
     Inr (demo_shared\<lparr>sent := x, timeout_counters := (k + 1) # ks\<rparr>)"
  by (simp add: count_timeout_def demo_shared_def demo_client_def)

section \<open>The counters\<close>

text \<open>
  C22. With several threads the timeout counters have a bound of their own. Checking a counter and
  counting a timeout are two critical sections, so threads that are already waiting for a server
  still count when it has been given up: with \<open>n\<close> threads a counter stays between 0 and the limit
  plus \<open>n - 1\<close>, over every interleaving of reads, opens, closes and seeks, with answers, late
  answers and deadlines in any order. The witness reaches the bound for two threads.
\<close>

theorem threads_bound_the_counters:
  assumes "pool_start p0" and "pool_run env n p0 p" and "0 < n"
    and "0 \<le> h" and "h < g_ftc_server_count (shared p)"
  shows "0 \<le> timeout_counters (shared p) ! nat h \<and>
    timeout_counters (shared p) ! nat h \<le> TIMEOUT_LIMIT - 1 + int n"
  using pool_run_ok [OF assms(2) pool_ok_start [OF assms(1,3)]] assms(4,5)
  by (force simp: pool_ok_def)

text \<open>Both deadlines pass.\<close>

definition demo_timed_out :: pool where
  "demo_timed_out = demo_waiting\<lparr>frames := (\<lambda>t. Returned 0)(0 := Returned (-1), 1 := Returned (-1)),
     shared := demo_shared\<lparr>sent := [demo_request, demo_request], timeout_counters := [4, 0]\<rparr>\<rparr>"

lemma demo_timed_out_run: "pool_run demo_cenv 2 demo_pool demo_timed_out"
proof -
  let ?c1 = "demo_shared\<lparr>sent := [demo_request, demo_request], timeout_counters := [3, 0]\<rparr>"
  let ?c2 = "demo_shared\<lparr>sent := [demo_request, demo_request], timeout_counters := [4, 0]\<rparr>"
  let ?p1 = "(set_frame 0 (Returned (call_result demo_read_call (-1))) demo_waiting)\<lparr>shared := ?c1\<rparr>"
  let ?p2 = "(set_frame 1 (Returned (call_result demo_read_call (-1))) ?p1)\<lparr>shared := ?c2\<rparr>"
  have "shared demo_waiting = demo_shared\<lparr>sent := [demo_request, demo_request], timeout_counters := [2, 0]\<rparr>"
    by (simp add: demo_waiting_def demo_shared_def demo_client_def)
  then have s1: "pool_step demo_cenv 2 demo_waiting (Inr ?p1)"
    by (intro p_deadline [where host = 0 and rid = 0 and dn = False and br = "-1"])
      (simp_all add: demo_count, simp add: demo_waiting_def)
  have s2: "pool_step demo_cenv 2 ?p1 (Inr ?p2)"
    by (rule p_deadline [where host = 0 and rid = 1 and dn = False and br = "-1"])
      (simp_all add: demo_count, simp add: demo_waiting_def)
  have "pool_run demo_cenv 2 demo_pool ?p2"
    by (rule pool_snoc [OF pool_snoc [OF demo_waiting_run s1] s2])
  moreover have "?p2 = demo_timed_out" by (simp add: demo_timed_out_def demo_waiting_def)
  ultimately show ?thesis by simp
qed

theorem threads_bound_the_counters_witness:
  "pool_run demo_cenv 2 demo_pool demo_timed_out \<and>
   timeout_counters (shared demo_timed_out) ! nat 0 = TIMEOUT_LIMIT - 1 + int 2 \<and>
   0 \<le> timeout_counters (shared demo_timed_out) ! nat 0"
proof -
  have "0 \<le> timeout_counters (shared demo_timed_out) ! nat 0 \<and>
      timeout_counters (shared demo_timed_out) ! nat 0 \<le> TIMEOUT_LIMIT - 1 + int 2"
    by (rule threads_bound_the_counters [OF demo_pool_start demo_timed_out_run])
      (simp_all add: demo_timed_out_def demo_shared_def demo_client_def)
  with demo_timed_out_run show ?thesis
    by (simp add: demo_timed_out_def TIMEOUT_LIMIT_def)
qed

section \<open>One thread\<close>



section \<open>Late answers\<close>



section \<open>Concurrent seeks\<close>

text \<open>
  C40. Two concurrent seeks can block each other for ever. The waits of all seeks share the variable
  \<open>done\<close>, which every answer increments and every wait wants to be exactly one: if two threads wait
  and both answers arrive before either wakes up, then no step of any run ever ends the wait of
  either, although the server has answered both.
\<close>

theorem concurrent_seeks_block_each_other:
  assumes "frames p 0 = Seek_Waiting" and "frames p 1 = Seek_Waiting" and "seek_done p = 0"
    and "seek_requests p = 2"
  shows "\<exists>q. pool_run env 2 p q \<and> seek_requests q = 0 \<and>
    (\<forall>r. pool_run env 2 q r \<longrightarrow> frames r 0 = Seek_Waiting \<and> frames r 1 = Seek_Waiting)"
proof -
  obtain q where q: "pool_run env 2 p q" "seeks_stuck q" using two_answers [OF assms] by blast
  have "seeks_stuck r" if "pool_run env 2 q r" for r using seeks_stuck_run [OF that q(2)] .
  with q show ?thesis by (intro exI [of _ q]) (simp add: seeks_stuck_def)
qed

definition demo_seek_request :: "int \<times> rpc_request" where
  "demo_seek_request = (0, Seek_Req (mk_seek_in 0 1 0))"

definition demo_seeking :: pool where
  "demo_seeking = demo_pool\<lparr>frames := (\<lambda>t. Returned 0)(0 := Seek_Waiting, 1 := Seek_Waiting),
     shared := demo_shared\<lparr>sent := [demo_seek_request, demo_seek_request]\<rparr>, seek_requests := 2\<rparr>"

lemma demo_seek_send:
  "ftc_client_comm_gen_seek_rpc demo_cenv demo_hs 0 7 1 0 (demo_shared\<lparr>sent := x\<rparr>) =
     Inr (demo_shared\<lparr>sent := x @ [demo_seek_request]\<rparr>)"
  by (simp add: ftc_client_comm_gen_seek_rpc_def demo_lookup demo_shared_def demo_client_def demo_hs_def
      hg_forward_def demo_seek_request_def Let_def)

lemma demo_seeking_run: "pool_run demo_cenv 2 demo_pool demo_seeking"
proof -
  have tr: "ftc_file_tracked (demo_shared\<lparr>sent := x\<rparr>) 7"
    "select_host (ce_hash demo_cenv) (g_ftc_server_count (demo_shared\<lparr>sent := x\<rparr>))
       (the (fd_map (demo_shared\<lparr>sent := x\<rparr>) 7)) = Inr 0" for x
    by (simp_all add: ftc_file_tracked_iff demo_shared_def demo_client_def demo_host)
  have s0: "demo_shared = demo_shared\<lparr>sent := []\<rparr>" by (simp add: demo_shared_def demo_client_def)
  define p0 where "p0 = demo_pool\<lparr>shared := demo_shared\<lparr>sent := []\<rparr>\<rparr>"
  have p0: "demo_pool = p0" "frames p0 = (\<lambda>t. Returned 0)" "shared p0 = demo_shared\<lparr>sent := []\<rparr>"
    "seek_requests p0 = 0"
    using s0 by (simp_all add: p0_def demo_pool_def)
  define p1 where "p1 = (set_frame 0 (Seek_Reset (uwrap32 0) 7 1 0) p0)\<lparr>seek_done := 0, seek_ret := -1\<rparr>"
  define p2 where "p2 = (set_frame 0 Seek_Waiting p1)
      \<lparr>shared := demo_shared\<lparr>sent := [] @ [demo_seek_request]\<rparr>, seek_requests := Suc (seek_requests p1)\<rparr>"
  define p3 where "p3 = (set_frame 1 (Seek_Reset (uwrap32 0) 7 1 0) p2)\<lparr>seek_done := 0, seek_ret := -1\<rparr>"
  define p4 where "p4 = (set_frame 1 Seek_Waiting p3)
      \<lparr>shared := demo_shared\<lparr>sent := ([] @ [demo_seek_request]) @ [demo_seek_request]\<rparr>,
       seek_requests := Suc (seek_requests p3)\<rparr>"
  have s1: "pool_step demo_cenv 2 p0 (Inr p1)"
    unfolding p1_def
    by (rule p_seek [where x = 0]) (use tr [of "[]"] in \<open>simp_all add: p0(2,3)\<close>)
  have s2: "pool_step demo_cenv 2 p1 (Inr p2)"
    unfolding p2_def
    by (rule p_seek_send [where hs = demo_hs and host = 0 and fd = 7 and off = 1 and wh = 0])
      (use demo_seek_send [of "[]"] in \<open>simp_all add: p1_def p0\<close>)
  have s3: "pool_step demo_cenv 2 p2 (Inr p3)"
    unfolding p3_def
    by (rule p_seek [where x = 0]) (use tr [of "[demo_seek_request]"] in \<open>simp_all add: p2_def p1_def p0\<close>)
  have s4: "pool_step demo_cenv 2 p3 (Inr p4)"
    unfolding p4_def
    by (rule p_seek_send [where hs = demo_hs and host = 0 and fd = 7 and off = 1 and wh = 0])
      (use demo_seek_send [of "[demo_seek_request]"] in \<open>simp_all add: p3_def p2_def p1_def p0\<close>)
  have "pool_run demo_cenv 2 p0 p4"
    by (rule pool_snoc [OF pool_snoc [OF pool_snoc [OF pool_run_one [OF s1] s2] s3] s4])
  moreover have "p4 = demo_seeking"
    by (simp add: p4_def p3_def p2_def p1_def p0_def demo_seeking_def demo_pool_def numeral_2_eq_2)
  ultimately show ?thesis using p0(1) by simp
qed

theorem concurrent_seeks_block_each_other_witness:
  "pool_run demo_cenv 2 demo_pool demo_seeking \<and>
   (\<exists>q. pool_run demo_cenv 2 demo_seeking q \<and> seek_requests q = 0 \<and> frames q 0 = Seek_Waiting)"
proof -
  have "\<exists>q. pool_run demo_cenv 2 demo_seeking q \<and> seek_requests q = 0 \<and>
      (\<forall>r. pool_run demo_cenv 2 q r \<longrightarrow> frames r 0 = Seek_Waiting \<and> frames r 1 = Seek_Waiting)"
    by (rule concurrent_seeks_block_each_other) (simp_all add: demo_seeking_def demo_pool_def)
  with demo_seeking_run show ?thesis by (blast intro: pool_refl)
qed

end
