(* ===== verification/Rpc_Dispatch.thy ===== *)
theory Rpc_Dispatch
  imports Server_Startup Demo
begin

text \<open>
  What connects a request to its handler: the registration of the four RPCs with Mercury
  (ftc_comm.cpp, and the calls of it in ftc_server.cpp and ftc_comm_client.cpp), the dispatch by
  identifier, and the progress thread that runs the callbacks (\<open>ftc_progress_fn\<close>,
  \<open>ftc_shutdown_comm\<close>). Mercury derives an identifier from the registered name; how is a
  parameter. The lemmas show which handler a request reaches and the type of its answer, and the
  order the progress thread runs callbacks in.
\<close>

section \<open>Registration\<close>

datatype rpc_kind = Base_Rpc | Open_Rpc | Close_Rpc | Seek_Rpc

fun rpc_name :: "rpc_kind \<Rightarrow> string" where
  "rpc_name Base_Rpc = ''ftc_base_rpc''"
| "rpc_name Open_Rpc = ''ftc_open_rpc''"
| "rpc_name Close_Rpc = ''ftc_close_rpc''"
| "rpc_name Seek_Rpc = ''ftc_seek_rpc''"

text \<open>What a class knows of an identifier: the handler, and whether it sends responses.\<close>

type_synonym rpc_table = "int \<rightharpoonup> rpc_kind \<times> bool"

definition mercury_register :: "(string \<Rightarrow> int) \<Rightarrow> rpc_kind \<Rightarrow> rpc_table \<Rightarrow> int \<times> rpc_table" where
  "mercury_register id_of k tab = (id_of (rpc_name k), tab(id_of (rpc_name k) \<mapsto> (k, True)))"

definition ftc_rpc_register :: "(string \<Rightarrow> int) \<Rightarrow> rpc_table \<Rightarrow> int \<times> rpc_table" where
  "ftc_rpc_register id_of tab = mercury_register id_of Base_Rpc tab"

definition ftc_open_rpc_register :: "(string \<Rightarrow> int) \<Rightarrow> rpc_table \<Rightarrow> int \<times> rpc_table" where
  "ftc_open_rpc_register id_of tab = mercury_register id_of Open_Rpc tab"

definition ftc_close_rpc_register ::
  "(string \<Rightarrow> int) \<Rightarrow> int \<Rightarrow> rpc_table \<Rightarrow> (int \<times> rpc_table) res" where
  "ftc_close_rpc_register id_of disable_ret tab =
     (let (tmp, t) = mercury_register id_of Close_Rpc tab
      in andThen (assert_that (disable_ret = 0)) (\<lambda>_. Inr (tmp, t(tmp \<mapsto> (Close_Rpc, False)))))"

definition ftc_seek_rpc_register :: "(string \<Rightarrow> int) \<Rightarrow> rpc_table \<Rightarrow> int \<times> rpc_table" where
  "ftc_seek_rpc_register id_of tab = mercury_register id_of Seek_Rpc tab"

record client_ids =
  ftc_client_rpc_id :: int
  ftc_client_open_id :: int
  ftc_client_close_id :: int
  ftc_client_seek_id :: int

definition ftc_client_comm_register_rpc ::
  "(string \<Rightarrow> int) \<Rightarrow> int \<Rightarrow> rpc_table \<Rightarrow> (client_ids \<times> rpc_table) res" where
  "ftc_client_comm_register_rpc id_of disable_ret tab =
     (let (open_id, t1) = ftc_open_rpc_register id_of tab;
          (rpc_id, t2) = ftc_rpc_register id_of t1
      in andThen (ftc_close_rpc_register id_of disable_ret t2) (\<lambda>(close_id, t3).
         let (seek_id, t4) = ftc_seek_rpc_register id_of t3
         in Inr (\<lparr>ftc_client_rpc_id = rpc_id, ftc_client_open_id = open_id,
                  ftc_client_close_id = close_id, ftc_client_seek_id = seek_id\<rparr>, t4)))"

text \<open>The four calls of \<open>ftc_start_comm_server\<close>, which follow the posting of its address.\<close>

definition server_register :: "(string \<Rightarrow> int) \<Rightarrow> int \<Rightarrow> rpc_table \<Rightarrow> rpc_table res" where
  "server_register id_of disable_ret tab =
     (let (i1, t1) = ftc_rpc_register id_of tab; (i2, t2) = ftc_open_rpc_register id_of t1
      in andThen (ftc_close_rpc_register id_of disable_ret t2) (\<lambda>(i3, t3).
         Inr (snd (ftc_seek_rpc_register id_of t3))))"

section \<open>Dispatch\<close>

text \<open>The identifier of the handle a client creates for a request.\<close>

fun request_id :: "client_ids \<Rightarrow> rpc_request \<Rightarrow> int" where
  "request_id ids (Open_Req i) = ftc_client_open_id ids"
| "request_id ids (Read_Req i) = ftc_client_rpc_id ids"
| "request_id ids (Close_Req i) = ftc_client_close_id ids"
| "request_id ids (Seek_Req i) = ftc_client_seek_id ids"

text \<open>The handler a request is written for.\<close>

fun handle_request ::
  "'w os \<Rightarrow> log_env \<Rightarrow> hg_call \<Rightarrow> rpc_request \<Rightarrow> 'w server \<Rightarrow> ('w server \<times> outcome) res" where
  "handle_request os le hg (Open_Req i) s = ftc_open_rpc_handler os le hg i s"
| "handle_request os le hg (Read_Req i) s = ftc_rpc_handler os le hg i s"
| "handle_request os le hg (Close_Req i) s = ftc_close_rpc_handler os le hg i s"
| "handle_request os le hg (Seek_Req i) s = ftc_seek_rpc_handler os hg i s"

fun request_kind :: "rpc_request \<Rightarrow> rpc_kind" where
  "request_kind (Open_Req i) = Open_Rpc"
| "request_kind (Read_Req i) = Base_Rpc"
| "request_kind (Close_Req i) = Close_Rpc"
| "request_kind (Seek_Req i) = Seek_Rpc"

text \<open>
  Mercury runs the handler registered for the identifier, which decodes the message as its own type.
  \<open>None\<close> is a message no handler takes: nothing is registered, and the sender gets an error, or the
  message is not of the handler's type.
\<close>

definition dispatch ::
  "'w os \<Rightarrow> log_env \<Rightarrow> hg_call \<Rightarrow> rpc_table \<Rightarrow> int \<Rightarrow> rpc_request \<Rightarrow> 'w server \<Rightarrow>
   ('w server \<times> outcome) res option" where
  "dispatch os le hg tab rpc_id req s =
     (case tab rpc_id of
        None \<Rightarrow> None
      | Some (k, responds) \<Rightarrow>
          if k = request_kind req then Some (handle_request os le hg req s) else None)"

text \<open>Which response the callback of a request decodes; a close has none.\<close>

fun answers :: "rpc_request \<Rightarrow> rpc_response \<Rightarrow> bool" where
  "answers (Open_Req i) (Open_Out v) = True"
| "answers (Read_Req i) (Read_Out v) = True"
| "answers (Seek_Req i) (Seek_Out v) = True"
| "answers req resp = False"

definition rpc_names :: "string set" where
  "rpc_names = {''ftc_base_rpc'', ''ftc_open_rpc'', ''ftc_close_rpc'', ''ftc_seek_rpc''}"

lemma register_table:
  assumes "inj_on id_of rpc_names"
  shows "server_register id_of 0 tab = Inr (tab(id_of ''ftc_base_rpc'' \<mapsto> (Base_Rpc, True),
      id_of ''ftc_open_rpc'' \<mapsto> (Open_Rpc, True), id_of ''ftc_close_rpc'' \<mapsto> (Close_Rpc, False),
      id_of ''ftc_seek_rpc'' \<mapsto> (Seek_Rpc, True)))"
    and "\<exists>tab'. ftc_client_comm_register_rpc id_of 0 tab =
      Inr (\<lparr>ftc_client_rpc_id = id_of ''ftc_base_rpc'', ftc_client_open_id = id_of ''ftc_open_rpc'',
        ftc_client_close_id = id_of ''ftc_close_rpc'', ftc_client_seek_id = id_of ''ftc_seek_rpc''\<rparr>, tab')"
  by (simp_all add: server_register_def ftc_client_comm_register_rpc_def ftc_rpc_register_def
      ftc_open_rpc_register_def ftc_close_rpc_register_def ftc_seek_rpc_register_def
      mercury_register_def Let_def)

lemma registered_kind:
  assumes "inj_on id_of rpc_names" and "server_register id_of d tab = Inr stab"
    and "ftc_client_comm_register_rpc id_of d' ctab = Inr (ids, ctab')"
  shows "stab (request_id ids req) = Some (request_kind req, request_kind req \<noteq> Close_Rpc)"
proof -
  have d: "d = 0" "d' = 0"
    using assms(2,3) by (auto simp: server_register_def ftc_client_comm_register_rpc_def
        ftc_close_rpc_register_def andThen_iffs Let_def split: prod.splits)
  have ne: "id_of a \<noteq> id_of b" if "a \<in> rpc_names" "b \<in> rpc_names" "a \<noteq> b" for a b
    using that assms(1) by (auto dest: inj_onD)
  have ids: "ids = \<lparr>ftc_client_rpc_id = id_of ''ftc_base_rpc'', ftc_client_open_id = id_of ''ftc_open_rpc'',
      ftc_client_close_id = id_of ''ftc_close_rpc'', ftc_client_seek_id = id_of ''ftc_seek_rpc''\<rparr>"
    using register_table(2) [OF assms(1), of ctab] assms(3) d by auto
  have stab: "stab = tab(id_of ''ftc_base_rpc'' \<mapsto> (Base_Rpc, True),
      id_of ''ftc_open_rpc'' \<mapsto> (Open_Rpc, True), id_of ''ftc_close_rpc'' \<mapsto> (Close_Rpc, False),
      id_of ''ftc_seek_rpc'' \<mapsto> (Seek_Rpc, True))"
    using register_table(1) [OF assms(1), of tab] assms(2) d by simp
  show ?thesis
    unfolding ids stab
    using ne [of "''ftc_base_rpc''" "''ftc_open_rpc''"] ne [of "''ftc_base_rpc''" "''ftc_close_rpc''"]
      ne [of "''ftc_base_rpc''" "''ftc_seek_rpc''"] ne [of "''ftc_open_rpc''" "''ftc_close_rpc''"]
      ne [of "''ftc_open_rpc''" "''ftc_seek_rpc''"] ne [of "''ftc_close_rpc''" "''ftc_seek_rpc''"]
    by (cases req) (auto simp: rpc_names_def)
qed

lemma start_transfer_silent:
  "start_transfer hg inp buf n bs s = Inr (s', out) \<Longrightarrow> out_resp out = None"
  by (auto simp: start_transfer_def andThen_iffs)

lemma read_handler_answer:
  "ftc_rpc_handler os le hg i s = Inr (s', out) \<Longrightarrow> out_resp out = Some r \<Longrightarrow> r = Read_Out (-1)"
  by (auto simp: ftc_rpc_handler_def andThen_iffs Let_def quiet_def answered_def case_prod_unfold
      split: if_splits option.splits dest: start_transfer_silent)

lemma close_handler_silent:
  "ftc_close_rpc_handler os le hg i s = Inr (s', out) \<Longrightarrow> out_resp out = None"
  by (auto simp: ftc_close_rpc_handler_def andThen_iffs Let_def quiet_def case_prod_unfold
      split: option.splits)

lemma handler_answers:
  assumes "handle_request os le hg req s = Inr (s', out)" and "out_resp out = Some r"
  shows "answers req r"
  using assms
  by (cases req) (auto dest: read_handler_answer close_handler_silent elim!: open_handler_effect
      simp: seek_handler_effect(2))

section \<open>The progress thread\<close>

text \<open>
  \<open>completions\<close> are the callbacks Mercury has ready, handlers of arriving requests among them;
  \<open>executed\<close> those that have run. \<^verbatim>\<open>HG_Trigger\<close> runs at most one; \<^verbatim>\<open>HG_Progress\<close> makes new ones ready.
\<close>

record 'c progress =
  completions :: "'c list"
  executed :: "'c list"
  shutdown_flag :: bool

definition ftc_shutdown_comm :: "'c progress \<Rightarrow> 'c progress" where
  "ftc_shutdown_comm s = s\<lparr>shutdown_flag := True\<rparr>"

text \<open>\<open>stops c\<close>: \<open>ftc_shutdown_comm\<close> is called while the callback \<open>c\<close> runs.\<close>

function trigger_loop :: "('c \<Rightarrow> bool) \<Rightarrow> 'c progress \<Rightarrow> 'c progress" where
  "trigger_loop stops s =
     (case completions s of
        [] \<Rightarrow> s
      | c # cs \<Rightarrow>
          (let s1 = s\<lparr>completions := cs, executed := executed s @ [c]\<rparr>;
               s2 = (if stops c then ftc_shutdown_comm s1 else s1)
           in if shutdown_flag s2 then s2 else trigger_loop stops s2))"
  by pat_completeness auto
termination
  by (relation "measure (\<lambda>(stops, s). length (completions s))") (auto simp: ftc_shutdown_comm_def)

declare trigger_loop.simps [simp del]

text \<open>The outer loop: \<open>arrivals\<close> is what each call of \<^verbatim>\<open>HG_Progress\<close> makes ready.\<close>

fun ftc_progress_fn :: "('c \<Rightarrow> bool) \<Rightarrow> 'c list list \<Rightarrow> 'c progress \<Rightarrow> 'c progress" where
  "ftc_progress_fn stops arrivals s =
     (if shutdown_flag s then s
      else
        (let s1 = trigger_loop stops s
         in if shutdown_flag s1 then s1
            else
              (case arrivals of
                 [] \<Rightarrow> s1
               | a # as \<Rightarrow> ftc_progress_fn stops as (s1\<lparr>completions := completions s1 @ a\<rparr>))))"

declare ftc_progress_fn.simps [simp del]

text \<open>The callbacks up to and including the first that stops the thread.\<close>

fun until_stop :: "('c \<Rightarrow> bool) \<Rightarrow> 'c list \<Rightarrow> 'c list" where
  "until_stop stops [] = []"
| "until_stop stops (c # cs) = c # (if stops c then [] else until_stop stops cs)"

lemma until_stop_append:
  "until_stop stops (xs @ ys) =
     (if \<exists>x \<in> set xs. stops x then until_stop stops xs else xs @ until_stop stops ys)"
  by (induction xs) auto

lemma until_stop_all: "\<not> (\<exists>x \<in> set xs. stops x) \<Longrightarrow> until_stop stops xs = xs"
  by (induction xs) auto

lemma trigger_loop_eq:
  "\<not> shutdown_flag s \<Longrightarrow>
   executed (trigger_loop stops s) = executed s @ until_stop stops (completions s) \<and>
   shutdown_flag (trigger_loop stops s) = (\<exists>c \<in> set (completions s). stops c) \<and>
   (\<not> shutdown_flag (trigger_loop stops s) \<longrightarrow> completions (trigger_loop stops s) = [])"
proof (induction stops s rule: trigger_loop.induct)
  case (1 stops s)
  show ?case
  proof (cases "completions s")
    case Nil
    with 1 show ?thesis by (simp add: trigger_loop.simps [of stops s])
  next
    case (Cons c cs)
    show ?thesis
    proof (cases "stops c")
      case True
      with Cons show ?thesis
        by (simp add: trigger_loop.simps [of stops s] ftc_shutdown_comm_def)
    next
      case False
      with "1.IH" [OF Cons refl refl] "1.prems" Cons show ?thesis
        by (simp add: trigger_loop.simps [of stops s])
    qed
  qed
qed

lemma progress_order:
  "\<not> shutdown_flag s \<Longrightarrow>
   executed (ftc_progress_fn stops arrivals s) =
     executed s @ until_stop stops (completions s @ concat arrivals) \<and>
   shutdown_flag (ftc_progress_fn stops arrivals s) =
     (\<exists>c \<in> set (completions s @ concat arrivals). stops c)"
proof (induction arrivals arbitrary: s)
  case Nil
  with trigger_loop_eq [OF Nil, of stops] show ?case
    by (auto simp: ftc_progress_fn.simps [of stops "[]"] Let_def)
next
  case (Cons a as)
  note eq = trigger_loop_eq [OF Cons.prems, of stops]
  show ?case
  proof (cases "\<exists>c \<in> set (completions s). stops c")
    case True
    with eq Cons.prems show ?thesis
      by (auto simp: ftc_progress_fn.simps [of stops "a # as"] Let_def until_stop_append)
  next
    case False
    let ?s1 = "trigger_loop stops s"
    let ?s2 = "?s1\<lparr>completions := completions ?s1 @ a\<rparr>"
    from False eq have s2: "\<not> shutdown_flag ?s2" "completions ?s2 = a" "executed ?s2 = executed s @ completions s"
      by (auto simp: until_stop_all)
    from False eq Cons.prems have "ftc_progress_fn stops (a # as) s = ftc_progress_fn stops as ?s2"
      by (auto simp: ftc_progress_fn.simps [of stops "a # as"] Let_def)
    with Cons.IH [OF s2(1)] s2 False show ?thesis by (auto simp: until_stop_append)
  qed
qed

end
