(* ===== verification/Dispatch_Properties.thy ===== *)
theory Dispatch_Properties
  imports Rpc_Dispatch
begin

text \<open>
  The types of requests and answers, and the order in which the progress thread runs callbacks.
\<close>

lemma open_handler_transfer:
  "ftc_open_rpc_handler os le hg i s = Inr (s', out) \<Longrightarrow> out_xfer out = None"
  by (auto simp: ftc_open_rpc_handler_def andThen_iffs Let_def quiet_def answered_def case_prod_unfold
      split: option.splits)

lemma close_handler_transfer:
  "ftc_close_rpc_handler os le hg i s = Inr (s', out) \<Longrightarrow> out_xfer out = None"
  by (auto simp: ftc_close_rpc_handler_def andThen_iffs Let_def quiet_def case_prod_unfold
      split: option.splits)

lemma seek_handler_transfer:
  "ftc_seek_rpc_handler os hg i s = Inr (s', out) \<Longrightarrow> out_xfer out = None"
  by (auto simp: ftc_seek_rpc_handler_def andThen_iffs answered_def case_prod_unfold Let_def)

lemma transfers_are_reads:
  "handle_request os le hg req s = Inr (s', out) \<Longrightarrow> out_xfer out = Some st \<Longrightarrow> \<exists>i. req = Read_Req i"
  by (cases req) (auto dest: open_handler_transfer close_handler_transfer seek_handler_transfer)

lemma bulk_answer:
  "out_resp (ftc_rpc_handler_bulk_cb i r st live) = Some x \<Longrightarrow> \<exists>v. x = Read_Out v"
  by (auto simp: ftc_rpc_handler_bulk_cb_def quiet_def Let_def split: if_splits)

text \<open>
  C12. Requests and answers are well typed. Let server and clients have registered their RPCs, in the
  different orders the code registers them in, with a Mercury that gives the four names different
  identifiers. Then every request a client sends runs the handler that decodes its type; whatever
  that handler answers, at once or at the end of the bulk transfer it starts, is of the type the
  client's callback decodes; a close is never answered, and is the one request registered
  without a response. A server that has posted its address and not yet registered takes none.
\<close>

theorem answers_match_requests:
  assumes "inj_on id_of rpc_names" and "server_register id_of d tab = Inr stab"
    and "ftc_client_comm_register_rpc id_of d' ctab = Inr (ids, ctab')"
  shows "dispatch os le hg stab (request_id ids req) req s = Some (handle_request os le hg req s) \<and>
    (handle_request os le hg req s = Inr (s', out) \<longrightarrow> out_resp out = Some r \<longrightarrow>
      answers req r \<and> map_option snd (stab (request_id ids req)) = Some True) \<and>
    (handle_request os le hg req s = Inr (s', out) \<longrightarrow> out_xfer out = Some st \<longrightarrow>
      out_resp (ftc_rpc_handler_bulk_cb i b st (out_live out)) = Some r \<longrightarrow>
      answers req r \<and> map_option snd (stab (request_id ids req)) = Some True) \<and>
    dispatch os le hg Map.empty (request_id ids req) req s = None"
proof -
  note reg = registered_kind [OF assms]
  have ans: "answers req x \<Longrightarrow> request_kind req \<noteq> Close_Rpc" for x by (cases req; cases x) auto
  show ?thesis
  proof (intro conjI impI)
    show "dispatch os le hg stab (request_id ids req) req s = Some (handle_request os le hg req s)"
      by (simp add: dispatch_def reg)
    show "dispatch os le hg Map.empty (request_id ids req) req s = None"
      by (simp add: dispatch_def)
  next
    assume "handle_request os le hg req s = Inr (s', out)" "out_resp out = Some r"
    then show "answers req r" by (rule handler_answers)
    with ans show "map_option snd (stab (request_id ids req)) = Some True" by (simp add: reg)
  next
    assume "handle_request os le hg req s = Inr (s', out)" "out_xfer out = Some st"
      and b: "out_resp (ftc_rpc_handler_bulk_cb i b st (out_live out)) = Some r"
    then obtain inp where "req = Read_Req inp" using transfers_are_reads by blast
    with bulk_answer [OF b] show "answers req r" by auto
    with ans show "map_option snd (stab (request_id ids req)) = Some True" by (simp add: reg)
  qed
qed

text \<open>Identifiers that are the fifth letter of the name.\<close>

definition demo_id :: "string \<Rightarrow> int" where
  "demo_id name = of_char (name ! 4)"

lemma demo_id_inj: "inj_on demo_id rpc_names"
  by (simp add: inj_on_def rpc_names_def demo_id_def)

theorem answers_match_requests_witness:
  "\<exists>stab ids ctab s' out.
     server_register demo_id 0 Map.empty = Inr stab \<and>
     ftc_client_comm_register_rpc demo_id 0 Map.empty = Inr (ids, ctab) \<and>
     dispatch fsys_os demo_le demo_call stab (request_id ids (Open_Req demo_open_in))
       (Open_Req demo_open_in) demo_server = Some (Inr (s', out)) \<and>
     out_resp out = Some (Open_Out 0) \<and> answers (Open_Req demo_open_in) (Open_Out 0)"
proof -
  obtain stab where s: "server_register demo_id 0 Map.empty = Inr stab"
    using register_table(1) [OF demo_id_inj, of Map.empty] by blast
  obtain ids ctab where c: "ftc_client_comm_register_rpc demo_id 0 Map.empty = Inr (ids, ctab)"
    using register_table(2) [OF demo_id_inj, of Map.empty] by blast
  obtain s' out where o: "handle_request fsys_os demo_le demo_call (Open_Req demo_open_in) demo_server =
      Inr (s', out)" "out_resp out = Some (Open_Out 0)"
    using demo_open_eq by (auto simp: answered_def)
  from answers_match_requests [OF demo_id_inj s c, of fsys_os demo_le demo_call "Open_Req demo_open_in"
      demo_server s' out] o s c show ?thesis
    by (intro exI [of _ stab] exI [of _ ids] exI [of _ ctab] exI [of _ s'] exI [of _ out]) simp
qed



end
