(* ===== verification/Cluster.thy ===== *)
theory Cluster
  imports Client_Threads Server_Threads Rpc_Dispatch
begin

text \<open>
  The whole system: any number of clients and one server per host. A server handles requests that
  some client has sent to its host, at any time after they were sent, in any order and any number
  of times, so that the network may lose, delay, reorder and duplicate them; its data mover acts in
  between. The lemmas show what holds of all parts at once, from what holds of each: a file belongs
  to one host, the one its path is hashed to.
\<close>

section \<open>The system\<close>

record 'w cluster =
  members :: "nat \<Rightarrow> client"
  hosts :: "int \<Rightarrow> 'w server"

text \<open>Each client has its environment, each server its operating system, log and storage.\<close>

record 'w deployment =
  envs :: "nat \<Rightarrow> client_env"
  systems :: "int \<Rightarrow> 'w os"
  logs :: "int \<Rightarrow> log_env"
  storage :: "int \<Rightarrow> path"

inductive cluster_step :: "'w deployment \<Rightarrow> 'w cluster \<Rightarrow> 'w cluster \<Rightarrow> bool" for D where
  member_acts: "client_step (envs D k) opn (members X k) c' \<Longrightarrow>
    cluster_step D X (X\<lparr>members := (members X)(k := c')\<rparr>)"
| host_handles: "(h, req) \<in> set (sent (members X k)) \<Longrightarrow>
    handle_request (systems D h) (logs D h) hg req (hosts X h) = Inr (s', out) \<Longrightarrow>
    cluster_step D X (X\<lparr>hosts := (hosts X)(h := s')\<rparr>)"
| host_copies: "mover_step (systems D h) (storage D h) (hosts X h) s' \<Longrightarrow>
    cluster_step D X (X\<lparr>hosts := (hosts X)(h := s')\<rparr>)"

inductive cluster_run :: "'w deployment \<Rightarrow> 'w cluster \<Rightarrow> 'w cluster \<Rightarrow> bool" for D where
  cluster_refl: "cluster_run D X X"
| cluster_snoc: "cluster_run D X Y \<Longrightarrow> cluster_step D Y Z \<Longrightarrow> cluster_run D X Z"

text \<open>
  All clients are started with the same number of servers, and \<^verbatim>\<open>std::hash\<close> is the same function
  in all of them, since they run the same library.
\<close>

definition cluster_start :: "'w deployment \<Rightarrow> (string \<Rightarrow> int) \<Rightarrow> int \<Rightarrow> 'w cluster \<Rightarrow> bool" where
  "cluster_start D hash n X \<longleftrightarrow>
     (\<forall>k. ce_hash (envs D k) = hash \<and> g_ftc_server_count (members X k) = n \<and>
        counters_ok (members X k) \<and> sent (members X k) = []) \<and>
     (\<forall>h. server_start (hosts X h))"

section \<open>What a cluster does to its parts\<close>

lemma handled_request_step:
  "handle_request os le hg req s = Inr (s', out) \<Longrightarrow> server_step os le t s s'"
  by (cases req) (auto intro: server_step.intros)

lemma mover_step_step: "mover_step os t s s' \<Longrightarrow> server_step os le t s s'"
  by (cases rule: mover_step.cases) (auto intro: server_step.intros)

text \<open>Every server of a cluster runs as \<open>Server_System\<close> has it, every client as \<open>Client_Cache\<close>.\<close>

lemma cluster_host_run:
  assumes "cluster_run D X Y"
  shows "server_run (systems D h) (logs D h) (storage D h) (hosts X h) (hosts Y h)"
  using assms
proof (induction rule: cluster_run.induct)
  case (cluster_snoc X Y Z)
  from cluster_snoc.hyps(2) cluster_snoc.IH show ?case
    by (cases rule: cluster_step.cases)
      (auto intro: run_step handled_request_step mover_step_step)
qed (rule run_refl)

lemma cluster_member_run:
  assumes "cluster_run D X Y"
  shows "\<exists>ops. client_run (envs D k) ops (members X k) (members Y k)"
  using assms
proof (induction rule: cluster_run.induct)
  case (cluster_snoc X Y Z)
  from cluster_snoc.hyps(2) cluster_snoc.IH show ?case
    by (cases rule: cluster_step.cases) (auto intro: run_snoc)
qed (auto intro: run_nil)

section \<open>Placement\<close>

text \<open>The host a path is hashed to.\<close>

definition home :: "(string \<Rightarrow> int) \<Rightarrow> int \<Rightarrow> path \<Rightarrow> int" where
  "home hash n p = uwrap64 (hash p) mod n"

lemma select_home:
  assumes "0 < n" and "n \<le> 2147483648"
  shows "select_host hash n p = Inr (home hash n p)"
proof -
  have "0 \<le> home hash n p" "home hash n p < n" using assms(1) by (simp_all add: home_def)
  then have "wrap32 (home hash n p) = home hash n p" using assms(2) by simp
  with assms(1) show ?thesis by (simp add: select_host_def home_def)
qed

definition opens_at_home :: "(string \<Rightarrow> int) \<Rightarrow> int \<Rightarrow> (int \<times> rpc_request) list \<Rightarrow> bool" where
  "opens_at_home hash n rs \<longleftrightarrow> (\<forall>h i. (h, Open_Req i) \<in> set rs \<longrightarrow> h = home hash n (open_path i))"

lemma opens_at_home_append [simp]:
  "opens_at_home hash n (xs @ ys) \<longleftrightarrow> opens_at_home hash n xs \<and> opens_at_home hash n ys"
  by (auto simp: opens_at_home_def)

text \<open>A client asks only the home of a path to open it.\<close>

lemma counters_home:
  assumes "counters_ok c" and "select_host f (g_ftc_server_count c) p = Inr h"
  shows "h = home f (g_ftc_server_count c) p" "uwrap32 h = h"
proof -
  let ?n = "g_ftc_server_count c"
  have n: "0 < ?n" "?n \<le> 2147483647" using assms(1) by (simp_all add: counters_ok_def)
  with select_home [of ?n f p] assms(2) show "h = home f ?n p" by simp
  moreover have "0 \<le> home f ?n p" "home f ?n p < ?n" using n(1) by (simp_all add: home_def)
  ultimately show "uwrap32 h = h" using n(2) by simp
qed

lemma track_at_home:
  assumes "counters_ok c"
    and "ftc_track_file canonical cwd env hs cb es p flags fd c = Inr (b, c')"
  shows "\<exists>new. sent c' = sent c @ new \<and> opens_at_home (ce_hash env) (g_ftc_server_count c) new"
proof -
  from assms(2) obtain next' c1 where chk: "track_check canonical cwd env p flags fd c = Inr (next', c1)"
    by (auto simp: track_file_parts andThen_iffs)
  show ?thesis
  proof (cases "\<exists>cp. start_mercury env (c\<lparr>fd_map := (fd_map c)(fd \<mapsto> cp)\<rparr>) = Inr c1")
    case False
    with chk have "next' = None" "c1 = c"
      by (auto simp: track_check_def andThen_iffs split: if_splits option.splits)
    with assms(2) chk show ?thesis by (simp add: track_file_parts opens_at_home_def)
  next
    case True
    then obtain cp0 where "start_mercury env (c\<lparr>fd_map := (fd_map c)(fd \<mapsto> cp0)\<rparr>) = Inr c1" by blast
    moreover have "counters_ok (c\<lparr>fd_map := (fd_map c)(fd \<mapsto> cp0)\<rparr>)"
      using assms(1) by (simp add: counters_ok_def)
    ultimately have c1: "sent c1 = sent c" "g_ftc_server_count c1 = g_ftc_server_count c"
      "timeout_counters c1 = timeout_counters c"
      using start_mercury_effect by fastforce+
    have ok1: "counters_ok c1" using counters_ok_same [OF assms(1) c1(3,2)] .
    show ?thesis
    proof (cases next')
      case None
      with assms(2) chk c1 show ?thesis by (simp add: track_file_parts opens_at_home_def)
    next
      case (Some x)
      obtain cp host where x: "x = (cp, host)" by (cases x)
      from chk Some x obtain h where "select_host (ce_hash env) (g_ftc_server_count c1) cp = Inr h"
        "host = uwrap32 h"
        by (auto simp: track_check_def andThen_iffs split: if_splits option.splits)
      with counters_home [OF ok1] c1 have host: "host = home (ce_hash env) (g_ftc_server_count c) cp" by simp
      from assms(2) chk Some x obtain c2 where
        c2: "ftc_client_comm_gen_open_rpc env hs host cp fd c1 = Inr c2"
        "ftc_client_block host (\<lambda>i r v s. ftc_open_cb env cb host cp fd i v s) es c2 = Inr c'"
        by (auto simp: track_file_parts andThen_iffs)
      have "sent c' = sent c2"
        using client_block_contact [OF c2(2)] open_cb_effect by blast
      with gen_open_sent [OF c2(1)] c1 host show ?thesis by (auto simp: opens_at_home_def)
    qed
  qed
qed

text \<open>The other operations open nothing.\<close>

lemma read_opens_nothing:
  assumes "remote_read_at env hs cb es fd nul buf count off c = Inr (r, b, c')"
  shows "\<exists>new. sent c' = sent c @ new \<and> opens_at_home f n new"
proof (cases "c' = c")
  case False
  with assms obtain h c1 where
    "ftc_client_comm_gen_read_rpc env hs h fd nul (wrap64 count) off c = Inr c1"
    "ftc_read_block h (ftc_read_cb env cb h fd) es buf (-1) c1 = Inr (r, b, c')"
    by (auto simp: remote_read_at_def andThen_iffs split: if_splits)
  with gen_read_sent read_block_contact read_cb_effect show ?thesis
    by (fastforce simp: opens_at_home_def)
qed (simp add: opens_at_home_def)

lemma close_opens_nothing:
  assumes "ftc_remove_fd env hs fd c = Inr (b, c')"
  shows "\<exists>new. sent c' = sent c @ new \<and> opens_at_home f n new"
  using assms
  by (auto simp: ftc_remove_fd_def ftc_remote_close_def andThen_iffs opens_at_home_def
      split: if_splits dest!: gen_close_sent)

lemma seek_opens_nothing:
  assumes "ftc_remote_lseek env hs es fd off wh c = Inr (r, c')"
  shows "\<exists>new. sent c' = sent c @ new \<and> opens_at_home f n new"
  using assms
  by (auto simp: ftc_remote_lseek_def andThen_iffs opens_at_home_def
      split: if_splits dest!: gen_seek_sent)

lemma step_at_home:
  assumes "client_step env opn c c'" and "counters_ok c"
  shows "\<exists>new. sent c' = sent c @ new \<and> opens_at_home (ce_hash env) (g_ftc_server_count c) new"
  using assms
  by (induction rule: client_step.induct)
    (auto dest: track_at_home read_opens_nothing close_opens_nothing seek_opens_nothing)

text \<open>A server knows only paths that belong to its host; the empty path stands for no file.\<close>

definition at_home :: "(string \<Rightarrow> int) \<Rightarrow> int \<Rightarrow> int \<Rightarrow> path \<Rightarrow> bool" where
  "at_home hash n h p \<longleftrightarrow> p = [] \<or> h = home hash n p"

definition host_ok :: "(string \<Rightarrow> int) \<Rightarrow> int \<Rightarrow> int \<Rightarrow> 'w server \<Rightarrow> bool" where
  "host_ok hash n h s \<longleftrightarrow>
     (\<forall>p \<in> ran (fd_to_path s) \<union> dom (path_cache_map s) \<union> set (data_queue s) \<union> set (local_list s).
        at_home hash n h p)"

lemma host_ok_start: "server_start s \<Longrightarrow> host_ok hash n h s"
  by (simp add: host_ok_def server_start_def)

lemma ran_upd_sub: "ran (m(k \<mapsto> v)) \<subseteq> insert v (ran m)" "ran (m(k := None)) \<subseteq> ran m"
  by (auto simp: ran_def)

lemma request_host_ok:
  assumes "handle_request os le hg req s = Inr (s', out)" and "host_ok hash n h s"
    and "\<And>i. req = Open_Req i \<Longrightarrow> h = home hash n (open_path i)"
  shows "host_ok hash n h s'"
proof (cases req)
  case (Open_Req i)
  with assms(1) have "ftc_open_rpc_handler os le hg i s = Inr (s', out)" by simp
  then show ?thesis
  proof (cases rule: open_handler_effect)
    case (opened fd)
    have "at_home hash n h (open_path i)" using assms(3) [OF Open_Req] by (simp add: at_home_def)
    with opened(2-4) assms(2) ran_upd_sub(1) [of "fd_to_path s" fd "open_path i"] show ?thesis
      by (auto simp: host_ok_def frame_def)
  qed (use assms(2) in simp)
next
  case (Close_Req i)
  with assms(1) have "ftc_close_rpc_handler os le hg i s = Inr (s', out)" by simp
  then show ?thesis
  proof (cases rule: close_handler_effect)
    case no_info
    with assms(2) ran_upd_sub(2) [of "fd_to_path s" "close_fd i"] show ?thesis
      by (auto simp: host_ok_def)
  next
    case closed
    have "at_home hash n h (closed_path s (close_fd i))"
      using assms(2) by (auto simp: closed_path_def subscript_def at_home_def host_ok_def ran_def
          split: option.splits)
    with closed(2-4) assms(2) ran_upd_sub(2) [of "fd_to_path s" "close_fd i"] show ?thesis
      by (auto simp: host_ok_def frame_def split: if_splits)
  qed
next
  case (Read_Req i)
  with assms(1,2) read_handler_effect [of os le hg i s s' out] show ?thesis
    by (simp add: host_ok_def frame_def)
next
  case (Seek_Req i)
  with assms(1,2) seek_handler_effect(1) [of os hg i s s' out] show ?thesis
    by (simp add: host_ok_def)
qed

lemma mover_host_ok:
  assumes "mover_step os t s s'" and "host_ok hash n h s"
  shows "host_ok hash n h s'"
  using assms
proof (cases rule: mover_step.cases)
  case m_copy
  then obtain p ps where l: "local_list s = p # ps" by (auto simp: neq_Nil_conv)
  then show ?thesis
    by (cases rule: mover_copy_cases [where os = os and t = t])
      (use l m_copy assms(2) in \<open>auto simp: host_ok_def\<close>)
qed (auto simp: host_ok_def mover_drain_eq mover_publish_def split: list.splits)

section \<open>The invariant of the cluster\<close>

definition cluster_ok :: "'w deployment \<Rightarrow> (string \<Rightarrow> int) \<Rightarrow> int \<Rightarrow> 'w cluster \<Rightarrow> bool" where
  "cluster_ok D hash n X \<longleftrightarrow>
     (\<forall>k. ce_hash (envs D k) = hash \<and> g_ftc_server_count (members X k) = n \<and>
        counters_ok (members X k) \<and> opens_at_home hash n (sent (members X k))) \<and>
     (\<forall>h. host_ok hash n h (hosts X h))"

lemma cluster_ok_start: "cluster_start D hash n X \<Longrightarrow> cluster_ok D hash n X"
  by (simp add: cluster_start_def cluster_ok_def host_ok_start opens_at_home_def)

lemma cluster_step_ok:
  assumes "cluster_step D X Y" and ok: "cluster_ok D hash n X"
  shows "cluster_ok D hash n Y"
  using assms(1)
proof (cases rule: cluster_step.cases)
  case (member_acts k opn c')
  have c: "counters_ok (members X k)" "g_ftc_server_count (members X k) = n"
    "ce_hash (envs D k) = hash" "opens_at_home hash n (sent (members X k))"
    using ok by (simp_all add: cluster_ok_def)
  from step_counters [OF member_acts(2) c(1)] step_at_home [OF member_acts(2) c(1)] c
  have "counters_ok c' \<and> g_ftc_server_count c' = n \<and> opens_at_home hash n (sent c')" by auto
  with ok member_acts(1) show ?thesis by (simp add: cluster_ok_def)
next
  case (host_handles h req k hg s' out)
  have "h = home hash n (open_path i)" if "req = Open_Req i" for i
    using ok host_handles(2) that by (auto simp: cluster_ok_def opens_at_home_def)
  from request_host_ok [OF host_handles(3) _ this] ok have "host_ok hash n h s'"
    by (simp add: cluster_ok_def)
  with ok host_handles(1) show ?thesis by (simp add: cluster_ok_def)
next
  case (host_copies h s')
  from mover_host_ok [OF host_copies(2)] ok have "host_ok hash n h s'"
    by (simp add: cluster_ok_def)
  with ok host_copies(1) show ?thesis by (simp add: cluster_ok_def)
qed

lemma cluster_run_ok:
  "cluster_run D X Y \<Longrightarrow> cluster_ok D hash n X \<Longrightarrow> cluster_ok D hash n Y"
  by (induction rule: cluster_run.induct) (auto dest: cluster_step_ok)

lemma cluster_host_only:
  assumes "cluster_ok D hash n X" and "p \<noteq> []"
    and "p \<in> ran (fd_to_path (hosts X h)) \<union> dom (path_cache_map (hosts X h)) \<union>
      set (data_queue (hosts X h)) \<union> set (local_list (hosts X h))"
  shows "h = home hash n p"
  using assms by (auto simp: cluster_ok_def host_ok_def at_home_def)

end
