(* ===== verification/Ownership.thy ===== *)
theory Ownership
  imports Cluster Client_Runs
begin

text \<open>
  Who owns which descriptor of which server. Clients open, read, seek and close files through the
  library while servers handle requests, copy files and crash; reads and closes may be lost or late.
  A request is handled at most once, as Mercury's are. The invariant pairs every tracked descriptor
  of a client, as long as its host is up and has not been given up, with a descriptor that the host
  opened for the same path and that no other client descriptor uses.
\<close>

section \<open>The network\<close>

text \<open>
  \<open>closing\<close> holds the requests to close that are on their way, \<open>down\<close> the hosts that have crashed.
  The other requests need no place of their own, since the client waits for their answers.
\<close>

record 'w network = "'w cluster" +
  closing :: "(int \<times> close_in) list"
  down :: "int set"

definition closes_of :: "(int \<times> rpc_request) list \<Rightarrow> (int \<times> close_in) list" where
  "closes_of rs = [(h, i). (h, Close_Req i) \<leftarrow> rs]"

text \<open>
  Descriptors are opened and closed with the interposed calls, so that a file is offered for
  tracking under a descriptor the library does not know yet. An \<open>open\<close> that reaches its host is
  answered, with a descriptor or with -1 if the host could not open the file, in time or as the
  deadline passes; one to a host that is down times out. What comes of a read, its events show: it may be answered, lost or late.
\<close>

inductive net_step :: "'w deployment \<Rightarrow> 'w network \<Rightarrow> 'w network \<Rightarrow> bool" for D where
  n_track: "fd_map (members X k) fd = None \<Longrightarrow>
    ftc_track_file canonical cwd (envs D k) hs cb evs p flags fd (members X k) = Inr (b, c') \<Longrightarrow>
    sent c' = sent (members X k) \<Longrightarrow>
    net_step D X (X\<lparr>members := (members X)(k := c')\<rparr>)"
| n_open: "fd_map (members X k) fd = None \<Longrightarrow> 0 \<le> fd \<Longrightarrow> fd < 2147483648 \<Longrightarrow>
    ftc_track_file canonical cwd (envs D k) hs cb evs p flags fd (members X k) = Inr (b, c') \<Longrightarrow>
    sent c' = sent (members X k) @ [(h, Open_Req oin)] \<Longrightarrow> h \<notin> down X \<Longrightarrow>
    ftc_open_rpc_handler (systems D h) (logs D h) hg oin (hosts X h) = Inr (s', out) \<Longrightarrow>
    out_resp out = Some (Open_Out rfd) \<Longrightarrow> rfd < 2147483648 \<Longrightarrow>
    wait_ends evs \<in> {Answered 0 0 rfd, Tied 0 0 rfd} \<Longrightarrow>
    net_step D X (X\<lparr>members := (members X)(k := c'), hosts := (hosts X)(h := s')\<rparr>)"
| n_open_down: "fd_map (members X k) fd = None \<Longrightarrow>
    ftc_track_file canonical cwd (envs D k) hs cb evs p flags fd (members X k) = Inr (b, c') \<Longrightarrow>
    sent c' = sent (members X k) @ [(h, Open_Req oin)] \<Longrightarrow> h \<in> down X \<Longrightarrow>
    wait_ends evs = Timed_Out \<Longrightarrow>
    net_step D X (X\<lparr>members := (members X)(k := c')\<rparr>)"
| n_read: "remote_read_at (envs D k) hs cb evs fd nul buf count off (members X k) = Inr (r, b, c') \<Longrightarrow>
    net_step D X (X\<lparr>members := (members X)(k := c')\<rparr>)"
| n_seek: "ftc_remote_lseek (envs D k) hs evs fd off wh (members X k) = Inr (r, c') \<Longrightarrow>
    net_step D X (X\<lparr>members := (members X)(k := c')\<rparr>)"
| n_close: "ftc_remove_fd (envs D k) hs fd (members X k) = Inr (b, c') \<Longrightarrow>
    sent c' = sent (members X k) @ new \<Longrightarrow>
    net_step D X (X\<lparr>members := (members X)(k := c'), closing := closing X @ closes_of new\<rparr>)"
| n_host_reads: "h \<notin> down X \<Longrightarrow>
    ftc_rpc_handler (systems D h) (logs D h) hg rin (hosts X h) = Inr (s', out) \<Longrightarrow>
    net_step D X (X\<lparr>hosts := (hosts X)(h := s')\<rparr>)"
| n_host_seeks: "h \<notin> down X \<Longrightarrow>
    ftc_seek_rpc_handler (systems D h) hg sin (hosts X h) = Inr (s', out) \<Longrightarrow>
    net_step D X (X\<lparr>hosts := (hosts X)(h := s')\<rparr>)"
| n_host_closes: "(h, cin) \<in> set (closing X) \<Longrightarrow> h \<notin> down X \<Longrightarrow>
    ftc_close_rpc_handler (systems D h) (logs D h) hg cin (hosts X h) = Inr (s', out) \<Longrightarrow>
    net_step D X (X\<lparr>hosts := (hosts X)(h := s'), closing := remove1 (h, cin) (closing X)\<rparr>)"
| n_lost: "net_step D X (X\<lparr>closing := remove1 x (closing X)\<rparr>)"
| n_host_copies: "h \<notin> down X \<Longrightarrow> mover_step (systems D h) (storage D h) (hosts X h) s' \<Longrightarrow>
    net_step D X (X\<lparr>hosts := (hosts X)(h := s')\<rparr>)"
| n_crash: "net_step D X (X\<lparr>down := insert h (down X)\<rparr>)"

inductive net_run :: "'w deployment \<Rightarrow> 'w network \<Rightarrow> 'w network \<Rightarrow> bool" for D where
  net_refl: "net_run D X X"
| net_snoc: "net_run D X Y \<Longrightarrow> net_step D Y Z \<Longrightarrow> net_run D X Z"

definition net_start :: "'w deployment \<Rightarrow> (string \<Rightarrow> int) \<Rightarrow> int \<Rightarrow> 'w network \<Rightarrow> bool" where
  "net_start D hash n X \<longleftrightarrow>
     (\<forall>k. ce_hash (envs D k) = hash \<and> g_ftc_server_count (members X k) = n \<and>
        counters_ok (members X k) \<and> fd_map (members X k) = Map.empty) \<and>
     (\<forall>h. server_start (hosts X h)) \<and> closing X = []"

section \<open>What the client's operations change\<close>

text \<open>\<open>grows c c'\<close>: the same files are tracked, no redirection is lost, no counter falls.\<close>

definition grows :: "client \<Rightarrow> client \<Rightarrow> bool" where
  "grows c c' \<longleftrightarrow> fd_map c' = fd_map c \<and> g_ftc_server_count c' = g_ftc_server_count c \<and>
     (\<forall>h. timeout_counters c ! nat h \<le> timeout_counters c' ! nat h) \<and>
     (\<forall>g r. fd_redir_map c g = Some r \<longrightarrow> fd_redir_map c' g = Some r)"

lemma grows_refl [simp]: "grows c c"
  by (simp add: grows_def)

lemma subscript_keeps: "m g = Some r \<Longrightarrow> snd (subscript d m k) g = Some r"
  by (auto simp: subscript_def split: option.splits)

lemma bump_ge: "xs ! i \<le> xs[j := xs ! j + (1 :: int)] ! i"
  by (cases "i = j"; cases "j < length xs") (simp_all add: nth_list_update list_update_beyond)

lemma rpc_frame_maps: "rpc_frame c c' \<Longrightarrow> fd_map c' = fd_map c \<and> g_ftc_server_count c' = g_ftc_server_count c"
  by (simp add: rpc_frame_def)

lemma remote_read_grows:
  assumes "remote_read_at env hs cb es fd nul buf count off c = Inr (r, b, c')"
  shows "grows c c'"
proof (cases "c' = c")
  case False
  with assms obtain h c1 where
    g: "ftc_client_comm_gen_read_rpc env hs h fd nul (wrap64 count) off c = Inr c1"
    "ftc_read_block h (ftc_read_cb env cb h fd) es buf (-1) c1 = Inr (r, b, c')"
    by (auto simp: remote_read_at_def andThen_iffs split: if_splits)
  have "rpc_frame c1 c'" "fd_redir_map c' = fd_redir_map c1"
    "timeout_counters c' = timeout_counters c1 \<or>
     timeout_counters c' = (timeout_counters c1)[nat h := timeout_counters c1 ! nat h + 1]"
    using g(2) by (auto simp: read_block_eq andThen_iffs quiet_step_def split: wait_end.splits
        dest!: read_cb_effect count_timeout_effect intro: rpc_frame_trans)
  moreover note gen_read_sent [OF g(1)]
  ultimately have "fd_map c' = fd_map c" "g_ftc_server_count c' = g_ftc_server_count c"
    "fd_redir_map c' = snd (subscript 0 (fd_redir_map c) fd)"
    "timeout_counters c' = timeout_counters c \<or>
     timeout_counters c' = (timeout_counters c)[nat h := timeout_counters c ! nat h + 1]"
    using rpc_frame_maps [of c1 c'] rpc_frame_maps [of c c1] by simp_all
  then show ?thesis by (auto simp: grows_def bump_ge subscript_keeps)
qed simp

lemma remote_lseek_grows:
  assumes "ftc_remote_lseek env hs es fd off wh c = Inr (r, c')"
  shows "grows c c'"
proof (cases "c' = c")
  case False
  with assms obtain h where "ftc_client_comm_gen_seek_rpc env hs h fd off wh c = Inr c'"
    by (auto simp: ftc_remote_lseek_def andThen_iffs split: if_splits)
  from gen_seek_sent [OF this] rpc_frame_maps [of c c'] show ?thesis
    by (simp add: grows_def subscript_keeps)
qed simp


text \<open>What waiting for host \<open>h\<close> did to the counters: a deadline that passed was counted.\<close>

definition charged :: "rpc_event list \<Rightarrow> int \<Rightarrow> client \<Rightarrow> client \<Rightarrow> bool" where
  "charged evs h c c' \<longleftrightarrow>
     timeout_counters c' = (timeout_counters c)[nat h := timeout_counters c ! nat h + 1] \<or>
     timeout_counters c' = timeout_counters c \<and> wait_ends evs \<noteq> Timed_Out"

text \<open>The three outcomes of offering a file for tracking.\<close>

lemma track_outcome:
  assumes ok: "counters_ok c"
    and run: "ftc_track_file canonical cwd env hs cb evs p flags fd c = Inr (b, c')"
  obtains (untracked) "c' = c"
  | (skipped) cp where "fd_map c' = (fd_map c)(fd \<mapsto> cp)" "fd_redir_map c' = fd_redir_map c" "sent c' = sent c"
      "timeout_counters c' = timeout_counters c" "g_ftc_server_count c' = g_ftc_server_count c"
      "TIMEOUT_LIMIT \<le> timeout_counters c ! nat (home (ce_hash env) (g_ftc_server_count c) cp)"
  | (asked) cp oin where "fd_map c' = (fd_map c)(fd \<mapsto> cp)"
      "sent c' = sent c @ [(home (ce_hash env) (g_ftc_server_count c) cp, Open_Req oin)]" "open_path oin = cp"
      "g_ftc_server_count c' = g_ftc_server_count c"
      "\<forall>h. timeout_counters c ! nat h \<le> timeout_counters c' ! nat h"
      "wait_ends evs = Timed_Out \<and> fd_redir_map c' = fd_redir_map c \<or>
       (\<exists>i r. wait_ends evs \<in> {Answered 0 i r, Tied 0 i r} \<and> fd_redir_map c' = (fd_redir_map c)(wrap32 fd \<mapsto> r))"
      "charged evs (home (ce_hash env) (g_ftc_server_count c) cp) c c'"
proof -
  let ?n = "g_ftc_server_count c"
  from run obtain next' c1 where chk: "track_check canonical cwd env p flags fd c = Inr (next', c1)"
    by (auto simp: track_file_parts andThen_iffs)
  show thesis
  proof (cases "c1 = c \<and> next' = None")
    case True
    with run chk have "c' = c" by (simp add: track_file_parts)
    then show thesis by (rule untracked)
  next
    case False
    with chk obtain cp h skip where t: "start_mercury env (c\<lparr>fd_map := (fd_map c)(fd \<mapsto> cp)\<rparr>) = Inr c1"
      "select_host (ce_hash env) (g_ftc_server_count c1) cp = Inr h" "limit_reached c1 h = Inr skip"
      "next' = (if skip then None else Some (cp, uwrap32 h))"
      by (auto simp: track_check_def andThen_iffs split: if_splits option.splits)
    have ok0: "counters_ok (c\<lparr>fd_map := (fd_map c)(fd \<mapsto> cp)\<rparr>)" using ok by (simp add: counters_ok_def)
    note c1 = start_mercury_effect [OF ok0 t(1), simplified]
    have ok1: "counters_ok c1" using c1 counters_ok_same [OF ok, of c1] by simp
    have h: "h = home (ce_hash env) ?n cp" "uwrap32 h = h" using counters_home [OF ok1 t(2)] c1 by simp_all
    show thesis
    proof (cases skip)
      case True
      with run chk t(4) have "c' = c1" by (simp add: track_file_parts)
      moreover from t(3) True have "TIMEOUT_LIMIT \<le> timeout_counters c1 ! nat h"
        by (auto simp: limit_reached_def split: if_splits)
      ultimately show thesis using skipped [of cp] c1 h(1) by simp
    next
      case False
      with run chk t(4) h(2) obtain c2 where
        c2: "ftc_client_comm_gen_open_rpc env hs h cp fd c1 = Inr c2"
        "ftc_client_block h (\<lambda>i r v s. ftc_open_cb env cb h cp fd i v s) evs c2 = Inr c'"
        by (auto simp: track_file_parts andThen_iffs)
      note g = gen_open_sent [OF c2(1)]
      have w: "rpc_frame c2 c'" "sent c' = sent c2" "charged evs h c2 c'"
        "\<forall>g. timeout_counters c2 ! nat g \<le> timeout_counters c' ! nat g"
        "wait_ends evs = Timed_Out \<and> fd_redir_map c' = fd_redir_map c2 \<or>
         (\<exists>i r. wait_ends evs \<in> {Answered 0 i r, Tied 0 i r} \<and> fd_redir_map c' = (fd_redir_map c2)(wrap32 fd \<mapsto> r))"
        using c2(2)
        by (auto simp: client_block_eq andThen_iffs quiet_step_def bump_ge charged_def split: wait_end.splits
            dest!: open_cb_effect count_timeout_effect intro: rpc_frame_trans)
      show thesis
      proof (rule asked [of cp])
        show "fd_map c' = (fd_map c)(fd \<mapsto> cp)" "g_ftc_server_count c' = ?n"
          using g c1 rpc_frame_maps [OF w(1)] rpc_frame_maps [of c1 c2] by simp_all
        show "sent c' = sent c @ [(home (ce_hash env) ?n cp, Open_Req \<lparr>open_path = cp,
            open_client_rank = wrap32 (client_rank c1), open_localfd = wrap32 fd\<rparr>)]"
          using g w(2) c1 h(1) by simp
        show "\<forall>h. timeout_counters c ! nat h \<le> timeout_counters c' ! nat h" using w(4) g c1 by simp
        show "wait_ends evs = Timed_Out \<and> fd_redir_map c' = fd_redir_map c \<or>
          (\<exists>i r. wait_ends evs \<in> {Answered 0 i r, Tied 0 i r} \<and> fd_redir_map c' = (fd_redir_map c)(wrap32 fd \<mapsto> r))"
          using w(5) g c1 by simp
        show "charged evs (home (ce_hash env) ?n cp) c c'" using w(3) g c1 h(1) by (simp add: charged_def)
      qed simp
    qed
  qed
qed

text \<open>The outcomes of closing.\<close>

lemma remove_outcome:
  assumes ok: "counters_ok c" and run: "ftc_remove_fd env hs fd c = Inr (b, c')"
  obtains (unknown) "fd_map c fd = None" "fd_map c' = fd_map c" "fd_redir_map c' = fd_redir_map c" "sent c' = sent c"
      "timeout_counters c' = timeout_counters c" "g_ftc_server_count c' = g_ftc_server_count c"
  | (silent) p where "fd_map c fd = Some p" "fd_map c' = (fd_map c)(fd := None)"
      "fd_redir_map c' = fd_redir_map c" "sent c' = sent c"
      "timeout_counters c' = timeout_counters c" "g_ftc_server_count c' = g_ftc_server_count c"
  | (told) p where "fd_map c fd = Some p" "fd_map c' = (fd_map c)(fd := None)"
      "fd_redir_map c' = (fd_redir_map c)(fd := None)"
      "sent c' = sent c @ [(home (ce_hash env) (g_ftc_server_count c) p, Close_Req
        \<lparr>close_fd = wrap32 (fst (subscript 0 (fd_redir_map c) fd)), close_client_rank = wrap32 (client_rank c)\<rparr>)]"
      "timeout_counters c ! nat (home (ce_hash env) (g_ftc_server_count c) p) < TIMEOUT_LIMIT"
      "timeout_counters c' = timeout_counters c" "g_ftc_server_count c' = g_ftc_server_count c"
proof (cases "fd_map c fd")
  case None
  with run have "c' = c \<or> c' = c\<lparr>fd_map := (fd_map c)(fd := None)\<rparr>"
    by (auto simp: ftc_remove_fd_def ftc_remote_close_def ftc_file_tracked_iff split: if_splits)
  with None unknown show thesis by (auto simp: fun_upd_idem)
next
  case (Some p)
  then have "fd_map c \<noteq> Map.empty" by auto
  with run obtain c1 where c1: "ftc_remote_close env hs fd c = Inr c1" "c' = c1\<lparr>fd_map := (fd_map c1)(fd := None)\<rparr>"
    by (auto simp: ftc_remove_fd_def andThen_iffs)
  from c1(1) Some obtain h skip where t: "select_host (ce_hash env) (g_ftc_server_count c) p = Inr h"
    "limit_reached c h = Inr skip"
    by (auto simp: ftc_remote_close_def ftc_file_tracked_iff andThen_iffs)
  note h = counters_home [OF ok t(1)]
  show thesis
  proof (cases skip)
    case True
    with c1 Some t have "c1 = c" by (simp add: ftc_remote_close_def ftc_file_tracked_iff)
    with silent [OF Some] c1(2) show thesis by simp
  next
    case False
    with c1 Some t h(2) have g: "ftc_client_comm_gen_close_rpc env hs h fd c = Inr c1"
      by (simp add: ftc_remote_close_def ftc_file_tracked_iff)
    have "timeout_counters c ! nat h < TIMEOUT_LIMIT"
      using t(2) False by (auto simp: limit_reached_def split: if_splits)
    with told [OF Some] gen_close_sent [OF g] rpc_frame_maps [of c c1] c1(2) h(1) show thesis by simp
  qed
qed


section \<open>The invariant\<close>

text \<open>Client \<open>k\<close> may still ask the host of the path: it is up and has not been given up.\<close>

definition reachable :: "(string \<Rightarrow> int) \<Rightarrow> int \<Rightarrow> 'w network \<Rightarrow> nat \<Rightarrow> path \<Rightarrow> bool" where
  "reachable hash n X k p \<longleftrightarrow> home hash n p \<notin> down X \<and>
     timeout_counters (members X k) ! nat (home hash n p) < TIMEOUT_LIMIT"

text \<open>
  Descriptor \<open>fd\<close> of client \<open>k\<close> stands for descriptor \<open>rfd\<close> of host \<open>h\<close>; -1 is nobody's.
\<close>

definition owns :: "(string \<Rightarrow> int) \<Rightarrow> int \<Rightarrow> 'w network \<Rightarrow> nat \<Rightarrow> int \<Rightarrow> int \<Rightarrow> int \<Rightarrow> bool" where
  "owns hash n X k fd h rfd \<longleftrightarrow>
     0 \<le> rfd \<and> (\<exists>p. fd_map (members X k) fd = Some p \<and> home hash n p = h \<and> reachable hash n X k p \<and>
          fd_redir_map (members X k) fd = Some rfd)"

definition paired :: "(string \<Rightarrow> int) \<Rightarrow> int \<Rightarrow> 'w network \<Rightarrow> nat \<Rightarrow> int \<Rightarrow> path \<Rightarrow> bool" where
  "paired hash n X k fd p \<longleftrightarrow>
     (\<exists>rfd. fd_redir_map (members X k) fd = Some rfd \<and>
        (rfd = -1 \<or> 0 \<le> rfd \<and> rfd < 2147483648 \<and>
          fd_to_path (hosts X (home hash n p)) rfd = Some p))"

definition clients_ok :: "'w deployment \<Rightarrow> (string \<Rightarrow> int) \<Rightarrow> int \<Rightarrow> 'w network \<Rightarrow> bool" where
  "clients_ok D hash n X \<longleftrightarrow> (\<forall>k. ce_hash (envs D k) = hash \<and> g_ftc_server_count (members X k) = n \<and>
     counters_ok (members X k))"

definition pairs_ok :: "(string \<Rightarrow> int) \<Rightarrow> int \<Rightarrow> 'w network \<Rightarrow> bool" where
  "pairs_ok hash n X \<longleftrightarrow>
     (\<forall>k fd p. fd_map (members X k) fd = Some p \<longrightarrow> reachable hash n X k p \<longrightarrow> paired hash n X k fd p) \<and>
     (\<forall>k fd k' fd' h rfd. owns hash n X k fd h rfd \<longrightarrow> owns hash n X k' fd' h rfd \<longrightarrow> k = k' \<and> fd = fd')"

text \<open>
  A descriptor that a request on its way to a live host will close is open and nobody's, and no
  other request will close it; a request to close -1 closes nothing.
\<close>

definition live :: "'w network \<Rightarrow> int \<times> close_in \<Rightarrow> bool" where
  "live X x \<longleftrightarrow> fst x \<notin> down X \<and> close_fd (snd x) \<noteq> -1"

lemma live_simps [simp]:
  "live (X\<lparr>members := m\<rparr>) = live X" "live (X\<lparr>hosts := s\<rparr>) = live X" "live (X\<lparr>closing := cs\<rparr>) = live X"
  by (simp_all add: live_def fun_eq_iff)

definition closing_ok ::
  "(string \<Rightarrow> int) \<Rightarrow> int \<Rightarrow> ('w \<Rightarrow> int \<rightharpoonup> path \<times> int) \<Rightarrow> 'w network \<Rightarrow> bool" where
  "closing_ok hash n ofd X \<longleftrightarrow>
     (\<forall>h i. (h, i) \<in> set (closing X) \<longrightarrow> live X (h, i) \<longrightarrow> ofd (world (hosts X h)) (close_fd i) \<noteq> None \<and>
        (\<forall>k fd. \<not> owns hash n X k fd h (close_fd i))) \<and>
     distinct (map (\<lambda>(h, i). (h, close_fd i)) (filter (live X) (closing X)))"

definition net_ok ::
  "'w deployment \<Rightarrow> (string \<Rightarrow> int) \<Rightarrow> int \<Rightarrow> ('w \<Rightarrow> path \<rightharpoonup> byte list) \<Rightarrow> ('w \<Rightarrow> int \<rightharpoonup> path \<times> int) \<Rightarrow>
   'w network \<Rightarrow> bool" where
  "net_ok D hash n content ofd X \<longleftrightarrow> clients_ok D hash n X \<and> (\<forall>h. server_ok content ofd (hosts X h)) \<and>
     pairs_ok hash n X \<and> closing_ok hash n ofd X"

lemma net_ok_start: "net_start D hash n X \<Longrightarrow> net_ok D hash n content ofd X"
  by (simp add: net_start_def net_ok_def clients_ok_def pairs_ok_def closing_ok_def owns_def server_ok_start)

text \<open>An owned descriptor is open on its host.\<close>

lemma owned_open:
  assumes "net_ok D hash n content ofd X" and "owns hash n X k fd h rfd"
  shows "ofd (world (hosts X h)) rfd \<noteq> None \<and> 0 \<le> rfd \<and> rfd < 2147483648"
proof -
  from assms(2) obtain p where p: "fd_map (members X k) fd = Some p" "home hash n p = h"
    "reachable hash n X k p" "fd_redir_map (members X k) fd = Some rfd" and rfd: "0 \<le> rfd"
    by (auto simp: owns_def)
  with assms(1) have "paired hash n X k fd p" by (simp add: net_ok_def pairs_ok_def)
  with p rfd have "rfd < 2147483648" "fd_to_path (hosts X h) rfd = Some p"
    by (auto simp: paired_def)
  with assms(1) rfd show ?thesis by (fastforce simp: net_ok_def server_ok_def fds_ok_def)
qed

section \<open>Its parts step\<close>

text \<open>Each step is at most one step of each client and of each server.\<close>

lemma net_host_step:
  assumes "net_step D X Y"
  shows "hosts Y h = hosts X h \<or>
    server_step (systems D h) (logs D h) (storage D h) (hosts X h) (hosts Y h)"
  using assms by (cases rule: net_step.cases) (auto intro: server_step.intros mover_step_step)

lemma net_member_step:
  assumes "net_step D X Y"
  shows "members Y k = members X k \<or> (\<exists>opn. client_step (envs D k) opn (members X k) (members Y k))"
  using assms by (cases rule: net_step.cases) (auto intro: client_step.intros)

lemma net_host_run:
  assumes "net_run D X Y"
  shows "server_run (systems D h) (logs D h) (storage D h) (hosts X h) (hosts Y h)"
  using assms
proof (induction rule: net_run.induct)
  case (net_snoc X Y Z)
  with net_host_step [OF net_snoc.hyps(2), of h] show ?case by (auto intro: run_step)
qed (rule run_refl)

lemma net_parts_ok:
  assumes "net_ok D hash n content ofd X" and "net_step D X Y"
    and "\<forall>h. posix_files (systems D h) content ofd"
  shows "clients_ok D hash n Y" and "server_ok content ofd (hosts Y h)"
proof -
  have "counters_ok (members Y k) \<and> g_ftc_server_count (members Y k) = n" for k
    using assms(1) net_member_step [OF assms(2), of k] step_counters
    by (fastforce simp: net_ok_def clients_ok_def)
  with assms(1) show "clients_ok D hash n Y" by (simp add: net_ok_def clients_ok_def)
  have "posix_files (systems D h) content ofd" using assms(3) by simp
  from posix_files.step_keeps_ok [OF this] assms(1) net_host_step [OF assms(2), of h]
  show "server_ok content ofd (hosts Y h)" by (fastforce simp: net_ok_def)
qed

text \<open>Steps after which nobody owns what he did not own before.\<close>

lemma net_ok_shrink:
  assumes ok: "net_ok D hash n content ofd X"
    and parts: "clients_ok D hash n Y" "\<And>h. server_ok content ofd (hosts Y h)"
    and own: "\<And>k fd h rfd. owns hash n Y k fd h rfd \<Longrightarrow> owns hash n X k fd h rfd"
    and "\<And>k fd p. fd_map (members Y k) fd = Some p \<Longrightarrow> reachable hash n Y k p \<Longrightarrow> paired hash n Y k fd p"
    and "closing Y = closing X" and "down X \<subseteq> down Y"
    and kept: "\<And>h fd. ofd (world (hosts X h)) fd \<noteq> None \<Longrightarrow> ofd (world (hosts Y h)) fd \<noteq> None"
  shows "net_ok D hash n content ofd Y"
proof -
  have pairs: "pairs_ok hash n Y"
    using ok own assms(5) unfolding net_ok_def pairs_ok_def by blast
  let ?key = "\<lambda>(h, i). (h, close_fd i)"
  have sub: "live Y x \<Longrightarrow> live X x" for x using assms(7) by (auto simp: live_def)
  then have "filter (live Y) (closing X) = filter (live Y) (filter (live X) (closing X))"
    by (auto simp: filter_filter intro!: filter_cong)
  moreover have "distinct (map ?key (filter (live X) (closing X)))"
    using ok by (simp add: net_ok_def closing_ok_def)
  ultimately have "distinct (map ?key (filter (live Y) (closing Y)))"
    unfolding assms(6) by (simp only: distinct_map_filter)
  with ok own kept sub assms(6) have "closing_ok hash n ofd Y"
    unfolding net_ok_def closing_ok_def by metis
  with parts pairs show ?thesis by (simp add: net_ok_def)
qed

section \<open>Every step keeps the invariant\<close>

text \<open>Who owns what depends on the clients and on who is down alone.\<close>

lemma owns_same:
  assumes "members Y = members X" and "down Y = down X"
  shows "owns hash n Y = owns hash n X" and "reachable hash n Y = reachable hash n X"
  using assms by (simp_all add: owns_def reachable_def fun_eq_iff)

text \<open>What a server does besides opening and closing keeps its table of descriptors.\<close>

lemma mover_step_fds:
  assumes "mover_step os t s s'" and "posix_files os content ofd"
  shows "fd_to_path s' = fd_to_path s \<and> ofd (world s') = ofd (world s)"
  using assms(1)
proof (cases rule: mover_step.cases)
  case m_copy
  then obtain p ps where l: "local_list s = p # ps" by (auto simp: neq_Nil_conv)
  then show ?thesis
  proof (cases rule: mover_copy_cases [where os = os and t = t])
    case (copied d w1 w2)
    with m_copy posix_files.mkdtemp_world(2) [OF assms(2), of t "world s"]
      posix_files.copy_ofd [OF assms(2), of p "d @ ''/'' @ filename_of p" w1] show ?thesis by simp
  next
    case (failed d w1 w2)
    with m_copy posix_files.mkdtemp_world(2) [OF assms(2), of t "world s"]
      posix_files.copy_ofd [OF assms(2), of p "d @ ''/'' @ filename_of p" w1] show ?thesis by simp
  qed
qed (simp_all add: mover_drain_eq mover_publish_def split: list.splits)

lemma host_step_ok:
  assumes ok: "net_ok D hash n content ofd X"
    and step: "net_step D X (X\<lparr>hosts := (hosts X)(h := s')\<rparr>)"
    and os: "\<forall>h. posix_files (systems D h) content ofd"
    and fds: "fd_to_path s' = fd_to_path (hosts X h)"
    and kept: "\<And>fd. ofd (world (hosts X h)) fd \<noteq> None \<Longrightarrow> ofd (world s') fd \<noteq> None"
  shows "net_ok D hash n content ofd (X\<lparr>hosts := (hosts X)(h := s')\<rparr>)"
proof (rule net_ok_shrink [OF ok net_parts_ok [OF ok step os]])
  let ?Y = "X\<lparr>hosts := (hosts X)(h := s')\<rparr>"
  have same: "owns hash n ?Y = owns hash n X" "reachable hash n ?Y = reachable hash n X"
    by (rule owns_same; simp)+
  show "owns hash n ?Y k fd g rfd \<Longrightarrow> owns hash n X k fd g rfd" for k fd g rfd
    unfolding same .
  show "paired hash n ?Y k fd p"
    if "fd_map (members ?Y k) fd = Some p" "reachable hash n ?Y k p" for k fd p
  proof -
    have "paired hash n X k fd p" using ok that same by (simp add: net_ok_def pairs_ok_def)
    then show ?thesis using fds by (auto simp: paired_def)
  qed
  show "ofd (world (hosts ?Y g)) fd \<noteq> None" if "ofd (world (hosts X g)) fd \<noteq> None" for g fd
    using that kept [of fd] by (cases "g = h") simp_all
qed simp_all

lemma path_kept: "map_option fst a = map_option fst b \<Longrightarrow> b \<noteq> None \<Longrightarrow> a \<noteq> None"
  by (cases a) auto

lemma host_reads_ok:
  assumes "net_ok D hash n content ofd X" and "\<forall>h. posix_files (systems D h) content ofd"
    and "net_step D X (X\<lparr>hosts := (hosts X)(h := s')\<rparr>)"
    and "ftc_rpc_handler (systems D h) (logs D h) hg rin (hosts X h) = Inr (s', out)"
  shows "net_ok D hash n content ofd (X\<lparr>hosts := (hosts X)(h := s')\<rparr>)"
proof (rule host_step_ok [OF assms(1,3,2)])
  note eff = read_handler_effect [OF assms(4)]
  then show "fd_to_path s' = fd_to_path (hosts X h)" by simp
  have "posix_files (systems D h) content ofd" using assms(2) by simp
  from eff posix_files.read_world_same(2) [OF this]
  have "map_option fst (ofd (world s') fd) = map_option fst (ofd (world (hosts X h)) fd)" for fd by auto
  then show "ofd (world s') fd \<noteq> None" if "ofd (world (hosts X h)) fd \<noteq> None" for fd
    using that path_kept by blast
qed

lemma host_seeks_ok:
  assumes "net_ok D hash n content ofd X" and "\<forall>h. posix_files (systems D h) content ofd"
    and "net_step D X (X\<lparr>hosts := (hosts X)(h := s')\<rparr>)"
    and "ftc_seek_rpc_handler (systems D h) hg sin (hosts X h) = Inr (s', out)"
  shows "net_ok D hash n content ofd (X\<lparr>hosts := (hosts X)(h := s')\<rparr>)"
proof (rule host_step_ok [OF assms(1,3,2)])
  note eff = seek_handler_effect(1) [OF assms(4)]
  then show "fd_to_path s' = fd_to_path (hosts X h)" by simp
  have "posix_files (systems D h) content ofd" using assms(2) by simp
  from eff posix_files.lseek_path [OF this]
  have "map_option fst (ofd (world s') fd) = map_option fst (ofd (world (hosts X h)) fd)" for fd by simp
  then show "ofd (world s') fd \<noteq> None" if "ofd (world (hosts X h)) fd \<noteq> None" for fd
    using that path_kept by blast
qed

lemma host_copies_ok:
  assumes "net_ok D hash n content ofd X" and "\<forall>h. posix_files (systems D h) content ofd"
    and "net_step D X (X\<lparr>hosts := (hosts X)(h := s')\<rparr>)"
    and "mover_step (systems D h) t (hosts X h) s'"
  shows "net_ok D hash n content ofd (X\<lparr>hosts := (hosts X)(h := s')\<rparr>)"
proof (rule host_step_ok [OF assms(1,3,2)])
  have "posix_files (systems D h) content ofd" using assms(2) by simp
  note same = mover_step_fds [OF assms(4) this]
  then show "fd_to_path s' = fd_to_path (hosts X h)" by simp
  show "ofd (world s') fd \<noteq> None" if "ofd (world (hosts X h)) fd \<noteq> None" for fd
    using that same by simp
qed

section \<open>Steps of a client\<close>

text \<open>A client that tracks no more files, keeps what it redirects and lowers no counter.\<close>

lemma member_step_ok:
  assumes ok: "net_ok D hash n content ofd X"
    and step: "net_step D X (X\<lparr>members := (members X)(k := c')\<rparr>)"
    and os: "\<forall>h. posix_files (systems D h) content ofd"
    and rises: "\<And>h. timeout_counters (members X k) ! nat h \<le> timeout_counters c' ! nat h"
    and new: "\<And>fd p. fd_map c' fd = Some p \<Longrightarrow> reachable hash n (X\<lparr>members := (members X)(k := c')\<rparr>) k p \<Longrightarrow>
      fd_map (members X k) fd = Some p \<and>
      (\<forall>r. fd_redir_map (members X k) fd = Some r \<longrightarrow> fd_redir_map c' fd = Some r)"
  shows "net_ok D hash n content ofd (X\<lparr>members := (members X)(k := c')\<rparr>)" (is "net_ok _ _ _ _ _ ?Y")
proof (rule net_ok_shrink [OF ok net_parts_ok [OF ok step os]])
  have reach: "reachable hash n X g p" if "reachable hash n ?Y g p" for g p
    using that rises [of "home hash n p"] by (auto simp: reachable_def split: if_splits)
  have old: "fd_map (members X g) fd = Some p \<and> paired hash n X g fd p \<and>
      (\<forall>r. fd_redir_map (members X g) fd = Some r \<longrightarrow> fd_redir_map (members ?Y g) fd = Some r)"
    if "fd_map (members ?Y g) fd = Some p" "reachable hash n ?Y g p" for g fd p
  proof -
    have "fd_map (members X g) fd = Some p \<and>
      (\<forall>r. fd_redir_map (members X g) fd = Some r \<longrightarrow> fd_redir_map (members ?Y g) fd = Some r)"
      using that new [of fd p] by (cases "g = k") simp_all
    with ok reach [OF that(2)] show ?thesis by (auto simp: net_ok_def pairs_ok_def)
  qed
  show "owns hash n X g fd h rfd" if "owns hash n ?Y g fd h rfd" for g fd h rfd
  proof -
    from that obtain p where p: "fd_map (members ?Y g) fd = Some p" "home hash n p = h"
      "reachable hash n ?Y g p" "fd_redir_map (members ?Y g) fd = Some rfd" "0 \<le> rfd" by (auto simp: owns_def)
    from old [OF p(1,3)] p(4) have "fd_redir_map (members X g) fd = Some rfd" by (auto simp: paired_def)
    with old [OF p(1,3)] p(2,5) reach [OF p(3)] show ?thesis by (auto simp: owns_def)
  qed
  show "paired hash n ?Y g fd p" if "fd_map (members ?Y g) fd = Some p" "reachable hash n ?Y g p" for g fd p
    using old [OF that] by (auto simp: paired_def)
qed simp_all

lemma member_grows_ok:
  assumes "net_ok D hash n content ofd X" and "\<forall>h. posix_files (systems D h) content ofd"
    and "net_step D X (X\<lparr>members := (members X)(k := c')\<rparr>)" and "grows (members X k) c'"
  shows "net_ok D hash n content ofd (X\<lparr>members := (members X)(k := c')\<rparr>)"
  by (rule member_step_ok [OF assms(1,3,2)]) (use assms(4) in \<open>simp_all add: grows_def\<close>)

text \<open>A file that is not sent to its host is untracked, or its host was given up or is down.\<close>

lemma member_tracks_ok:
  assumes ok: "net_ok D hash n content ofd X" and os: "\<forall>h. posix_files (systems D h) content ofd"
    and step: "net_step D X (X\<lparr>members := (members X)(k := c')\<rparr>)"
    and fresh: "fd_map (members X k) fd = None"
    and run: "ftc_track_file canonical cwd (envs D k) hs cb evs p flags fd (members X k) = Inr (b, c')"
    and way: "sent c' = sent (members X k) \<or>
      sent c' = sent (members X k) @ [(h, Open_Req oin)] \<and> h \<in> down X \<and> wait_ends evs = Timed_Out"
  shows "net_ok D hash n content ofd (X\<lparr>members := (members X)(k := c')\<rparr>)" (is "net_ok _ _ _ _ _ ?Y")
proof -
  have c: "counters_ok (members X k)" "g_ftc_server_count (members X k) = n" "ce_hash (envs D k) = hash"
    using ok by (simp_all add: net_ok_def clients_ok_def)
  note shrink = member_step_ok [OF ok step os]
  from c(1) run show ?thesis
  proof (cases rule: track_outcome)
    case untracked
    then show ?thesis by (intro shrink) simp_all
  next
    case (skipped cp)
    have "\<not> reachable hash n ?Y k cp" using skipped(4,6) c by (simp add: reachable_def)
    with skipped(1,2,4) show ?thesis by (intro shrink) (auto split: if_splits)
  next
    case (asked cp oin')
    with way c have "home hash n cp \<in> down X" "wait_ends evs = Timed_Out" by auto
    then have "\<not> reachable hash n ?Y k cp" "fd_redir_map c' = fd_redir_map (members X k)"
      using asked(6) by (auto simp: reachable_def)
    with asked(1,5) show ?thesis by (intro shrink) (auto split: if_splits)
  qed
qed

section \<open>Opening, closing and crashing\<close>

text \<open>A file that its host opened gets a descriptor nobody uses.\<close>

lemma opens_ok:
  assumes ok: "net_ok D hash n content ofd X" and os: "\<forall>h. posix_files (systems D h) content ofd"
    and step: "net_step D X (X\<lparr>members := (members X)(k := c'), hosts := (hosts X)(h := s')\<rparr>)"
    and fresh: "fd_map (members X k) fd = None" and fd: "0 \<le> fd" "fd < 2147483648"
    and run: "ftc_track_file canonical cwd (envs D k) hs cb evs p flags fd (members X k) = Inr (b, c')"
    and asks: "sent c' = sent (members X k) @ [(h, Open_Req oin)]"
    and handler: "ftc_open_rpc_handler (systems D h) (logs D h) hg oin (hosts X h) = Inr (s', out)"
    and rfd: "out_resp out = Some (Open_Out rfd)" "rfd < 2147483648"
    and ends: "wait_ends evs \<in> {Answered 0 0 rfd, Tied 0 0 rfd}"
  shows "net_ok D hash n content ofd (X\<lparr>members := (members X)(k := c'), hosts := (hosts X)(h := s')\<rparr>)"
    (is "net_ok _ _ _ _ _ ?Y")
proof -
  have c: "counters_ok (members X k)" "g_ftc_server_count (members X k) = n" "ce_hash (envs D k) = hash"
    using ok by (simp_all add: net_ok_def clients_ok_def)
  from c(1) run obtain new: "fd_map c' = (fd_map (members X k))(fd \<mapsto> open_path oin)"
    "h = home hash n (open_path oin)" "fd_redir_map c' = (fd_redir_map (members X k))(fd \<mapsto> rfd)"
    and rises: "\<forall>h. timeout_counters (members X k) ! nat h \<le> timeout_counters c' ! nat h"
    by (rule track_outcome) (use asks ends fd c in auto)
  have h: "posix_files (systems D h) content ofd" using os by simp
  from handler rfd(1) obtain q where q: "sys_open (systems D h) q O_RDONLY (world (hosts X h)) = (rfd, world s')"
    "fd_to_path s' = (fd_to_path (hosts X h))(rfd \<mapsto> open_path oin)"
    by (cases rule: open_handler_effect) auto
  from posix_files.open_ofd [OF h q(1)] have either: "rfd = -1 \<or> 0 \<le> rfd"
    and free: "0 \<le> rfd \<Longrightarrow> ofd (world (hosts X h)) rfd = None"
    and opened: "ofd (world (hosts X h)) g \<noteq> None \<Longrightarrow> ofd (world s') g \<noteq> None" for g by auto
  have reach: "reachable hash n X g p" if "reachable hash n ?Y g p" for g p
    using that rises [rule_format, of "home hash n p"] by (auto simp: reachable_def split: if_splits)
  have mine: "fd_map (members ?Y g) e = (if g = k \<and> e = fd then Some (open_path oin) else fd_map (members X g) e)"
    "fd_redir_map (members ?Y g) e = (if g = k \<and> e = fd then Some rfd else fd_redir_map (members X g) e)"
    for g e using new by auto
  have own: "owns hash n X g e i r" if "owns hash n ?Y g e i r" "\<not> (g = k \<and> e = fd)" for g e i r
    using that reach mine unfolding owns_def by auto
  have own1: "i = h \<and> r = rfd \<and> 0 \<le> rfd" if "owns hash n ?Y k fd i r" for i r
    using that new by (auto simp: owns_def)
  have "\<not> owns hash n X g e h rfd" for g e using owned_open [OF ok, of g e h rfd] free by (auto simp: owns_def)
  with own have only: "g = k \<and> e = fd" if "owns hash n ?Y g e h rfd" for g e using that by blast
  have "paired hash n ?Y g e p" if p: "fd_map (members ?Y g) e = Some p" "reachable hash n ?Y g p" for g e p
  proof (cases "g = k \<and> e = fd")
    case True
    with p mine new q rfd either show ?thesis by (auto simp: paired_def)
  next
    case False
    with p mine reach have p': "fd_map (members X g) e = Some p" "reachable hash n X g p" by auto
    with ok have "paired hash n X g e p" by (simp add: net_ok_def pairs_ok_def)
    then obtain r where r: "fd_redir_map (members X g) e = Some r"
      "r = -1 \<or> 0 \<le> r \<and> r < 2147483648 \<and> fd_to_path (hosts X (home hash n p)) r = Some p"
      by (auto simp: paired_def)
    have "home hash n p = h \<longrightarrow> r \<noteq> rfd" if "0 \<le> r"
      using owned_open [OF ok, of g e "home hash n p" r] p' r that free by (auto simp: owns_def)
    with r q False mine show ?thesis by (auto simp: paired_def)
  qed
  moreover have "g = k' \<and> e = e'" if "owns hash n ?Y g e i r" "owns hash n ?Y k' e' i r" for g e k' e' i r
  proof (cases "i = h \<and> r = rfd")
    case True
    with only that show ?thesis by metis
  next
    case False
    with own own1 that have "owns hash n X g e i r" "owns hash n X k' e' i r" by blast+
    with ok show ?thesis by (auto simp: net_ok_def pairs_ok_def)
  qed
  ultimately have "pairs_ok hash n ?Y" unfolding pairs_ok_def by blast
  moreover have "closing_ok hash n ofd ?Y"
  proof -
    have old: "closing_ok hash n ofd X" using ok by (simp add: net_ok_def)
    have "ofd (world (hosts ?Y i)) (close_fd x) \<noteq> None \<and> (\<forall>g e. \<not> owns hash n ?Y g e i (close_fd x))"
      if x: "(i, x) \<in> set (closing X)" "live X (i, x)" for i x
    proof -
      from old x have o: "ofd (world (hosts X i)) (close_fd x) \<noteq> None" "\<not> owns hash n X g e i (close_fd x)" for g e
        by (auto simp: closing_ok_def)
      with free have "\<not> (i = h \<and> close_fd x = rfd \<and> 0 \<le> rfd)" by auto
      with own own1 o(2) have "\<not> owns hash n ?Y g e i (close_fd x)" for g e by blast
      with o(1) opened show ?thesis by auto
    qed
    moreover have "live ?Y = live X" by simp
    ultimately show ?thesis using old by (simp add: closing_ok_def)
  qed
  ultimately show ?thesis using net_parts_ok [OF ok step os] by (simp add: net_ok_def)
qed

text \<open>Closing: the descriptor of the host passes from the client to the request.\<close>

lemma closes_ok:
  assumes ok: "net_ok D hash n content ofd X" and os: "\<forall>h. posix_files (systems D h) content ofd"
    and step: "net_step D X (X\<lparr>members := (members X)(k := c'), closing := closing X @ closes_of new\<rparr>)"
    and run: "ftc_remove_fd (envs D k) hs fd (members X k) = Inr (b, c')"
    and asks: "sent c' = sent (members X k) @ new"
  shows "net_ok D hash n content ofd (X\<lparr>members := (members X)(k := c'), closing := closing X @ closes_of new\<rparr>)"
    (is "net_ok _ _ _ _ _ ?Y")
proof -
  have c: "counters_ok (members X k)" "g_ftc_server_count (members X k) = n" "ce_hash (envs D k) = hash"
    using ok by (simp_all add: net_ok_def clients_ok_def)
  have parts: "clients_ok D hash n ?Y" "\<And>h. server_ok content ofd (hosts ?Y h)"
    using net_parts_ok [OF ok step os] by blast+
  from c(1) run have eff: "timeout_counters c' = timeout_counters (members X k) \<and>
      (\<forall>e p. fd_map c' e = Some p \<longrightarrow> fd_map (members X k) e = Some p \<and>
        fd_redir_map c' e = fd_redir_map (members X k) e)"
    by (rule remove_outcome) (auto split: if_splits)
  then have reach: "reachable hash n ?Y = reachable hash n X" by (auto simp: reachable_def fun_eq_iff)
  have live: "live ?Y = live X" by simp
  have old: "fd_map (members X g) e = Some p \<and> fd_redir_map (members ?Y g) e = fd_redir_map (members X g) e"
    if "fd_map (members ?Y g) e = Some p" for g e p
    using that eff by (cases "g = k") auto
  have own: "owns hash n X g e i r" if "owns hash n ?Y g e i r" for g e i r
    using that old unfolding owns_def reach by metis
  have paired: "paired hash n ?Y g e p" if "fd_map (members ?Y g) e = Some p" "reachable hash n ?Y g p" for g e p
    using ok old [OF that(1)] that(2) unfolding reach by (auto simp: net_ok_def pairs_ok_def paired_def)
  have quiet: ?thesis if "new = []"
    by (rule net_ok_shrink [OF ok parts own paired]) (use that in \<open>simp_all add: closes_of_def\<close>)
  from c(1) run show ?thesis
  proof (cases rule: remove_outcome)
    case (told p)
    define i where "i = \<lparr>close_fd = wrap32 (fst (subscript 0 (fd_redir_map (members X k)) fd)),
      close_client_rank = wrap32 (client_rank (members X k))\<rparr>"
    define h where "h = home hash n p"
    have cl: "closes_of new = [(h, i)]" using told(4) asks c by (simp add: closes_of_def i_def h_def)
    have pairs: "pairs_ok hash n ?Y"
      using ok own paired unfolding net_ok_def pairs_ok_def by blast
    have before: "closing_ok hash n ofd X" using ok by (simp add: net_ok_def)
    have "closing_ok hash n ofd ?Y"
    proof (cases "live X (h, i)")
      case False
      with before cl show ?thesis by (auto simp: closing_ok_def live dest!: own [unfolded cl])
    next
      case True
      then have "reachable hash n X k p" using told(5) c by (simp add: reachable_def h_def live_def)
      with ok told(1) have "paired hash n X k fd p" by (simp add: net_ok_def pairs_ok_def)
      then obtain rfd where rfd: "fd_redir_map (members X k) fd = Some rfd"
        "rfd = -1 \<or> 0 \<le> rfd \<and> rfd < 2147483648" by (auto simp: paired_def)
      then have i: "close_fd i = rfd" by (auto simp: i_def subscript_def)
      with True rfd(2) have "0 \<le> rfd" by (auto simp: live_def)
      then have mine: "owns hash n X k fd h rfd"
        using told(1) \<open>reachable hash n X k p\<close> rfd(1) by (simp add: owns_def h_def)
      have "\<not> owns hash n ?Y g e h rfd" for g e
      proof
        assume y: "owns hash n ?Y g e h rfd"
        with own mine ok have "g = k \<and> e = fd" unfolding net_ok_def pairs_ok_def by blast
        with y told(2) show False by (simp add: owns_def)
      qed
      moreover have "\<forall>x. (h, x) \<in> set (closing X) \<longrightarrow> live X (h, x) \<longrightarrow> close_fd x \<noteq> rfd"
        using before mine by (auto simp: closing_ok_def)
      ultimately show ?thesis
        using before owned_open [OF ok mine] i True cl
        by (auto simp: closing_ok_def live dest!: own [unfolded cl])
    qed
    with parts pairs show ?thesis by (simp add: net_ok_def)
  qed (use quiet asks in simp_all)
qed

text \<open>A host that serves a request to close loses a descriptor nobody stands for.\<close>

lemma keys_inj:
  assumes "distinct (map f xs)" and "x \<in> set xs" and "y \<in> set xs" and "f x = f y"
  shows "x = y"
  using assms by (auto simp: distinct_map inj_on_def)

lemma filter_remove1_eq: "filter P (remove1 x xs) = (if P x then remove1 x (filter P xs) else filter P xs)"
  by (induction xs) auto

lemma distinct_keys_remove1: "distinct (map f (filter P xs)) \<Longrightarrow> distinct (map f (filter P (remove1 x xs)))"
  by (auto simp: filter_remove1_eq distinct_map intro: inj_on_subset [OF _ Diff_subset])

lemma in_remove1D: "x \<in> set (remove1 y xs) \<Longrightarrow> x \<in> set xs"
  using set_remove1_subset [of y xs] by blast

lemma host_closes_ok:
  assumes ok: "net_ok D hash n content ofd X" and os: "\<forall>h. posix_files (systems D h) content ofd"
    and step: "net_step D X (X\<lparr>hosts := (hosts X)(h := s'), closing := remove1 (h, cin) (closing X)\<rparr>)"
    and cin: "(h, cin) \<in> set (closing X)" "h \<notin> down X"
    and handler: "ftc_close_rpc_handler (systems D h) (logs D h) hg cin (hosts X h) = Inr (s', out)"
  shows "net_ok D hash n content ofd (X\<lparr>hosts := (hosts X)(h := s'), closing := remove1 (h, cin) (closing X)\<rparr>)"
    (is "net_ok _ _ _ _ _ ?Y")
proof -
  have h: "posix_files (systems D h) content ofd" using os by simp
  from handler have fds: "fd_to_path s' = (fd_to_path (hosts X h))(close_fd cin := None)"
    by (cases rule: close_handler_effect) auto
  from handler have table: "ofd (world s') fd = ofd (world (hosts X h)) fd" if "fd \<noteq> close_fd cin" for fd
    by (cases rule: close_handler_effect) (use that posix_files.close_ofd [OF h] in auto)
  have same: "owns hash n ?Y = owns hash n X" "reachable hash n ?Y = reachable hash n X"
    by (rule owns_same; simp)+
  have before: "closing_ok hash n ofd X" using ok by (simp add: net_ok_def)
  then have free: "\<not> owns hash n X k fd h (close_fd cin)" for k fd
    using cin by (cases "close_fd cin = -1") (auto simp: closing_ok_def live_def owns_def)
  have "paired hash n ?Y k fd p" if p: "fd_map (members ?Y k) fd = Some p" "reachable hash n ?Y k p" for k fd p
  proof -
    have "paired hash n X k fd p" using ok p unfolding same by (simp add: net_ok_def pairs_ok_def)
    then obtain r where r: "fd_redir_map (members X k) fd = Some r"
      "r = -1 \<or> 0 \<le> r \<and> r < 2147483648 \<and> fd_to_path (hosts X (home hash n p)) r = Some p"
      by (auto simp: paired_def)
    have "home hash n p = h \<longrightarrow> r \<noteq> close_fd cin" if "0 \<le> r"
      using free [of k fd] p r(1) that unfolding same by (auto simp: owns_def)
    with r fds show ?thesis by (auto simp: paired_def)
  qed
  with ok have pairs: "pairs_ok hash n ?Y" unfolding net_ok_def pairs_ok_def same by blast
  let ?key = "\<lambda>(g, i). (g, close_fd i)"
  have live: "live ?Y = live X" by simp
  have dist: "distinct (map ?key (filter (live X) (closing X)))" using before by (simp add: closing_ok_def)
  have left: "distinct (map ?key (filter (live X) (closing ?Y)))"
    using distinct_keys_remove1 [OF dist] by simp
  have "\<not> (g = h \<and> close_fd i = close_fd cin)" if i: "(g, i) \<in> set (closing ?Y)" "live X (g, i)" for g i
  proof
    assume gi: "g = h \<and> close_fd i = close_fd cin"
    with i(2) have up: "live X (h, cin)" by (simp add: live_def)
    from gi i cin up have "(h, i) \<in> set (filter (live X) (closing X))" "(h, cin) \<in> set (filter (live X) (closing X))"
      by (auto dest: in_remove1D)
    from keys_inj [OF dist this] gi have "i = cin" by simp
    with i gi have "(h, cin) \<in> set (filter (live X) (remove1 (h, cin) (closing X)))" by simp
    then have "(h, cin) \<in> set (remove1 (h, cin) (filter (live X) (closing X)))"
      unfolding filter_remove1_eq using up by simp
    with dist show False by (simp add: distinct_map)
  qed
  then have "closing_ok hash n ofd ?Y"
    using before left table unfolding closing_ok_def same live by (auto dest!: in_remove1D)
  with pairs net_parts_ok [OF ok step os] show ?thesis by (simp add: net_ok_def)
qed

text \<open>A request to close may get lost, and a host may crash, at any time.\<close>

lemma lost_ok:
  assumes ok: "net_ok D hash n content ofd X"
  shows "net_ok D hash n content ofd (X\<lparr>closing := remove1 x (closing X)\<rparr>)" (is "net_ok _ _ _ _ _ ?Y")
proof -
  have same: "owns hash n ?Y = owns hash n X" "reachable hash n ?Y = reachable hash n X"
    by (rule owns_same; simp)+
  have live: "live ?Y = live X" by simp
  have "paired hash n ?Y k fd p = paired hash n X k fd p" for k fd p by (simp add: paired_def)
  with ok have "clients_ok D hash n ?Y" "pairs_ok hash n ?Y"
    by (simp_all add: net_ok_def clients_ok_def pairs_ok_def same)
  moreover have "closing_ok hash n ofd ?Y"
    using ok unfolding net_ok_def closing_ok_def same live
    by (auto dest: in_remove1D intro: distinct_keys_remove1)
  ultimately show ?thesis using ok by (simp add: net_ok_def)
qed

lemma crash_ok:
  assumes ok: "net_ok D hash n content ofd X"
  shows "net_ok D hash n content ofd (X\<lparr>down := insert h (down X)\<rparr>)" (is "net_ok _ _ _ _ _ ?Y")
proof (rule net_ok_shrink [OF ok])
  have reach: "reachable hash n X k p" if "reachable hash n ?Y k p" for k p
    using that by (simp add: reachable_def)
  show "owns hash n X k fd g rfd" if "owns hash n ?Y k fd g rfd" for k fd g rfd
    using that reach unfolding owns_def by auto
  show "paired hash n ?Y k fd p" if "fd_map (members ?Y k) fd = Some p" "reachable hash n ?Y k p" for k fd p
    using ok that(1) reach [OF that(2)] by (simp add: net_ok_def pairs_ok_def paired_def)
qed (use ok in \<open>auto simp: net_ok_def clients_ok_def\<close>)

lemma net_step_ok:
  assumes step: "net_step D X Y" and ok: "net_ok D hash n content ofd X"
    and os: "\<forall>h. posix_files (systems D h) content ofd"
  shows "net_ok D hash n content ofd Y"
  using step
proof (cases rule: net_step.cases)
  case n_track
  from member_tracks_ok [OF ok os step [unfolded n_track(1)] n_track(2,3)] n_track(4) show ?thesis
    unfolding n_track(1) by blast
next
  case n_open
  from opens_ok [OF ok os step [unfolded n_open(1)] n_open(2-6,8-11)] show ?thesis unfolding n_open(1) .
next
  case n_open_down
  from member_tracks_ok [OF ok os step [unfolded n_open_down(1)] n_open_down(2,3)] n_open_down(4-6)
  show ?thesis unfolding n_open_down(1) by blast
next
  case n_read
  from member_grows_ok [OF ok os step [unfolded n_read(1)] remote_read_grows [OF n_read(2)]]
  show ?thesis unfolding n_read(1) .
next
  case n_seek
  from member_grows_ok [OF ok os step [unfolded n_seek(1)] remote_lseek_grows [OF n_seek(2)]]
  show ?thesis unfolding n_seek(1) .
next
  case n_close
  from closes_ok [OF ok os step [unfolded n_close(1)] n_close(2,3)] show ?thesis unfolding n_close(1) .
next
  case n_host_reads
  from host_reads_ok [OF ok os step [unfolded n_host_reads(1)] n_host_reads(3)]
  show ?thesis unfolding n_host_reads(1) .
next
  case n_host_seeks
  from host_seeks_ok [OF ok os step [unfolded n_host_seeks(1)] n_host_seeks(3)]
  show ?thesis unfolding n_host_seeks(1) .
next
  case n_host_closes
  from host_closes_ok [OF ok os step [unfolded n_host_closes(1)] n_host_closes(2-4)]
  show ?thesis unfolding n_host_closes(1) .
next
  case n_lost
  from lost_ok [OF ok] show ?thesis unfolding n_lost(1) .
next
  case n_host_copies
  from host_copies_ok [OF ok os step [unfolded n_host_copies(1)] n_host_copies(3)]
  show ?thesis unfolding n_host_copies(1) .
next
  case n_crash
  from crash_ok [OF ok] show ?thesis unfolding n_crash(1) .
qed

lemma net_run_ok:
  assumes "net_run D X Y" and "net_ok D hash n content ofd X"
    and "\<forall>h. posix_files (systems D h) content ofd"
  shows "net_ok D hash n content ofd Y"
  using assms by (induction rule: net_run.induct) (auto intro: net_step_ok)

end
