(* ===== verification/Outage.thy ===== *)
theory Outage
  imports Ownership
begin

text \<open>
  What a server that has stopped answering costs a client. The timeout counter of its host is the
  potential of the argument: every wait for that host ends with the deadline and raises it by one,
  and a host whose counter is at the limit is not waited for any more.
\<close>

section \<open>Requests that are waited for\<close>

fun waited_for :: "rpc_request \<Rightarrow> bool" where
  "waited_for (Open_Req i) = True"
| "waited_for (Read_Req i) = True"
| "waited_for (Seek_Req i) = True"
| "waited_for (Close_Req i) = False"

text \<open>How many of the requests \<open>rs\<close> make their sender wait for host \<open>h\<close>.\<close>

definition waits_for :: "int \<Rightarrow> (int \<times> rpc_request) list \<Rightarrow> nat" where
  "waits_for h rs = length (filter (\<lambda>(g, r). g = h \<and> waited_for r) rs)"

lemma waits_for_simps [simp]:
  "waits_for h [] = 0"
  "waits_for h (xs @ ys) = waits_for h xs + waits_for h ys"
  "waits_for h [(g, r)] = (if g = h \<and> waited_for r then 1 else 0)"
  by (simp_all add: waits_for_def)

section \<open>An outage\<close>

text \<open>
  The operations of a client while host \<open>h\<close> answers nothing: what is sent to \<open>h\<close> is waited for
  until the deadline, and no callback of it runs; the other hosts answer or not as they like.
\<close>

definition asks :: "int \<Rightarrow> client \<Rightarrow> client \<Rightarrow> bool" where
  "asks h c c' \<longleftrightarrow> (\<exists>r. sent c' = sent c @ [(h, r)])"

inductive outage_step :: "client_env \<Rightarrow> int \<Rightarrow> client \<Rightarrow> client \<Rightarrow> bool" for env h where
  out_track: "ftc_track_file canonical cwd env hs cb evs p flags fd c = Inr (b, c') \<Longrightarrow>
    (asks h c c' \<Longrightarrow> wait_ends evs = Timed_Out) \<Longrightarrow> outage_step env h c c'"
| out_read: "remote_read_at env hs cb evs fd nul buf count off c = Inr (r, b, c') \<Longrightarrow>
    (asks h c c' \<Longrightarrow> wait_ends evs = Timed_Out) \<Longrightarrow> outage_step env h c c'"
| out_seek: "ftc_remote_lseek env hs evs fd off wh c = Inr (r, c') \<Longrightarrow>
    (\<forall>i q v. asks h c c' \<longrightarrow> Callback i q v \<notin> set evs) \<Longrightarrow> outage_step env h c c'"
| out_close: "ftc_remove_fd env hs fd c = Inr (b, c') \<Longrightarrow> outage_step env h c c'"

inductive outage_run :: "client_env \<Rightarrow> int \<Rightarrow> client \<Rightarrow> client \<Rightarrow> bool" for env h where
  out_refl: "outage_run env h c c"
| out_snoc: "outage_run env h c d \<Longrightarrow> outage_step env h d e \<Longrightarrow> outage_run env h c e"

lemma outage_step_client: "outage_step env h c c' \<Longrightarrow> \<exists>opn. client_step env opn c c'"
  by (induction rule: outage_step.induct) (auto intro: client_step.intros)

section \<open>Every wait is paid with a count\<close>

text \<open>The claim about one step.\<close>

definition paid :: "int \<Rightarrow> client \<Rightarrow> client \<Rightarrow> bool" where
  "paid h c c' \<longleftrightarrow> (\<exists>new. sent c' = sent c @ new \<and>
     timeout_counters c' ! nat h = timeout_counters c ! nat h + int (waits_for h new))"

lemma paid_refl [simp]: "paid h c c"
  by (simp add: paid_def)

lemma paid_silent:
  "sent c' = sent c \<Longrightarrow> timeout_counters c' = timeout_counters c \<Longrightarrow> paid h c c'"
  by (simp add: paid_def)

lemma paid_trans: "paid h a b \<Longrightarrow> paid h b c \<Longrightarrow> paid h a c"
  unfolding paid_def by (elim exE conjE) (intro exI conjI, simp, simp)

text \<open>A request to \<open>g\<close> whose wait was charged.\<close>

lemma paid_wait:
  assumes "sent c' = sent c @ [(g, r)]" and "waited_for r" and "charged evs g c c'"
    and "asks h c c' \<Longrightarrow> wait_ends evs = Timed_Out"
    and "0 \<le> g" and "0 \<le> h" and "nat g < length (timeout_counters c)"
  shows "paid h c c'"
proof (cases "g = h")
  case True
  with assms(1,4) have "wait_ends evs = Timed_Out" by (simp add: asks_def)
  with assms True show ?thesis by (auto simp: paid_def charged_def)
next
  case False
  with assms(5,6) have "nat g \<noteq> nat h" by simp
  with assms(1,3) False show ?thesis by (auto simp: paid_def charged_def)
qed

lemma track_paid:
  assumes ok: "counters_ok c" and "0 \<le> h"
    and run: "ftc_track_file canonical cwd env hs cb evs p flags fd c = Inr (b, c')"
    and late: "asks h c c' \<Longrightarrow> wait_ends evs = Timed_Out"
  shows "paid h c c'"
  using ok run
proof (cases rule: track_outcome)
  case (asked cp oin)
  let ?g = "home (ce_hash env) (g_ftc_server_count c) cp"
  have "0 \<le> ?g" "?g < g_ftc_server_count c" using ok by (simp_all add: home_def counters_ok_def)
  then have "nat ?g < length (timeout_counters c)" using ok by (auto simp: counters_ok_def nat_less_iff)
  from paid_wait [OF asked(2) _ asked(7) late \<open>0 \<le> ?g\<close> assms(2) this] show ?thesis by simp
qed (simp_all add: paid_silent)

lemma read_paid:
  assumes ok: "counters_ok c" and "0 \<le> h"
    and run: "remote_read_at env hs cb evs fd nul buf count off c = Inr (r, b, c')"
    and late: "asks h c c' \<Longrightarrow> wait_ends evs = Timed_Out"
  shows "paid h c c'"
proof (cases "ftc_file_tracked c fd")
  case False
  with run show ?thesis by (simp add: remote_read_at_def)
next
  case True
  obtain g where g: "select_host (ce_hash env) (g_ftc_server_count c) (the (fd_map c fd)) = Inr g"
    "0 \<le> g" "g < g_ftc_server_count c" "uwrap32 g = g"
    "limit_reached c g = Inr (timeout_counters c ! nat g \<ge> TIMEOUT_LIMIT)"
    using counters_ok_host [OF ok] by metis
  have len: "nat g < length (timeout_counters c)" using ok g by (auto simp: counters_ok_def nat_less_iff)
  show ?thesis
  proof (cases "TIMEOUT_LIMIT \<le> timeout_counters c ! nat g")
    case True
    with \<open>ftc_file_tracked c fd\<close> g run show ?thesis by (simp add: remote_read_at_def)
  next
    case below: False
    with True g run obtain c1 where
      c1: "ftc_client_comm_gen_read_rpc env hs g fd nul (wrap64 count) off c = Inr c1"
      "ftc_read_block g (ftc_read_cb env cb g fd) evs buf (-1) c1 = Inr (r, b, c')"
      by (auto simp: remote_read_at_def andThen_iffs)
    have "sent c' = sent c1" "charged evs g c1 c'"
      using c1(2) by (auto simp: read_block_eq andThen_iffs quiet_step_def charged_def split: wait_end.splits
          dest!: read_cb_effect count_timeout_effect)
    with gen_read_sent [OF c1(1)] have "charged evs g c c'"
      "\<exists>q. sent c' = sent c @ [(g, Read_Req q)]" by (auto simp: charged_def)
    then show ?thesis using paid_wait [OF _ _ _ late g(2) assms(2) len] by fastforce
  qed
qed

text \<open>A seek that returns was answered.\<close>

lemma seek_answered:
  assumes "ftc_remote_lseek env hs evs fd off wh c = Inr (r, c')" and "\<forall>i q v. Callback i q v \<notin> set evs"
  shows "c' = c"
proof -
  have "ftc_seek_block evs (0, x) = Inl Never_Returns" for x
    using assms(2) by (induction evs) (auto split: rpc_event.splits)
  with assms(1) show ?thesis by (auto simp: ftc_remote_lseek_def andThen_iffs split: if_splits)
qed

lemma seek_paid:
  assumes run: "ftc_remote_lseek env hs evs fd off wh c = Inr (r, c')"
    and late: "\<forall>i q v. asks h c c' \<longrightarrow> Callback i q v \<notin> set evs"
  shows "paid h c c'"
proof (cases "asks h c c'")
  case True
  with seek_answered [OF run] late show ?thesis by simp
next
  case False
  show ?thesis
  proof (cases "c' = c")
    case changed: False
    with run obtain g where "ftc_client_comm_gen_seek_rpc env hs g fd off wh c = Inr c'"
      by (auto simp: ftc_remote_lseek_def andThen_iffs split: if_splits)
    from gen_seek_sent [OF this] False show ?thesis by (auto simp: paid_def asks_def)
  qed simp
qed

lemma close_paid:
  assumes ok: "counters_ok c" and run: "ftc_remove_fd env hs fd c = Inr (b, c')"
  shows "paid h c c'"
  using ok run by (cases rule: remove_outcome) (auto simp: paid_def)

lemma outage_step_paid:
  assumes "outage_step env h c c'" and "counters_ok c" and "0 \<le> h"
  shows "paid h c c'"
  using assms(1)
proof (cases rule: outage_step.cases)
  case out_track
  then show ?thesis using track_paid [OF assms(2,3)] by blast
next
  case out_read
  then show ?thesis using read_paid [OF assms(2,3)] by blast
next
  case out_seek
  then show ?thesis using seek_paid by blast
next
  case out_close
  then show ?thesis using close_paid [OF assms(2)] by blast
qed

lemma outage_run_paid:
  assumes "outage_run env h c c'" and "counters_ok c" and "0 \<le> h"
  shows "paid h c c' \<and> counters_ok c' \<and> g_ftc_server_count c' = g_ftc_server_count c"
  using assms
proof (induction rule: outage_run.induct)
  case (out_snoc c d e)
  then have d: "paid h c d" "counters_ok d" "g_ftc_server_count d = g_ftc_server_count c" by simp_all
  from outage_step_client [OF out_snoc.hyps(2)] obtain opn where "client_step env opn d e" by blast
  from step_counters [OF this d(2)] d(3) have "counters_ok e \<and> g_ftc_server_count e = g_ftc_server_count c"
    by simp
  with paid_trans [OF d(1) outage_step_paid [OF out_snoc.hyps(2) d(2) assms(3)]] show ?case by simp
qed simp

end
