(* ===== verification/Cluster_Properties.thy ===== *)
theory Cluster_Properties
  imports Cluster End_To_End
begin

text \<open>
  What holds of the whole system, with a witness on two hosts and any number of clients, one of
  which opens and closes the demonstration file.
\<close>













end
