(* ===== verification/Ownership_Properties.thy ===== *)
theory Ownership_Properties
  imports Outage Cluster_Properties
begin

text \<open>
  What the invariant of \<open>Ownership\<close> gives a program: its reads return the bytes of its files, also
  when servers crash. The witness opens the demonstration file on one of two hosts, reads it, and
  reads it again after the host has crashed.
\<close>

section \<open>A read in the network\<close>







section \<open>The property\<close>


definition net_fresh :: client where
  "net_fresh = demo_untracked\<lparr>address_cache := [0 \<mapsto> ''t:h:1'', 1 \<mapsto> ''t:h:2'']\<rparr>"

definition net_holder :: client where
  "net_holder = net_fresh\<lparr>fd_map := [7 \<mapsto> ''/d/a''], fd_redir_map := [7 \<mapsto> 0],
     sent := [(0, Open_Req demo_open_in)]\<rparr>"


lemmas net_demo_defs = net_holder_def net_fresh_def demo_untracked_def demo_client_def




lemma net_holder_ready: "ready demo_cenv net_holder"
proof -
  have "server_flag demo_cenv a net_holder = Inr 0" for a
    by (rule demo_server_flag) (simp add: net_demo_defs)
  moreover have "ce_lookup2 demo_cenv = Some" by (simp add: demo_cenv_def)
  moreover have "h = 0 \<or> h = 1" if "0 \<le> h" "h < 2" for h :: int using that by auto
  ultimately show ?thesis
    by (auto simp: ready_def counters_sized_def redirect_disabled_def net_demo_defs)
qed

lemma net_calls: "calls_ok demo_hs demo_cb"
  by (simp add: calls_ok_def demo_hs_def demo_cb_def)



section \<open>The price of a crash\<close>






section \<open>An open that timed out\<close>

text \<open>An answered read of a client that meets no fault reports what was answered.\<close>

lemma answered_read_reports:
  assumes "ready env c" and "counters_ok c" and "calls_ok hs cb" and "fd_map c fd = Some p"
    and "timeout_counters c ! nat (home (ce_hash env) (g_ftc_server_count c) p) < TIMEOUT_LIMIT"
    and "wait_ends evs = Answered 0 0 (int (length bs))" and "pushed_before evs = [bs]"
  shows "\<exists>c'. remote_read_at env hs cb evs fd False buf count off c =
    Inr (int (length bs), store_bytes buf bs, c')"
proof -
  have "read_ends bs evs" using assms(6,7) by (simp add: read_ends_def)
  from remote_read_runs [OF assms(1,3) this] obtain r b c' where
    run: "remote_read_at env hs cb evs fd False buf count off c = Inr (r, b, c')" by blast
  obtain h where h: "select_host (ce_hash env) (g_ftc_server_count c) p = Inr h"
    "limit_reached c h = Inr (timeout_counters c ! nat h \<ge> TIMEOUT_LIMIT)"
    using counters_ok_host [OF assms(2)] by metis
  with counters_home [OF assms(2) h(1)] assms(4,5) run obtain c1 where
    "ftc_read_block h (ftc_read_cb env cb h fd) evs buf (-1) c1 = Inr (r, b, c')"
    by (auto simp: remote_read_at_def ftc_file_tracked_iff andThen_iffs)
  with assms(6,7) have "r = int (length bs)" "b = store_bytes buf bs"
    by (auto simp: read_block_eq andThen_iffs received_def ftc_read_cb_def)
  with run show ?thesis by blast
qed

text \<open>
  C21. A slow open makes later reads return another file. Let an open of a file time out although its
  server is up; let the host not have been given up, and let descriptor 0 of the server be open for
  another path, as it is once any client has opened a file there. If the server then answers a
  \<open>pread\<close> of the program in time, the program gets the bytes of the other file as those of its own,
  and their number: the client never learnt a remote descriptor and asks for descriptor 0.
\<close>

theorem timed_out_open_returns_another_file:
  assumes "counters_ok c" and "fd_redir_map c fd = None"
    and "ftc_track_file canonical cwd env hs0 cb0 evs0 p flags fd c = Inr (True, c1)"
    and "wait_ends evs0 = Timed_Out"
    and "ready env c1" and "calls_ok hs cb"
    and "h = home (ce_hash env) (g_ftc_server_count c1) (the (fd_map c1 fd))"
    and "timeout_counters c1 ! nat h < TIMEOUT_LIMIT"
    and "posix_files os content ofd" and "server_start s0" and "server_run os le t s0 s"
    and "fd_to_path s 0 = Some q" and "content (world s) q = Some e"
    and "0 \<le> count" and "count < 2147483648" and "0 \<le> off" and "off < 9223372036854775808"
    and "ftc_client_comm_gen_read_rpc env hs h fd False (wrap64 count) off c1 = Inr c2"
    and "sent c2 = sent c1 @ [(h, Read_Req req)]"
    and "served hg req s" and "ftc_rpc_handler os le hg req s = Inr (s', out)" and "out_xfer out \<noteq> None"
    and "filter (\<lambda>x. x \<noteq> Spurious) evs = deliver out"
  shows "\<exists>c'. wrap_pread os' env hs cb evs fd False buf count off (c1, w) =
    Inr (int (length (take (nat count) (drop (nat off) e))),
      store_bytes buf (take (nat count) (drop (nat off) e)), c', w)"
proof -
  let ?bytes = "take (nat count) (drop (nat off) e)"
  from tracking_entered [OF assms(1,3)] obtain cp where cp: "fd_map c1 fd = Some cp" by auto
  have "client_step env Op_Track c c1" using assms(3) by (rule client_step.track)
  then have ok: "counters_ok c1" using step_counters assms(1) by blast
  have none: "fd_redir_map c1 fd = None"
    using timed_out_open_keeps_redirects [OF assms(1,3,4)] assms(2) by simp
  from gen_read_sent [OF assms(18)] assms(19) none
  have "req = mk_rpc_in (wrap64 count) (send_bulk_handle hs) 0 fd off (client_rank c1)"
    by (simp add: subscript_def)
  then have req: "input_val req = count" "offset req = off" "accessfd req = 0"
    using assms(14-17) by (simp_all add: mk_rpc_in_def)
  have "\<exists>s' out. ftc_rpc_handler os le hg req s = Inr (s', out) \<and>
    (out_resp out = Some (Read_Out (-1)) \<and> out_xfer out = None \<or>
     (\<exists>st. out_resp out = None \<and> out_xfer out = Some st \<and>
        pushed st = take (nat (input_val req)) (drop (nat (offset req)) e) \<and>
        out_resp (ftc_rpc_handler_bulk_cb 0 0 st (out_live out)) =
          Some (Read_Out (int (length (pushed st))))))"
    by (rule pread_outcome [OF assms(9-11,20)]) (use assms(12-17) req in auto)
  with assms(21,22) req have "deliver out = [Push ?bytes, Callback 0 0 (int (length ?bytes))]"
    by (auto simp: deliver_def answer_event_def)
  with assms(23) have "wait_ends evs = Answered 0 0 (int (length ?bytes))" "pushed_before evs = [?bytes]"
    using wait_ends_spurious [of evs] pushed_before_spurious [of evs] by simp_all
  moreover have "timeout_counters c1 ! nat (home (ce_hash env) (g_ftc_server_count c1) cp) < TIMEOUT_LIMIT"
    using assms(7,8) cp by simp
  ultimately obtain c' where remote: "ftc_remote_pread env hs cb evs fd False buf count off c1 =
      Inr (int (length ?bytes), store_bytes buf ?bytes, c')"
    using answered_read_reports [OF assms(5) ok assms(6) cp] unfolding ftc_remote_pread_def by blast
  obtain r2 bs w1 where real: "sys_pread os' fd count off w = ((r2, bs), w1)"
    by (metis prod.collapse)
  from wrap_pread_cases [OF remote real cp] show ?thesis by auto
qed

text \<open>
  The program opens \<^verbatim>\<open>/d/b\<close> while another client has \<^verbatim>\<open>/d/a\<close> open, and reads the bytes of
  \<^verbatim>\<open>/d/a\<close>.
\<close>

definition net_late :: client where
  "net_late = net_fresh\<lparr>fd_map := [8 \<mapsto> ''/d/b''], timeout_counters := [1, 0],
     sent := [(0, Open_Req \<lparr>open_path = ''/d/b'', open_client_rank = 0, open_localfd = 8\<rparr>)]\<rparr>"

lemma net_late_open:
  "ftc_track_file [''/d/b'' \<mapsto> ''/d/b''] ''/d'' demo_cenv demo_hs demo_cb [Deadline]
     ''/d/b'' 0 8 net_fresh = Inr (True, net_late)"
proof -
  have "tracked_path [''/d/b'' \<mapsto> ''/d/b''] ''/d'' None ''/d/b'' = Some ''/d/b''"
    "contains ''.ports.cfg.'' ''/d/b'' = False"
    by code_simp+
  moreover have "demo_like (net_fresh\<lparr>fd_map := m\<rparr>)" for m
    by (simp add: demo_like_def net_demo_defs)
  note demo_gen_open [OF this]
  ultimately show ?thesis
    by (simp add: ftc_track_file_def start_mercury_def net_demo_defs demo_host demo_limit
        client_block_eq count_timeout_def net_late_def)
qed

lemma net_late_ready: "ready demo_cenv net_late"
  by (rule ready_settled [OF net_holder_ready]) (simp add: settled_def net_late_def net_demo_defs)

theorem timed_out_open_returns_another_file_witness:
  "\<exists>c'. wrap_pread fsys_os demo_cenv demo_hs demo_cb [Push [20, 30, 40], Callback 0 0 3]
      8 False [0, 0, 0] 3 1 (net_late, demo_local) =
    Inr (int (length (take (nat 3) (drop (nat 1) demo_data))),
      store_bytes [0, 0, 0] (take (nat 3) (drop (nat 1) demo_data)), c', demo_local)"
proof -
  have ok: "counters_ok net_fresh"
    using demo_counters_ok by (simp add: counters_ok_def net_fresh_def demo_untracked_def)
  have ask: "ftc_client_comm_gen_read_rpc demo_cenv demo_hs 0 8 False (wrap64 3) 1 net_late =
    Inr (net_late\<lparr>fd_redir_map := [8 \<mapsto> 0],
      sent := sent net_late @ [(0, Read_Req (mk_rpc_in (wrap64 3) 0 0 8 1 0))]\<rparr>)"
    using demo_gen_read_default [of net_late 8 "wrap64 3" 1]
    by (simp add: demo_like_def net_late_def net_demo_defs)
  have srv: "served demo_call (mk_rpc_in (wrap64 3) 0 0 8 1 0) demo_opened"
    by (simp add: served_def demo_call_def mk_rpc_in_def demo_opened_eq demo_server_def demo_peer)
  have off: "offset (mk_rpc_in (wrap64 3) 0 0 8 1 0) \<noteq> -1" by (simp add: mk_rpc_in_def)
  have "sys_pread fsys_os (accessfd (mk_rpc_in (wrap64 3) 0 0 8 1 0)) (input_val (mk_rpc_in (wrap64 3) 0 0 8 1 0))
      (offset (mk_rpc_in (wrap64 3) 0 0 8 1 0)) (world demo_opened) = ((3, [20, 30, 40]), world demo_opened)"
    by (simp add: mk_rpc_in_def demo_opened_eq demo_fs_def demo_data_def fsys_pread_def fsys_data_def)
  from pread_handler_runs [OF srv off this, of demo_le] obtain s' where
    h: "ftc_rpc_handler fsys_os demo_le demo_call (mk_rpc_in (wrap64 3) 0 0 8 1 0) demo_opened =
      Inr (s', transferring (mk_rpc_in (wrap64 3) 0 0 8 1 0) 3 [20, 30, 40])" by (auto simp: mk_rpc_in_def)
  have d: "filter (\<lambda>x. x \<noteq> Spurious) [Push [20, 30, 40], Callback 0 0 3] =
      deliver (transferring (mk_rpc_in (wrap64 3) 0 0 8 1 0) 3 [20, 30, 40])"
    by (simp add: deliver_def transferring_def transfer_def mk_rpc_in_def store_bytes_def
        pushed_def answer_event_def ftc_rpc_handler_bulk_cb_def answered_def Let_def)
  show ?thesis
    by (rule timed_out_open_returns_another_file [OF ok _ net_late_open wait_ends.simps(6) net_late_ready
          net_calls _ _ fsys.posix_files_axioms demo_start demo_opened_run [where t = "''t''"] _ _ _ _ _ _
          ask _ srv h _ d, where q = "''/d/a''"])
      (simp_all add: net_late_def net_demo_defs home_def demo_cenv_def TIMEOUT_LIMIT_def
        demo_opened_eq demo_fs_def transferring_def)
qed

end
