(* ===== verification/Preload.thy ===== *)
theory Preload
  imports Client_Runs
begin

unbundle bit_operations_syntax

text \<open>
  What preloading the library does to the library itself. Its own file operations, and those of
  log4c, go through the interposed functions as the program's do. The macro \<^verbatim>\<open>MAP_OR_FAIL\<close>
  (ftc_internal.h) finds the real functions; log4c runs under a flag that keeps its output out of
  the cache (\<open>log_preformatter_internal\<close>, ftc_logging.c); the request log (\<open>logging_info\<close>,
  ftc_comm.cpp) does not, and the last section follows what happens when its directory is one
  whose files are tracked.
\<close>

section \<open>The real functions\<close>

text \<open>
  \<open>real f\<close> is the variable \<^verbatim>\<open>__real_f\<close>, \<open>None\<close> its null pointer; \<open>dlsym\<close> is the next definition of a
  symbol after the library's own.
\<close>

definition MAP_OR_FAIL :: "(string \<Rightarrow> 'f option) \<Rightarrow> string \<Rightarrow> (string \<rightharpoonup> 'f) \<Rightarrow> (string \<rightharpoonup> 'f) res" where
  "MAP_OR_FAIL dlsym func real =
     (if real func \<noteq> None then Inr real
      else (case dlsym func of None \<Rightarrow> Inl (Exited 1) | Some f \<Rightarrow> Inr (real(func \<mapsto> f))))"

text \<open>The functions that a sequence of interposed calls ends in.\<close>

fun real_calls ::
  "(string \<Rightarrow> 'f option) \<Rightarrow> string list \<Rightarrow> (string \<rightharpoonup> 'f) \<Rightarrow> ('f list \<times> (string \<rightharpoonup> 'f)) res" where
  "real_calls dlsym [] real = Inr ([], real)"
| "real_calls dlsym (func # fs) real =
     andThen (MAP_OR_FAIL dlsym func real) (\<lambda>real1.
     andThen (real_calls dlsym fs real1) (\<lambda>(gs, real2). Inr (the (real1 func) # gs, real2)))"

text \<open>Every call ends in the next definition, and only a symbol without one stops the program.\<close>

lemma real_calls_eq:
  assumes "\<And>f g. real f = Some g \<Longrightarrow> dlsym f = Some g"
  shows "real_calls dlsym fs real =
    (if \<forall>f \<in> set fs. dlsym f \<noteq> None
     then Inr (map (\<lambda>f. the (dlsym f)) fs, \<lambda>f. if f \<in> set fs then dlsym f else real f)
     else Inl (Exited 1))"
  using assms
proof (induction fs arbitrary: real)
  case (Cons f fs)
  show ?case
  proof (cases "dlsym f")
    case None
    with Cons.prems have "real f = None" by (cases "real f") auto
    with None show ?thesis by (simp add: MAP_OR_FAIL_def)
  next
    case (Some g)
    have m: "MAP_OR_FAIL dlsym f real = Inr (real(f \<mapsto> g))"
      using Cons.prems [of f] Some by (auto simp: MAP_OR_FAIL_def fun_upd_idem)
    have ih: "real_calls dlsym fs (real(f \<mapsto> g)) =
      (if \<forall>f \<in> set fs. dlsym f \<noteq> None
       then Inr (map (\<lambda>f. the (dlsym f)) fs, \<lambda>x. if x \<in> set fs then dlsym x else (real(f \<mapsto> g)) x)
       else Inl (Exited 1))"
      by (rule Cons.IH) (use Cons.prems Some in \<open>auto split: if_splits\<close>)
    show ?thesis unfolding real_calls.simps m andThen_simps ih using Some by (auto simp: fun_eq_iff)
  qed
qed simp

section \<open>The output of log4c\<close>

text \<open>The real calls, and the file operations log4c makes to write a message.\<close>

record 'w reals =
  next_open :: "path \<Rightarrow> int \<Rightarrow> int option \<Rightarrow> 'w \<Rightarrow> int \<times> 'w"
  next_open64 :: "path \<Rightarrow> int \<Rightarrow> int option \<Rightarrow> 'w \<Rightarrow> int \<times> 'w"
  next_fopen :: "path \<Rightarrow> string \<Rightarrow> 'w \<Rightarrow> int option \<times> 'w"
  next_fopen64 :: "path \<Rightarrow> string \<Rightarrow> 'w \<Rightarrow> int option \<times> 'w"
  next_write :: "int \<Rightarrow> byte list \<Rightarrow> 'w \<Rightarrow> int \<times> 'w"

datatype file_call =
    Do_Open path int int
  | Do_Open64 path int int
  | Do_Fopen path string
  | Do_Fopen64 path string
  | Do_Write int "byte list"
  | Do_Lseek int int int
  | Do_Close int

text \<open>Each call is the interposed one; \<open>evs\<close> is what happens in its wait, should it send a request.\<close>

fun interposed ::
  "'w reals \<Rightarrow> 'w os \<Rightarrow> client_env \<Rightarrow> hg_send \<Rightarrow> cb_call \<Rightarrow> rpc_event list \<Rightarrow> file_call \<Rightarrow>
   client \<times> 'w \<Rightarrow> (client \<times> 'w) res" where
  "interposed R os env hs cb evs (Do_Open p fl m) s =
     andThen (wrap_open (next_open R) os env hs cb evs p fl m s) (\<lambda>(r, c, w). Inr (c, w))"
| "interposed R os env hs cb evs (Do_Open64 p fl m) s =
     andThen (wrap_open64 (next_open64 R) os env hs cb evs p fl m s) (\<lambda>(r, c, w). Inr (c, w))"
| "interposed R os env hs cb evs (Do_Fopen p m) s =
     andThen (wrap_fopen (next_fopen R) os env hs cb evs p m s) (\<lambda>(r, c, w). Inr (c, w))"
| "interposed R os env hs cb evs (Do_Fopen64 p m) s =
     andThen (wrap_fopen64 (next_fopen64 R) os env hs cb evs p m s) (\<lambda>(r, c, w). Inr (c, w))"
| "interposed R os env hs cb evs (Do_Write fd bs) s =
     (let (r, c, w) = wrap_write (next_write R fd bs) s in Inr (c, w))"
| "interposed R os env hs cb evs (Do_Lseek fd off wh) s =
     andThen (wrap_lseek os env hs evs fd off wh s) (\<lambda>(r, c, w). Inr (c, w))"
| "interposed R os env hs cb evs (Do_Close fd) s =
     andThen (wrap_close os env hs fd s) (\<lambda>(r, c, w). Inr (c, w))"

fun interposed_all ::
  "'w reals \<Rightarrow> 'w os \<Rightarrow> client_env \<Rightarrow> hg_send \<Rightarrow> cb_call \<Rightarrow> rpc_event list \<Rightarrow> file_call list \<Rightarrow>
   client \<times> 'w \<Rightarrow> (client \<times> 'w) res" where
  "interposed_all R os env hs cb evs [] s = Inr s"
| "interposed_all R os env hs cb evs (x # xs) s =
     andThen (interposed R os env hs cb evs x s) (interposed_all R os env hs cb evs xs)"

text \<open>
  \<open>log_preformatter_internal\<close>: the message is cut to the size of its array, and the thread's flag
  is raised for the call of log4c and lowered after it, whatever it was before. \<open>log4c\<close> gives the
  file operations with which log4c writes a line.
\<close>

definition log_preformatter_internal ::
  "(int \<Rightarrow> string \<Rightarrow> file_call list) \<Rightarrow> 'w reals \<Rightarrow> 'w os \<Rightarrow> client_env \<Rightarrow> hg_send \<Rightarrow> cb_call \<Rightarrow>
   rpc_event list \<Rightarrow> int \<Rightarrow> path \<Rightarrow> int \<Rightarrow> string \<Rightarrow> client \<times> 'w \<Rightarrow> (client \<times> 'w) res" where
  "log_preformatter_internal log4c R os env hs cb evs priority filename linenum msg s =
     (let expanded_format = snprintf_text 1024 msg;
          line = ''['' @ filename_of filename @ '':'' @ show_int linenum @ ''] '' @ expanded_format;
          c1 = (fst s)\<lparr>tl_disable_redirect := True\<rparr>
      in andThen (interposed_all R os env hs cb evs (log4c priority line) (c1, snd s)) (\<lambda>(c2, w2).
         Inr (c2\<lparr>tl_disable_redirect := False\<rparr>, w2)))"

lemma interposed_disabled:
  assumes "redirect_disabled c"
  shows "\<exists>w'. interposed R os env hs cb evs x (c, w) = Inr (c, w')"
  using assms
  by (cases x) (simp_all add: wrap_open_def wrap_open64_def wrap_fopen_def wrap_fopen64_def
      wrap_write_def wrap_lseek_def wrap_close_def Let_def case_prod_unfold)

lemma interposed_all_disabled:
  "redirect_disabled c \<Longrightarrow> \<exists>w'. interposed_all R os env hs cb evs xs (c, w) = Inr (c, w')"
proof (induction xs arbitrary: w)
  case (Cons x xs)
  from interposed_disabled [OF Cons.prems, of R os env hs cb evs x w] obtain w1 where
    "interposed R os env hs cb evs x (c, w) = Inr (c, w1)" by blast
  with Cons show ?case by auto
qed simp

lemma log4c_effect:
  "\<exists>w'. log_preformatter_internal log4c R os env hs cb evs priority filename linenum msg (c, w) =
     Inr (c\<lparr>tl_disable_redirect := False\<rparr>, w')"
proof -
  let ?xs = "log4c priority (''['' @ filename_of filename @ '':'' @ show_int linenum @ ''] '' @ snprintf_text 1024 msg)"
  have "redirect_disabled (c\<lparr>tl_disable_redirect := True\<rparr>)" by (simp add: redirect_disabled_def)
  from interposed_all_disabled [OF this, of R os env hs cb evs ?xs w] show ?thesis
    by (auto simp: log_preformatter_internal_def Let_def)
qed

text \<open>
  The macros of ftc_logging.h: the priorities of log4c, the target the file is compiled for with
  the names that depend on it, and the message of \<^verbatim>\<open>L4C_PERROR\<close>.
\<close>

datatype l4c_macro =
  L4C_FATAL | L4C_ALERT | L4C_CRIT | L4C_ERR | L4C_WARN | L4C_NOTICE | L4C_INFO | L4C_DEBUG | L4C_TRACE

fun l4c_priority :: "l4c_macro \<Rightarrow> int" where
  "l4c_priority L4C_FATAL = 0"
| "l4c_priority L4C_ALERT = 100"
| "l4c_priority L4C_CRIT = 200"
| "l4c_priority L4C_ERR = 300"
| "l4c_priority L4C_WARN = 400"
| "l4c_priority L4C_NOTICE = 500"
| "l4c_priority L4C_INFO = 600"
| "l4c_priority L4C_DEBUG = 700"
| "l4c_priority L4C_TRACE = 800"

datatype target = FT_Cache_CLIENT | FT_Cache_SERVER

record target_names =
  L4C_CAT_NAME :: string
  L4C_LOG_DIR :: string
  L4C_LOG_NAME_PREFIX :: string

fun target_names_of :: "target \<Rightarrow> target_names" where
  "target_names_of FT_Cache_CLIENT =
     \<lparr>L4C_CAT_NAME = ''FT_Cache_CLIENT'', L4C_LOG_DIR = ''.'', L4C_LOG_NAME_PREFIX = ''ftc_intercept_log''\<rparr>"
| "target_names_of FT_Cache_SERVER =
     \<lparr>L4C_CAT_NAME = ''ftc_server'', L4C_LOG_DIR = ''.'', L4C_LOG_NAME_PREFIX = ''ftc_server_log''\<rparr>"

definition L4C_LOG_AT_PRIORITY ::
  "(string \<Rightarrow> int \<Rightarrow> string \<Rightarrow> file_call list) \<Rightarrow> target \<Rightarrow> 'w reals \<Rightarrow> 'w os \<Rightarrow> client_env \<Rightarrow> hg_send \<Rightarrow>
   cb_call \<Rightarrow> rpc_event list \<Rightarrow> l4c_macro \<Rightarrow> path \<Rightarrow> int \<Rightarrow> string \<Rightarrow> client \<times> 'w \<Rightarrow> (client \<times> 'w) res" where
  "L4C_LOG_AT_PRIORITY log4c target R os env hs cb evs m filename linenum msg =
     log_preformatter_internal (log4c (L4C_CAT_NAME (target_names_of target))) R os env hs cb evs
       (l4c_priority m) filename linenum msg"

definition L4C_PERROR :: "(int \<Rightarrow> string) \<Rightarrow> string \<Rightarrow> int \<Rightarrow> l4c_macro \<times> string" where
  "L4C_PERROR strerror msg errno = (L4C_ERR, msg @ '': '' @ strerror errno)"

text \<open>The priorities are those between which \<open>log_priority\<close> clamps the level.\<close>

lemma l4c_priority_range: "0 \<le> l4c_priority m \<and> l4c_priority m \<le> 800"
  by (cases m) simp_all

section \<open>The request log under the interposed \<open>fopen\<close>\<close>

text \<open>
  \<open>ftc_client_comm_gen_open_rpc\<close> with the logging of its record as an argument, and
  \<open>ftc_track_file\<close> around it.
\<close>

definition open_rpc_logging ::
  "(log_info \<Rightarrow> client \<Rightarrow> client res) \<Rightarrow> client_env \<Rightarrow> hg_send \<Rightarrow> int \<Rightarrow> path \<Rightarrow> int \<Rightarrow> client \<Rightarrow> client res" where
  "open_rpc_logging log env hs svr_hash p fd c =
     andThen (lookup_addr env svr_hash c) (\<lambda>(svr_addr, c1).
     andThen (ftc_comm_create_handle hs) (\<lambda>_.
     let inp = \<lparr>open_path = p, open_client_rank = wrap32 (client_rank c1),
                open_localfd = wrap32 fd\<rparr>
     in andThen (server_flag env svr_addr c1) (\<lambda>fl.
        andThen (log (request_log (strncpy_array 256 p) ''open'' ''CRequest'' fl
                   svr_hash fd (send_clock hs) c1) c1) (\<lambda>c2.
        andThen (hg_forward hs svr_hash (Open_Req inp) c2) (\<lambda>c3.
        andThen (ftc_comm_free_addr hs) (\<lambda>_. Inr c3))))))"

lemma open_rpc_logging_eq:
  "ftc_client_comm_gen_open_rpc env = open_rpc_logging (client_log env) env"
  by (simp add: fun_eq_iff ftc_client_comm_gen_open_rpc_def open_rpc_logging_def)

definition track_logging ::
  "(log_info \<Rightarrow> client \<Rightarrow> client res) \<Rightarrow> (path \<Rightarrow> path option) \<Rightarrow> path \<Rightarrow> client_env \<Rightarrow> hg_send \<Rightarrow>
   cb_call \<Rightarrow> rpc_event list \<Rightarrow> path \<Rightarrow> int \<Rightarrow> int \<Rightarrow> client \<Rightarrow> (bool \<times> client) res" where
  "track_logging log canonical cwd env hs cb evs p flags fd c =
     andThen (track_check canonical cwd env p flags fd c) (\<lambda>(next, c1).
     case next of
       None \<Rightarrow> Inr (False, c1)
     | Some (cp, host) \<Rightarrow>
         andThen (open_rpc_logging log env hs host cp fd c1) (\<lambda>c2.
         andThen (ftc_client_block host (\<lambda>i r v s. ftc_open_cb env cb host cp fd i v s) evs c2)
           (\<lambda>c3. Inr (True, c3))))"

lemma track_logging_eq: "ftc_track_file = (\<lambda>canonical cwd env. track_logging (client_log env) canonical cwd env)"
  by (auto simp: fun_eq_iff track_file_parts track_logging_def open_rpc_logging_eq andThen_def
      split: sum.split option.split)

text \<open>
  \<open>logging_info\<close> in a preloaded client: \<^verbatim>\<open>fopen(log_filename, "a")\<close> is the interposed one, which
  tracks the log file as it does any other and sends a request for it, whose record is logged in
  turn. The number is that of the descriptors the process has left; without one \<^verbatim>\<open>fopen\<close> fails. The
  descriptor of the log file is \<open>fds k\<close>, and \<open>evs k\<close> happens in the wait for its request.
\<close>

fun logging_interposed ::
  "(path \<Rightarrow> path option) \<Rightarrow> path \<Rightarrow> client_env \<Rightarrow> hg_send \<Rightarrow> cb_call \<Rightarrow> (nat \<Rightarrow> rpc_event list) \<Rightarrow>
   (nat \<Rightarrow> int) \<Rightarrow> nat \<Rightarrow> log_info \<Rightarrow> client \<Rightarrow> client res" where
  "logging_interposed canonical cwd env hs cb evs fds 0 i c = Inr c"
| "logging_interposed canonical cwd env hs cb evs fds (Suc k) i c =
     (let f = log_filename (ce_log env) ''client'' (log_server_rank i)
      in if \<not> log_openable (ce_log env) f then Inr c
         else andThen (if redirect_disabled c then Inr (False, c)
                       else track_logging (logging_interposed canonical cwd env hs cb evs fds k)
                              canonical cwd env hs cb (evs k) f O_RDONLY (fds k) c) (\<lambda>(tracked, c1).
              client_log env i c1))"

text \<open>With a log that is not tracked, this is the logging of the model.\<close>

lemma logging_interposed_untracked:
  assumes "tracked_path canonical cwd (ftc_data_dir c) (log_filename (ce_log env) ''client'' (log_server_rank i)) = None"
  shows "logging_interposed canonical cwd env hs cb evs fds (Suc k) i c = client_log env i c"
  using assms by (auto simp: track_logging_def track_check_def client_log_def logging_info_def Let_def)

text \<open>
  The log files are tracked, no host has been given up, and sending meets no fault: the addresses
  of the hosts are known, Mercury's calls succeed and the names fit their arrays.
\<close>

definition log_tracked ::
  "(path \<Rightarrow> path option) \<Rightarrow> path \<Rightarrow> client_env \<Rightarrow> hg_send \<Rightarrow> client \<Rightarrow> bool" where
  "log_tracked canonical cwd env hs c \<longleftrightarrow>
     (\<forall>r. let f = log_filename (ce_log env) ''client'' r
          in log_openable (ce_log env) f \<and> \<not> contains ''.ports.cfg.'' f \<and>
             (\<exists>cp. tracked_path canonical cwd (ftc_data_dir c) f = Some cp \<and> length cp < 256)) \<and>
     ready env c \<and> (\<forall>n \<in> set (timeout_counters c). n < TIMEOUT_LIMIT) \<and>
     create_ret hs = 0 \<and> forward_ret hs = 0 \<and> free_addr_ret hs = 0"

text \<open>
  \<open>flooded k c c'\<close>: \<open>c'\<close> has sent \<open>k\<close> requests more than \<open>c\<close> and counted \<open>k\<close> timeouts more.
\<close>

definition flooded :: "nat \<Rightarrow> client \<Rightarrow> client \<Rightarrow> bool" where
  "flooded k c c' \<longleftrightarrow> length (sent c') = length (sent c) + k \<and>
     sum_list (timeout_counters c') = sum_list (timeout_counters c) + int k \<and>
     length (timeout_counters c') = length (timeout_counters c)"

lemma sum_list_bump: "k < length xs \<Longrightarrow> sum_list (xs[k := xs ! k + (1 :: int)]) = sum_list xs + 1"
  by (induction xs arbitrary: k) (auto split: nat.split)

lemma log_tracked_fd_map:
  "log_tracked canonical cwd env hs c \<Longrightarrow> log_tracked canonical cwd env hs (c\<lparr>fd_map := m\<rparr>)"
  using ready_settled [of env c "c\<lparr>fd_map := m\<rparr>"] by (simp add: log_tracked_def)

text \<open>One level: the request for a tracked file, whose record is logged by \<open>log\<close>.\<close>

lemma track_logging_floods:
  assumes ok: "log_tracked canonical cwd env hs c"
    and p: "\<not> contains ''.ports.cfg.'' p" "tracked_path canonical cwd (ftc_data_dir c) p = Some cp"
      "length cp < 256"
    and timeout: "wait_ends evs = Timed_Out"
    and log: "\<And>i d. log_tracked canonical cwd env hs d \<Longrightarrow> log_ok i \<Longrightarrow> \<exists>d'. log i d = Inr d' \<and> flooded k d d'"
  shows "\<exists>c'. track_logging log canonical cwd env hs cb evs p O_RDONLY fd c = Inr (True, c') \<and>
    flooded (Suc k) c c'"
proof -
  let ?c1 = "c\<lparr>fd_map := (fd_map c)(fd \<mapsto> cp)\<rparr>"
  have ok1: "log_tracked canonical cwd env hs ?c1" by (rule log_tracked_fd_map [OF ok])
  have ready: "ready env c" "ready env ?c1" using ok ok1 by (simp_all add: log_tracked_def)
  then have "counters_sized c" by (simp add: ready_def)
  then obtain h where h: "select_host (ce_hash env) (g_ftc_server_count c) cp = Inr h" "0 \<le> h"
    "h < g_ftc_server_count c" and j: "nat h < length (timeout_counters c)" and u: "uwrap32 h = h"
    by (rule host_of_tracked)
  have "\<not> TIMEOUT_LIMIT \<le> timeout_counters c ! nat h"
    using ok nth_mem [OF j] by (auto simp: log_tracked_def)
  then have chk: "track_check canonical cwd env p O_RDONLY fd c = Inr (Some (cp, h), ?c1)"
    using ready p h j u by (simp add: track_check_def start_mercury_def limit_reached_def ready_def)
  have "h < g_ftc_server_count ?c1" using h(3) by simp
  then obtain a fl where a: "lookup_addr env h ?c1 = Inr (a, ?c1)" "server_flag env a ?c1 = Inr fl"
    using lookup_known [OF ready(2) h(2)] flag_known [OF ready(2)] by blast
  have nul: "NUL \<in> set (strncpy_array 256 cp)" using p(3) by (simp add: NUL_in_strncpy_array)
  obtain d where d: "log (request_log (strncpy_array 256 cp) ''open'' ''CRequest'' fl h fd (send_clock hs) ?c1) ?c1
      = Inr d" "flooded k ?c1 d"
    using log [OF ok1 request_log_ok [OF nul short_names(1,4)]] by blast
  let ?c2 = "d\<lparr>sent := sent d @ [(h, Open_Req \<lparr>open_path = cp, open_client_rank = wrap32 (client_rank ?c1),
      open_localfd = wrap32 fd\<rparr>)]\<rparr>"
  have c2: "open_rpc_logging log env hs h cp fd ?c1 = Inr ?c2"
    using ok a d(1) by (simp add: open_rpc_logging_def hg_forward_def log_tracked_def Let_def)
  have j2: "nat h < length (timeout_counters ?c2)" using d(2) j by (simp add: flooded_def)
  let ?c3 = "?c2\<lparr>timeout_counters := (timeout_counters ?c2)[nat h := timeout_counters ?c2 ! nat h + 1]\<rparr>"
  have "count_timeout h ?c2 = Inr ?c3" using h(2) j2 by (simp add: count_timeout_def)
  then have "track_logging log canonical cwd env hs cb evs p O_RDONLY fd c = Inr (True, ?c3)"
    using chk c2 timeout by (simp add: track_logging_def client_block_eq)
  moreover have "flooded (Suc k) c ?c3" using d(2) sum_list_bump [OF j2] by (simp add: flooded_def)
  ultimately show ?thesis by blast
qed

lemma logging_floods:
  assumes "\<forall>j. wait_ends (evs j) = Timed_Out"
  shows "log_tracked canonical cwd env hs c \<Longrightarrow> log_ok i \<Longrightarrow>
    \<exists>c'. logging_interposed canonical cwd env hs cb evs fds k i c = Inr c' \<and> flooded k c c'"
proof (induction k arbitrary: i c)
  case 0
  then show ?case by (simp add: flooded_def)
next
  case (Suc k)
  let ?f = "log_filename (ce_log env) ''client'' (log_server_rank i)"
  let ?log = "logging_interposed canonical cwd env hs cb evs fds k"
  have f: "log_openable (ce_log env) ?f" "\<not> contains ''.ports.cfg.'' ?f" "\<not> redirect_disabled c"
    and "\<exists>cp. tracked_path canonical cwd (ftc_data_dir c) ?f = Some cp \<and> length cp < 256"
    using Suc.prems(1) by (simp_all add: log_tracked_def ready_def Let_def)
  then obtain cp where cp: "tracked_path canonical cwd (ftc_data_dir c) ?f = Some cp" "length cp < 256" by blast
  from assms have "wait_ends (evs k) = Timed_Out" by simp
  from track_logging_floods [OF Suc.prems(1) f(2) cp this, of ?log k cb "fds k"] Suc.IH obtain c1 where
    c1: "track_logging ?log canonical cwd env hs cb (evs k) ?f O_RDONLY (fds k) c = Inr (True, c1)"
    "flooded (Suc k) c c1" by blast
  obtain L where "client_log env i c1 = Inr (c1\<lparr>client_logs := L\<rparr>)"
    using client_log_runs [OF Suc.prems(2)] by blast
  then have "logging_interposed canonical cwd env hs cb evs fds (Suc k) i c = Inr (c1\<lparr>client_logs := L\<rparr>)"
    using f c1(1) by (simp add: Let_def)
  with c1(2) show ?case by (simp add: flooded_def)
qed

end
