(* ===== verification/Preload_Properties.thy ===== *)
theory Preload_Properties
  imports Preload Client_Properties
begin

text \<open>
  What keeps the output of log4c out of the cache, and what lets the request log into it.
\<close>







end
