(* ===== verification/Basic_Test.thy ===== *)
theory Basic_Test
  imports End_To_End Client_Runs
begin

text \<open>
  The test program of the repository (tests/basic_test.c), run with the library preloaded: it writes
  a file, reads it back twice through the interposed functions, prints what it read and removes the
  file. The program is a function over the wrappers; what the network does in each of its requests
  is an argument. The lemmas run it on a client that meets no fault.
\<close>

unbundle bit_operations_syntax

section \<open>The program\<close>

abbreviation (input) O_TRUNC :: int where "O_TRUNC \<equiv> 512"
abbreviation (input) FILE_COUNT :: nat where "FILE_COUNT \<equiv> 1"

text \<open>The real functions the program's calls end in, besides those of \<open>os\<close>.\<close>

record 'w program_calls =
  pc_open :: "path \<Rightarrow> int \<Rightarrow> int option \<Rightarrow> 'w \<Rightarrow> int \<times> 'w"
  pc_write :: "int \<Rightarrow> byte list \<Rightarrow> 'w \<Rightarrow> int \<times> 'w"
  pc_unlink :: "path \<Rightarrow> 'w \<Rightarrow> int \<times> 'w"

text \<open>
  One iteration of a reading loop: what \<^verbatim>\<open>rand\<close> returns, what Mercury returns, and what happens in
  the waits for the \<open>open\<close> and for the \<open>read\<close>.
\<close>

record round =
  rd_rand :: int
  rd_hs :: hg_send
  rd_cb :: cb_call
  rd_open :: "rpc_event list"
  rd_read :: "rpc_event list"

text \<open>The process: the library's state, the file system, the array of \<open>test_file_read\<close>, its output.\<close>

record 'w process =
  pr_client :: client
  pr_world :: 'w
  pr_buffer :: "byte list"
  pr_stderr :: "byte list"
  pr_stdout :: "byte list"
  pr_exit :: "int option"

definition ascii :: "string \<Rightarrow> byte list" where
  "ascii s = map of_char s"

text \<open>\<^verbatim>\<open>%s\<close> of a byte array\<close>

definition byte_string :: "byte list \<Rightarrow> byte list res" where
  "byte_string buf = (if 0 \<in> set buf then Inr (takeWhile (\<lambda>b. b \<noteq> 0) buf) else Inl Overrun)"

definition test_file_name :: "int \<Rightarrow> int \<Rightarrow> path" where
  "test_file_name pid n = snprintf_text 256 (''./testfile.'' @ show_int pid @ ''.4096.'' @ show_int n)"

definition test_text :: "int \<Rightarrow> string" where
  "test_text n =
     ''This is file '' @ show_int n @ '' and this was a successfully redirected read'' @ [newline]"

definition generate_file_body ::
  "'w program_calls \<Rightarrow> 'w os \<Rightarrow> client_env \<Rightarrow> hg_send \<Rightarrow> cb_call \<Rightarrow> int \<Rightarrow> nat \<Rightarrow>
   byte list \<times> client \<times> 'w \<Rightarrow> (byte list \<times> client \<times> 'w) res" where
  "generate_file_body P os env hs cb pid lcv s =
     (let (buffer, c, w) = s; tfn = test_file_name pid (int lcv)
      in andThen (wrap_open (pc_open P) os env hs cb [] tfn (O_WRONLY OR O_CREAT OR O_TRUNC) 420 (c, w))
           (\<lambda>(testfile, c1, w1).
         if testfile = -1 then Inl (Exited 1)
         else
           andThen (sprintf_text (length buffer) (test_text (int lcv))) (\<lambda>text.
           let buffer1 = store_bytes buffer (ascii (text @ [NUL]));
               (r, c2, w2) = wrap_write (pc_write P testfile (take 4096 buffer1)) (c1, w1)
           in andThen (wrap_close os env hs testfile (c2, w2)) (\<lambda>(r, c3, w3). Inr (buffer1, c3, w3)))))"

fun generate_files ::
  "'w program_calls \<Rightarrow> 'w os \<Rightarrow> client_env \<Rightarrow> hg_send \<Rightarrow> cb_call \<Rightarrow> int \<Rightarrow> nat list \<Rightarrow>
   byte list \<times> client \<times> 'w \<Rightarrow> (byte list \<times> client \<times> 'w) res" where
  "generate_files P os env hs cb pid [] s = Inr s"
| "generate_files P os env hs cb pid (lcv # lcvs) s =
     andThen (generate_file_body P os env hs cb pid lcv s) (generate_files P os env hs cb pid lcvs)"

text \<open>The body of both loops of \<open>test_file_read\<close>.\<close>

definition test_round ::
  "'w program_calls \<Rightarrow> 'w os \<Rightarrow> client_env \<Rightarrow> int \<Rightarrow> round \<Rightarrow> 'w process \<Rightarrow> 'w process res" where
  "test_round P os env pid rd s =
     (let id = uwrap32 (rd_rand rd mod int FILE_COUNT); tfn = test_file_name pid id
      in andThen (wrap_open (pc_open P) os env (rd_hs rd) (rd_cb rd) (rd_open rd) tfn O_RDONLY 420
                    (pr_client s, pr_world s)) (\<lambda>(testfile, c1, w1).
         if testfile = -1 then Inl (Exited 1)
         else
           andThen (wrap_read os env (rd_hs rd) (rd_cb rd) (rd_read rd) testfile False (pr_buffer s) 4096
                      (c1, w1)) (\<lambda>(r, buffer, c2, w2).
           andThen (byte_string buffer) (\<lambda>contents.
           andThen (wrap_close os env (rd_hs rd) testfile (c2, w2)) (\<lambda>(r, c3, w3).
           Inr (s\<lparr>pr_client := c3, pr_world := w3, pr_buffer := buffer,
                  pr_stderr := pr_stderr s @
                    ascii (''Actual test the contents of the buffer are '' @ [newline]) @ contents @
                    ascii [newline]\<rparr>))))))"

fun test_rounds ::
  "'w program_calls \<Rightarrow> 'w os \<Rightarrow> client_env \<Rightarrow> int \<Rightarrow> round list \<Rightarrow> 'w process \<Rightarrow> 'w process res" where
  "test_rounds P os env pid [] s = Inr s"
| "test_rounds P os env pid (rd # rds) s =
     andThen (test_round P os env pid rd s) (test_rounds P os env pid rds)"

text \<open>\<open>forked\<close> is what \<^verbatim>\<open>fork\<close> returns: the child prints its greeting and exits.\<close>

definition test_file_read ::
  "'w program_calls \<Rightarrow> 'w os \<Rightarrow> client_env \<Rightarrow> int \<Rightarrow> (nat \<Rightarrow> round) \<Rightarrow> int \<Rightarrow> nat \<Rightarrow> 'w process \<Rightarrow>
   'w process res" where
  "test_file_read P os env pid rounds forked iterations s =
     andThen (test_rounds P os env pid (map rounds [0..<iterations]) s) (\<lambda>s1.
     if forked = 0
     then Inr (s1\<lparr>pr_stdout := pr_stdout s1 @ ascii (''Hello from Child'' @ [newline]), pr_exit := Some 0\<rparr>)
     else test_rounds P os env pid (map rounds [iterations..<2 * iterations]) s1)"

fun cleanup_files :: "'w program_calls \<Rightarrow> int \<Rightarrow> nat list \<Rightarrow> 'w \<Rightarrow> 'w" where
  "cleanup_files P pid [] w = w"
| "cleanup_files P pid (lcv # lcvs) w =
     cleanup_files P pid lcvs (snd (pc_unlink P (test_file_name pid (int lcv)) w))"

text \<open>\<open>main\<close>; \<open>junk\<close> is what the arrays of 4096 bytes hold at first.\<close>

definition basic_test ::
  "'w program_calls \<Rightarrow> 'w os \<Rightarrow> client_env \<Rightarrow> hg_send \<Rightarrow> cb_call \<Rightarrow> int \<Rightarrow> (nat \<Rightarrow> round) \<Rightarrow> int \<Rightarrow>
   byte list \<Rightarrow> byte list \<Rightarrow> client \<times> 'w \<Rightarrow> 'w process res" where
  "basic_test P os env hs cb pid rounds forked junk1 junk2 s =
     andThen (generate_files P os env hs cb pid [0..<FILE_COUNT] (junk1, s)) (\<lambda>(buffer, c, w).
     andThen (test_file_read P os env pid rounds forked FILE_COUNT
                \<lparr>pr_client = c, pr_world = w, pr_buffer = junk2, pr_stderr = [], pr_stdout = [],
                 pr_exit = None\<rparr>) (\<lambda>s1.
     if pr_exit s1 \<noteq> None then Inr s1
     else Inr (s1\<lparr>pr_world := cleanup_files P pid [0..<FILE_COUNT] (pr_world s1),
                  pr_stdout := pr_stdout s1 @ ascii (''Ending test program'' @ [newline]),
                  pr_exit := Some 0\<rparr>)))"


section \<open>The local file system\<close>

text \<open>
  What POSIX documents about the program's other calls: creating, writing a file from its start, and
  removing. A call that fails has no effect.
\<close>

locale program_files = posix_files os content ofd
  for os :: "'w os" and content :: "'w \<Rightarrow> path \<rightharpoonup> byte list" and ofd :: "'w \<Rightarrow> int \<rightharpoonup> path \<times> int" +
  fixes P :: "'w program_calls"
  assumes create:
      "pc_open P p (O_WRONLY OR O_CREAT OR O_TRUNC) (Some m) w = (fd, w') \<Longrightarrow>
         (fd = -1 \<and> content w' = content w \<and> ofd w' = ofd w) \<or>
         (0 \<le> fd \<and> ofd w fd = None \<and> ofd w' = (ofd w)(fd \<mapsto> (p, 0)) \<and>
          content w' = (content w)(p \<mapsto> []))"
    and open_rdonly: "pc_open P p O_RDONLY None w = sys_open os p O_RDONLY w"
    and write_start:
      "ofd w fd = Some (p, 0) \<Longrightarrow> content w p = Some [] \<Longrightarrow> pc_write P fd bs w = (r, w') \<Longrightarrow>
         (r = -1 \<and> content w' = content w \<and> ofd w' = ofd w) \<or>
         (\<exists>n \<le> length bs. r = int n \<and> content w' = (content w)(p \<mapsto> take n bs) \<and>
            ofd w' = (ofd w)(fd \<mapsto> (p, r)))"
    and unlink_file:
      "pc_unlink P p w = (r, w') \<Longrightarrow>
         (r = -1 \<and> content w' = content w) \<or> (r = 0 \<and> content w' = (content w)(p := None))"

text \<open>
  No local call fails or is cut short: a descriptor is free when \<open>free_fd\<close> says so of the
  descriptor table, files that exist can be opened, read and removed, and the device is not full.
\<close>

definition no_local_failure ::
  "'w program_calls \<Rightarrow> 'w os \<Rightarrow> ('w \<Rightarrow> path \<rightharpoonup> byte list) \<Rightarrow> ('w \<Rightarrow> int \<rightharpoonup> path \<times> int) \<Rightarrow>
   ((int \<rightharpoonup> path \<times> int) \<Rightarrow> bool) \<Rightarrow> bool" where
  "no_local_failure P os content ofd free_fd \<longleftrightarrow>
     (\<forall>w p m. free_fd (ofd w) \<longrightarrow> fst (pc_open P p (O_WRONLY OR O_CREAT OR O_TRUNC) (Some m) w) \<noteq> -1) \<and>
     (\<forall>w p. free_fd (ofd w) \<longrightarrow> content w p \<noteq> None \<longrightarrow> fst (sys_open os p O_RDONLY w) \<noteq> -1) \<and>
     (\<forall>w fd x bs. ofd w fd = Some x \<longrightarrow> content w (fst x) \<noteq> None \<longrightarrow> fst (pc_write P fd bs w) = int (length bs)) \<and>
     (\<forall>w fd x n. ofd w fd = Some x \<longrightarrow> content w (fst x) \<noteq> None \<longrightarrow> fst (fst (sys_read os fd n w)) \<noteq> -1) \<and>
     (\<forall>w fd. ofd w fd \<noteq> None \<longrightarrow> fst (sys_close os fd w) = 0) \<and>
     (\<forall>w p. content w p \<noteq> None \<longrightarrow> fst (pc_unlink P p w) = 0)"

context program_files
begin

lemma create_runs:
  assumes "no_local_failure P os content ofd free_fd" and "free_fd (ofd w)"
  obtains fd w' where "pc_open P p (O_WRONLY OR O_CREAT OR O_TRUNC) (Some m) w = (fd, w')" and "0 \<le> fd"
    and "ofd w fd = None" and "ofd w' = (ofd w)(fd \<mapsto> (p, 0))" and "content w' = (content w)(p \<mapsto> [])"
proof -
  obtain fd w' where op: "pc_open P p (O_WRONLY OR O_CREAT OR O_TRUNC) (Some m) w = (fd, w')" by fastforce
  have "fst (pc_open P p (O_WRONLY OR O_CREAT OR O_TRUNC) (Some m) w) \<noteq> -1"
    using assms by (simp add: no_local_failure_def)
  with create [OF op] op that show thesis by auto
qed

lemma open_runs:
  assumes "no_local_failure P os content ofd free_fd" and "free_fd (ofd w)" and "content w p \<noteq> None"
  obtains fd w' where "pc_open P p O_RDONLY None w = (fd, w')" and "0 \<le> fd"
    and "ofd w fd = None" and "ofd w' = (ofd w)(fd \<mapsto> (p, 0))" and "content w' = content w"
proof -
  obtain fd w' where op: "sys_open os p O_RDONLY w = (fd, w')" by fastforce
  have "fst (sys_open os p O_RDONLY w) \<noteq> -1"
    using assms unfolding no_local_failure_def by blast
  with open_ofd [OF op] open_content [of p w] op that show thesis by (auto simp: open_rdonly)
qed

lemma write_runs:
  assumes "no_local_failure P os content ofd free_fd" and "ofd w fd = Some (p, 0)" and "content w p = Some []"
  obtains w' where "pc_write P fd bs w = (int (length bs), w')" and "content w' = (content w)(p \<mapsto> bs)"
    and "ofd w' = (ofd w)(fd \<mapsto> (p, int (length bs)))"
proof -
  obtain r w' where wr: "pc_write P fd bs w = (r, w')" by fastforce
  have "fst (pc_write P fd bs w) = int (length bs)"
    using assms unfolding no_local_failure_def by fastforce
  with write_start [OF assms(2,3) wr] wr that show thesis by auto
qed

lemma read_runs:
  assumes "no_local_failure P os content ofd free_fd" and "ofd w fd = Some (p, 0)"
    and "content w p = Some d" and "0 \<le> n"
  obtains w' where "sys_read os fd n w = ((int (length (take (nat n) d)), take (nat n) d), w')"
    and "content w' = content w" and "ofd w' = (ofd w)(fd \<mapsto> (p, int (length (take (nat n) d))))"
proof -
  obtain r bs w' where rd: "sys_read os fd n w = ((r, bs), w')" by (metis prod.collapse)
  have "fst (fst (sys_read os fd n w)) \<noteq> -1"
    using assms unfolding no_local_failure_def by fastforce
  with read_file [OF assms(2-4) rd] read_content [of fd n w] rd that show thesis by auto
qed

lemma close_runs:
  assumes "no_local_failure P os content ofd free_fd" and "ofd w fd \<noteq> None"
  obtains w' where "sys_close os fd w = (0, w')" and "content w' = content w"
    and "ofd w' = (ofd w)(fd := None)"
proof -
  obtain r w' where cl: "sys_close os fd w = (r, w')" by fastforce
  have "fst (sys_close os fd w) = 0" using assms unfolding no_local_failure_def by blast
  with close_ofd [of fd w w'] close_content [of fd w] cl that show thesis by auto
qed

lemma unlink_runs:
  assumes "no_local_failure P os content ofd free_fd" and "content w p \<noteq> None"
  shows "content (snd (pc_unlink P p w)) = (content w)(p := None)"
proof -
  obtain r w' where rm: "pc_unlink P p w = (r, w')" by fastforce
  have "fst (pc_unlink P p w) = 0" using assms unfolding no_local_failure_def by blast
  with unlink_file [OF rm] rm show ?thesis by auto
qed

end


section \<open>The program's steps\<close>

lemma open_for_writing_untracked:
  "ftc_track_file canonical cwd env hs cb evs p (O_WRONLY OR O_CREAT OR O_TRUNC) fd c = Inr (False, c)"
  by (simp add: ftc_track_file_def)

definition file_text :: "int \<Rightarrow> byte list" where
  "file_text n = ascii (test_text n)"

text \<open>What the file holds: the text, its terminator, and what the array held behind it.\<close>

definition file_bytes :: "byte list \<Rightarrow> nat \<Rightarrow> byte list" where
  "file_bytes junk lcv = store_bytes junk (ascii (test_text (int lcv) @ [NUL]))"

definition round_output :: "byte list \<Rightarrow> byte list" where
  "round_output text = ascii (''Actual test the contents of the buffer are '' @ [newline]) @ text @ ascii [newline]"

lemma ascii_simps [simp]:
  "ascii (s @ t) = ascii s @ ascii t" "length (ascii s) = length s" "ascii [NUL] = [0]" "ascii [] = []"
  by (simp_all add: ascii_def NUL_def)

lemma zero_in_ascii: "0 \<in> set (ascii s) \<longleftrightarrow> NUL \<in> set s"
proof -
  have "(of_char c :: byte) = 0 \<longleftrightarrow> c = NUL" for c
  proof -
    have "unat (of_nat (of_char c) :: byte) = of_char c" by (simp add: unat_of_nat)
    then have "unat (of_char c :: byte) = of_char c" by (simp only: of_nat_of_char)
    then have "(of_char c :: byte) = 0 \<longleftrightarrow> (of_char c :: nat) = of_char NUL"
      by (simp add: NUL_def unat_eq_0 [symmetric])
    then show ?thesis by (simp only: of_char_eq_iff)
  qed
  then show ?thesis by (fastforce simp: ascii_def image_iff)
qed

lemma byte_string_text:
  assumes "no_nul s"
  shows "byte_string (ascii s @ 0 # r) = Inr (ascii s)"
proof -
  have "takeWhile (\<lambda>b. b \<noteq> 0) (ascii s @ 0 # r) = ascii s"
    using assms zero_in_ascii [of s] by (subst takeWhile_append2) (auto simp: no_nul_def)
  then show ?thesis by (simp add: byte_string_def)
qed

lemma no_nul_test_text: "no_nul (test_text n)"
  by (simp add: test_text_def no_nul_show_int NUL_def newline_def)

lemma length_test_text:
  assumes "0 \<le> n" and "n < 1000000000"
  shows "length (test_text n) < 4095"
proof -
  have "length (show_int n) \<le> 9"
    using length_show_nat [of "nat n" 9] assms by (simp add: show_int_def)
  then show ?thesis by (simp add: test_text_def)
qed

lemma length_test_file_name: "length (test_file_name pid n) < 256"
  unfolding test_file_name_def snprintf_text_def length_take by linarith

lemma file_bytes_eq: "file_bytes junk lcv = file_text (int lcv) @ 0 # drop (Suc (length (test_text (int lcv)))) junk"
  by (simp add: file_bytes_def file_text_def store_bytes_def)

text \<open>A round whose waits end, and in which nothing arrives that is not in the file.\<close>

definition round_ok :: "byte list \<Rightarrow> round \<Rightarrow> bool" where
  "round_ok d rd \<longleftrightarrow> calls_ok (rd_hs rd) (rd_cb rd) \<and> open_ends (rd_open rd) \<and> read_ends d (rd_read rd)"

lemma length_file_bytes:
  "length junk = 4096 \<Longrightarrow> lcv < 1000000000 \<Longrightarrow> length (file_bytes junk lcv) = 4096"
  using length_test_text [of "int lcv"] by (simp add: file_bytes_def length_store_bytes)

context program_files
begin

lemma generate_runs:
  assumes ok: "no_local_failure P os content ofd free_fd" and "free_fd (ofd w)"
    and "fd_map c = Map.empty" and "\<not> redirect_disabled c"
    and "length junk = 4096" and "lcv < 1000000000"
  shows "\<exists>w'. generate_file_body P os env hs cb pid lcv (junk, c, w) = Inr (file_bytes junk lcv, c, w') \<and>
    content w' = (content w)(test_file_name pid (int lcv) \<mapsto> file_bytes junk lcv) \<and> ofd w' = ofd w"
proof -
  let ?p = "test_file_name pid (int lcv)" and ?b = "file_bytes junk lcv"
  obtain fd w1 where op: "pc_open P ?p (O_WRONLY OR O_CREAT OR O_TRUNC) (Some 420) w = (fd, w1)" "0 \<le> fd"
    "ofd w fd = None" "ofd w1 = (ofd w)(fd \<mapsto> (?p, 0))" "content w1 = (content w)(?p \<mapsto> [])"
    by (rule create_runs [OF ok assms(2)])
  have opened: "wrap_open (pc_open P) os env hs cb [] ?p (O_WRONLY OR O_CREAT OR O_TRUNC) 420 (c, w) =
      Inr (fd, c, w1)"
    using op(1,2) assms(4) open_for_writing_untracked
    by (simp add: wrap_open_def wrap_track_def)
  have len: "length (test_text (int lcv)) < 4095" by (rule length_test_text) (use assms(6) in simp_all)
  obtain w2 where wr: "pc_write P fd ?b w1 = (int (length ?b), w2)"
    "content w2 = (content w1)(?p \<mapsto> ?b)" "ofd w2 = (ofd w1)(fd \<mapsto> (?p, int (length ?b)))"
    by (rule write_runs [OF ok, of w1 fd ?p ?b]) (use op in simp_all)
  obtain w3 where cl: "sys_close os fd w2 = (0, w3)" "content w3 = content w2" "ofd w3 = (ofd w2)(fd := None)"
    by (rule close_runs [OF ok, of w2 fd]) (use wr in simp_all)
  have closed: "wrap_close os env hs fd (c, w2) = Inr (0, c, w3)"
    using assms(3,4) cl(1) by (simp add: wrap_close_def ftc_get_path_eq)
  have "take 4096 ?b = ?b" using length_file_bytes [OF assms(5,6)] by simp
  then have "generate_file_body P os env hs cb pid lcv (junk, c, w) = Inr (?b, c, w3)"
    using opened closed op(2) wr(1) len assms(5)
    by (simp add: generate_file_body_def wrap_write_def sprintf_text_def file_bytes_def)
  moreover have "ofd w3 = ofd w" using op wr cl by auto
  moreover have "content w3 = (content w)(?p \<mapsto> ?b)" using op wr cl by auto
  ultimately show ?thesis by blast
qed

text \<open>
  The process between two rounds: no file is tracked, the array has its size, and the file system
  is as it was.
\<close>

definition between_rounds ::
  "client_env \<Rightarrow> (path \<rightharpoonup> byte list) \<Rightarrow> (int \<rightharpoonup> path \<times> int) \<Rightarrow> 'w process \<Rightarrow> bool" where
  "between_rounds env files table s \<longleftrightarrow> ready env (pr_client s) \<and> fd_map (pr_client s) = Map.empty \<and>
     content (pr_world s) = files \<and> ofd (pr_world s) = table \<and> length (pr_buffer s) = 4096"

text \<open>The interposed calls of one round.\<close>

lemma open_round:
  assumes ok: "no_local_failure P os content ofd free_fd" and "free_fd (ofd w)" and "content w p \<noteq> None"
    and "ready env c" and "fd_map c = Map.empty" and "calls_ok hs cb" and "open_ends evs"
    and short: "\<forall>w cp. fs_canonical os p w = Some cp \<longrightarrow> length cp < 256"
  obtains fd c' w' where
    "wrap_open (pc_open P) os env hs cb evs p O_RDONLY m (c, w) = Inr (fd, c', w')"
    and "0 \<le> fd" and "ofd w fd = None" and "ofd w' = (ofd w)(fd \<mapsto> (p, 0))" and "content w' = content w"
    and "ready env c'" and "\<forall>g. g \<noteq> fd \<longrightarrow> fd_map c' g = None"
proof -
  obtain fd w1 where op: "pc_open P p O_RDONLY None w = (fd, w1)" "0 \<le> fd" "ofd w fd = None"
    "ofd w1 = (ofd w)(fd \<mapsto> (p, 0))" "content w1 = content w"
    by (rule open_runs [OF ok assms(2,3)])
  have "\<forall>cp. tracked_path (\<lambda>q. fs_canonical os q w1) (fs_current_path os w1) (ftc_data_dir c) p = Some cp \<longrightarrow>
      length cp < 256"
    using short by (auto simp: tracked_path_Some)
  from track_file_runs [OF assms(4,6,7) this, of O_RDONLY fd] obtain t c1 where
    tr: "ftc_track_file (\<lambda>q. fs_canonical os q w1) (fs_current_path os w1) env hs cb evs p O_RDONLY fd c =
      Inr (t, c1)" "settled c c1" "\<forall>g. g \<noteq> fd \<longrightarrow> fd_map c1 g = fd_map c g" by blast
  have "\<not> redirect_disabled c" using assms(4) by (simp add: ready_def)
  then have "wrap_open (pc_open P) os env hs cb evs p O_RDONLY m (c, w) = Inr (fd, c1, w1)"
    using op(1,2) tr(1) by (simp add: wrap_open_def wrap_track_def)
  then show thesis
    using that op(2-5) ready_settled [OF assms(4) tr(2)] tr(3) assms(5) by simp
qed

text \<open>Whether the network brings the bytes or not: a file is read from its start.\<close>

lemma read_round:
  assumes ok: "no_local_failure P os content ofd free_fd" and "ofd w fd = Some (p, 0)"
    and "content w p = Some d" and "length d = 4096" and "length buf = 4096"
    and "ready env c" and "calls_ok hs cb" and "read_ends d evs"
  obtains r c' w' where "wrap_read os env hs cb evs fd False buf 4096 (c, w) = Inr (r, d, c', w')"
    and "ready env c'" and "fd_map c' = fd_map c" and "content w' = content w"
    and "\<exists>off. ofd w' = (ofd w)(fd \<mapsto> (p, off))"
proof -
  obtain r b c1 where rd: "remote_read_at env hs cb evs fd False buf 4096 (-1) c = Inr (r, b, c1)"
    "settled c c1" "fd_map c1 = fd_map c"
    "r = -1 \<and> b \<in> {buf, store_bytes buf d} \<or> r = int (length d) \<and> b = store_bytes buf d"
    using remote_read_runs [OF assms(6-8)] by blast
  have buf: "store_bytes buf d = d" using assms(4,5) by (simp add: store_bytes_def)
  then have b: "store_bytes b d = d" using rd(4) assms(4,5) by (auto simp: store_bytes_def)
  have d: "take (nat 4096) d = d" using assms(4) by simp
  obtain w1 where lr: "sys_read os fd 4096 w = ((int (length d), d), w1)" "content w1 = content w"
    "ofd w1 = (ofd w)(fd \<mapsto> (p, int (length d)))"
    by (rule read_runs [OF ok assms(2,3), of 4096, unfolded d]) simp
  note ready = ready_settled [OF assms(6) rd(2)]
  show thesis
  proof (cases "r = -1")
    case True
    with rd(1) lr b have "wrap_read os env hs cb evs fd False buf 4096 (c, w) = Inr (wrap32 (int (length d)), d, c1, w1)"
      by (simp add: wrap_read_def ftc_remote_read_def Let_def)
    with ready rd(3) lr that show thesis by blast
  next
    case False
    with rd(4) assms(4) buf have r: "r = 4096" "b = d" by auto
    with rd(1) have "wrap_read os env hs cb evs fd False buf 4096 (c, w) = Inr (4096, d, c1, w)"
      by (simp add: wrap_read_def ftc_remote_read_def Let_def)
    moreover have "ofd w = (ofd w)(fd \<mapsto> (p, 0))" using assms(2) by (simp add: fun_upd_idem)
    ultimately show thesis using ready rd(3) that by blast
  qed
qed

lemma close_round:
  assumes ok: "no_local_failure P os content ofd free_fd" and "ofd w fd \<noteq> None"
    and "ready env c" and "calls_ok hs cb" and "\<forall>g. g \<noteq> fd \<longrightarrow> fd_map c g = None"
  obtains r c' w' where "wrap_close os env hs fd (c, w) = Inr (r, c', w')"
    and "ready env c'" and "fd_map c' = Map.empty" and "content w' = content w"
    and "ofd w' = (ofd w)(fd := None)"
proof -
  obtain w1 where cl: "sys_close os fd w = (0, w1)" "content w1 = content w" "ofd w1 = (ofd w)(fd := None)"
    by (rule close_runs [OF ok assms(2)])
  obtain b c1 where rm: "ftc_remove_fd env hs fd c = Inr (b, c1)" "settled c c1" "fd_map c1 = (fd_map c)(fd := None)"
    using remove_fd_runs [OF assms(3,4)] by blast
  have on: "\<not> redirect_disabled c" using assms(3) by (simp add: ready_def)
  have empty: "(fd_map c)(fd := None) = Map.empty" using assms(5) by auto
  show thesis
  proof (cases "fd_map c fd")
    case None
    with on cl(1) have "wrap_close os env hs fd (c, w) = Inr (0, c, w1)"
      by (simp add: wrap_close_def ftc_get_path_eq)
    moreover have "fd_map c = Map.empty" using None empty by (metis fun_upd_triv)
    ultimately show thesis using that cl assms(3) by blast
  next
    case (Some q)
    with on cl(1) rm(1) have "wrap_close os env hs fd (c, w) = Inr (0, c1, w1)"
      by (simp add: wrap_close_def ftc_get_path_eq)
    with that cl ready_settled [OF assms(3) rm(2)] rm(3) empty show thesis by simp
  qed
qed

lemma test_round_runs:
  assumes ok: "no_local_failure P os content ofd free_fd" and free: "free_fd table"
    and stored: "files (test_file_name pid 0) = Some (file_bytes junk 0)" and junk: "length junk = 4096"
    and short: "\<forall>w cp. fs_canonical os (test_file_name pid 0) w = Some cp \<longrightarrow> length cp < 256"
    and st: "between_rounds env files table s" and rd: "round_ok (file_bytes junk 0) rd"
  shows "\<exists>s'. test_round P os env pid rd s = Inr s' \<and> between_rounds env files table s' \<and>
    pr_stderr s' = pr_stderr s @ round_output (file_text 0) \<and> pr_stdout s' = pr_stdout s \<and>
    pr_exit s' = pr_exit s"
proof -
  let ?p = "test_file_name pid 0" and ?d = "file_bytes junk 0"
  let ?c = "pr_client s" and ?w = "pr_world s"
  note len = length_file_bytes [OF junk, of 0]
  have s: "ready env ?c" "fd_map ?c = Map.empty" "content ?w = files" "ofd ?w = table" "length (pr_buffer s) = 4096"
    using st by (simp_all add: between_rounds_def)
  have r: "calls_ok (rd_hs rd) (rd_cb rd)" "open_ends (rd_open rd)" "read_ends ?d (rd_read rd)"
    using rd by (simp_all add: round_ok_def)
  obtain fd c1 w1 where op: "wrap_open (pc_open P) os env (rd_hs rd) (rd_cb rd) (rd_open rd) ?p O_RDONLY 420
      (?c, ?w) = Inr (fd, c1, w1)" "0 \<le> fd" "ofd ?w fd = None" "ofd w1 = (ofd ?w)(fd \<mapsto> (?p, 0))"
    "content w1 = content ?w" "ready env c1" "\<forall>g. g \<noteq> fd \<longrightarrow> fd_map c1 g = None"
    by (rule open_round [OF ok, of ?w ?p env ?c "rd_hs rd" "rd_cb rd" "rd_open rd" 420])
      (use s r free stored short in auto)
  obtain x c2 w2 where re: "wrap_read os env (rd_hs rd) (rd_cb rd) (rd_read rd) fd False (pr_buffer s) 4096
      (c1, w1) = Inr (x, ?d, c2, w2)" "ready env c2" "fd_map c2 = fd_map c1" "content w2 = content w1"
    "\<exists>off. ofd w2 = (ofd w1)(fd \<mapsto> (?p, off))"
    by (rule read_round [OF ok, of w1 fd ?p ?d "pr_buffer s" env c1 "rd_hs rd" "rd_cb rd" "rd_read rd"])
      (use s r op stored len in auto)
  obtain y c3 w3 where cl: "wrap_close os env (rd_hs rd) fd (c2, w2) = Inr (y, c3, w3)" "ready env c3"
    "fd_map c3 = Map.empty" "content w3 = content w2" "ofd w3 = (ofd w2)(fd := None)"
    by (rule close_round [OF ok, of w2 fd env c2 "rd_hs rd" "rd_cb rd"]) (use re op r in auto)
  have str: "byte_string ?d = Inr (file_text 0)"
    using byte_string_text [OF no_nul_test_text, of 0] by (simp add: file_bytes_eq file_text_def)
  let ?s = "s\<lparr>pr_client := c3, pr_world := w3, pr_buffer := ?d,
      pr_stderr := pr_stderr s @ round_output (file_text 0)\<rparr>"
  have "test_round P os env pid rd s = Inr ?s"
    using op(1,2) re(1) str cl(1) by (simp add: test_round_def round_output_def)
  moreover have "ofd w3 = table" using op(3,4) re(5) cl(5) s(4) by auto
  then have "between_rounds env files table ?s"
    using cl op(5) re(4) s(3) len by (simp add: between_rounds_def)
  ultimately show ?thesis by simp
qed

lemma test_rounds_run:
  assumes ok: "no_local_failure P os content ofd free_fd" and free: "free_fd table"
    and stored: "files (test_file_name pid 0) = Some (file_bytes junk 0)" and junk: "length junk = 4096"
    and short: "\<forall>w cp. fs_canonical os (test_file_name pid 0) w = Some cp \<longrightarrow> length cp < 256"
    and "between_rounds env files table s" and "\<forall>rd \<in> set rds. round_ok (file_bytes junk 0) rd"
  shows "\<exists>s'. test_rounds P os env pid rds s = Inr s' \<and> between_rounds env files table s' \<and>
    pr_stderr s' = pr_stderr s @ concat (map (\<lambda>rd. round_output (file_text 0)) rds) \<and>
    pr_stdout s' = pr_stdout s \<and> pr_exit s' = pr_exit s"
  using assms(6,7)
proof (induction rds arbitrary: s)
  case (Cons rd rds)
  then have "round_ok (file_bytes junk 0) rd" by simp
  from test_round_runs [OF ok free stored junk short Cons.prems(1) this] obtain s1 where
    s1: "test_round P os env pid rd s = Inr s1" "between_rounds env files table s1"
    "pr_stderr s1 = pr_stderr s @ round_output (file_text 0)" "pr_stdout s1 = pr_stdout s"
    "pr_exit s1 = pr_exit s" by blast
  from Cons.IH [OF s1(2)] Cons.prems(2) s1 show ?case by auto
qed simp

text \<open>The whole program, in the process that \<^verbatim>\<open>fork\<close> gives the child's number.\<close>

lemma basic_test_runs:
  assumes ok: "no_local_failure P os content ofd free_fd" and free: "free_fd (ofd w)"
    and "ready env c" and "fd_map c = Map.empty" and "length junk1 = 4096" and "length junk2 = 4096"
    and "\<forall>w cp. fs_canonical os (test_file_name pid 0) w = Some cp \<longrightarrow> length cp < 256"
    and "round_ok (file_bytes junk1 0) (rounds 0)" and "round_ok (file_bytes junk1 0) (rounds 1)"
    and "forked \<noteq> 0"
  shows "\<exists>s. basic_test P os env hs cb pid rounds forked junk1 junk2 (c, w) = Inr s \<and> pr_exit s = Some 0 \<and>
    pr_stderr s = round_output (file_text 0) @ round_output (file_text 0) \<and>
    pr_stdout s = ascii (''Ending test program'' @ [newline]) \<and>
    content (pr_world s) = (content w)(test_file_name pid 0 := None) \<and> fd_map (pr_client s) = Map.empty"
proof -
  let ?p = "test_file_name pid 0" and ?d = "file_bytes junk1 0"
  have "\<not> redirect_disabled c" using assms(3) by (simp add: ready_def)
  from generate_runs [OF ok free assms(4) this assms(5), of 0 env hs cb pid] obtain w1 where
    g: "generate_file_body P os env hs cb pid 0 (junk1, c, w) = Inr (?d, c, w1)"
    "content w1 = (content w)(?p \<mapsto> ?d)" "ofd w1 = ofd w" by auto
  let ?s0 = "\<lparr>pr_client = c, pr_world = w1, pr_buffer = junk2, pr_stderr = [], pr_stdout = [],
      pr_exit = None\<rparr>"
  have stored: "((content w)(?p \<mapsto> ?d)) ?p = Some ?d" by simp
  have s0: "between_rounds env ((content w)(?p \<mapsto> ?d)) (ofd w) ?s0"
    using assms(3,4,6) g by (simp add: between_rounds_def)
  from test_rounds_run [OF ok free stored assms(5,7) s0, of "[rounds 0]"] assms(8) obtain s1 where
    s1: "test_rounds P os env pid [rounds 0] ?s0 = Inr s1"
    "between_rounds env ((content w)(?p \<mapsto> ?d)) (ofd w) s1"
    "pr_stderr s1 = round_output (file_text 0)" "pr_stdout s1 = []" "pr_exit s1 = None" by auto
  from test_rounds_run [OF ok free stored assms(5,7) s1(2), of "[rounds 1]"] assms(9) s1 obtain s2 where
    s2: "test_rounds P os env pid [rounds 1] s1 = Inr s2"
    "between_rounds env ((content w)(?p \<mapsto> ?d)) (ofd w) s2"
    "pr_stderr s2 = round_output (file_text 0) @ round_output (file_text 0)" "pr_stdout s2 = []"
    "pr_exit s2 = None" by auto
  have upt: "[0..<1] = [0::nat]" "[1..<2 * 1] = [1::nat]" by (simp_all add: upt_rec)
  have "test_file_read P os env pid rounds forked 1 ?s0 = Inr s2"
    using s1(1) s2(1) assms(10) unfolding test_file_read_def upt by simp
  with g(1) s2(5) have run: "basic_test P os env hs cb pid rounds forked junk1 junk2 (c, w) =
      Inr (s2\<lparr>pr_world := snd (pc_unlink P ?p (pr_world s2)),
             pr_stdout := pr_stdout s2 @ ascii (''Ending test program'' @ [newline]), pr_exit := Some 0\<rparr>)"
    unfolding basic_test_def upt by simp
  have "content (pr_world s2) = (content w)(?p \<mapsto> ?d)" "fd_map (pr_client s2) = Map.empty"
    using s2(2) by (simp_all add: between_rounds_def)
  moreover from this(1) have "content (snd (pc_unlink P ?p (pr_world s2))) = (content w)(?p := None)"
    using unlink_runs [OF ok, of "pr_world s2" ?p] by simp
  ultimately show ?thesis using run s2(3,4) by simp
qed

end

section \<open>The program on the file system of \<open>Posix_Files\<close>\<close>

definition fsys_creat :: "path \<Rightarrow> fsys \<Rightarrow> int \<times> fsys" where
  "fsys_creat p w =
     (case first_free 1024 0 (fs_table w) of
        None \<Rightarrow> (-1, w)
      | Some fd \<Rightarrow> (fd, w\<lparr>fs_files := (fs_files w)(p \<mapsto> []), fs_table := (fs_table w)(fd \<mapsto> (p, 0))\<rparr>))"

definition fsys_write :: "int \<Rightarrow> byte list \<Rightarrow> fsys \<Rightarrow> int \<times> fsys" where
  "fsys_write fd bs w =
     (case fsys_data w fd of
        None \<Rightarrow> (-1, w)
      | Some (p, off, d) \<Rightarrow>
          (int (length bs),
           w\<lparr>fs_files := (fs_files w)(p \<mapsto> take (nat off) (d @ replicate (nat off - length d) 0) @ bs @
                 drop (nat off + length bs) d),
             fs_table := (fs_table w)(fd \<mapsto> (p, off + int (length bs)))\<rparr>))"

definition fsys_calls :: "fsys program_calls" where
  "fsys_calls =
     \<lparr>pc_open = (\<lambda>p flags mode. if flags AND O_CREAT \<noteq> 0 then fsys_creat p else fsys_open p flags),
      pc_write = fsys_write,
      pc_unlink = (\<lambda>p w. if fs_files w p = None then (-1, w)
                        else (0, w\<lparr>fs_files := (fs_files w)(p := None)\<rparr>))\<rparr>"

definition fsys_free_fd :: "(int \<rightharpoonup> path \<times> int) \<Rightarrow> bool" where
  "fsys_free_fd table \<longleftrightarrow> first_free 1024 0 table \<noteq> None"

lemma fsys_creat_flags:
  "pc_open fsys_calls p (O_WRONLY OR O_CREAT OR O_TRUNC) m w = fsys_creat p w"
  "pc_open fsys_calls p O_RDONLY m w = fsys_open p O_RDONLY w"
  by (simp_all add: fsys_calls_def)

interpretation fsys_program: program_files fsys_os fs_files fs_table fsys_calls
proof unfold_locales
  fix p m fd and w w' :: fsys
  assume "pc_open fsys_calls p (O_WRONLY OR O_CREAT OR O_TRUNC) (Some m) w = (fd, w')"
  then show "(fd = -1 \<and> fs_files w' = fs_files w \<and> fs_table w' = fs_table w) \<or>
      (0 \<le> fd \<and> fs_table w fd = None \<and> fs_table w' = (fs_table w)(fd \<mapsto> (p, 0)) \<and>
       fs_files w' = (fs_files w)(p \<mapsto> []))"
    using first_free_Some unfolding fsys_creat_flags
    by (fastforce simp: fsys_creat_def split: option.splits)
next
  fix p and w :: fsys
  show "pc_open fsys_calls p O_RDONLY None w = sys_open fsys_os p O_RDONLY w"
    by (simp only: fsys_creat_flags fsys_os_sel)
qed (auto simp: fsys_calls_def fsys_write_def fsys_data_def split: if_splits)

lemma fsys_no_failure: "no_local_failure fsys_calls fsys_os fs_files fs_table fsys_free_fd"
  unfolding no_local_failure_def fsys_creat_flags
proof (intro conjI allI impI)
  fix w :: fsys and p
  assume "fsys_free_fd (fs_table w)"
  then show "fst (fsys_creat p w) \<noteq> -1"
    using first_free_Some by (fastforce simp: fsys_creat_def fsys_free_fd_def)
next
  fix w :: fsys and p
  assume "fsys_free_fd (fs_table w)" and "fs_files w p \<noteq> None"
  then show "fst (sys_open fsys_os p O_RDONLY w) \<noteq> -1"
    using first_free_Some by (fastforce simp: fsys_open_def fsys_free_fd_def)
qed (auto simp: fsys_calls_def fsys_write_def fsys_read_def fsys_close_def fsys_data_def Let_def)

end
