(* ===== verification/Spec2Isabelle.thy ===== *)
theory Spec2Isabelle
  imports Read_Session Common_Properties Ring_Properties Recovery_Properties Thread_Properties
    Client_Thread_Properties Dispatch_Properties Ownership_Properties Preload_Properties Test_Properties
begin

text \<open>
  A verification development for FT-Cache, a fault-tolerant cache for reading training data: a
  library that is preloaded into a program intercepts its file operations and redirects reads of
  a data directory to servers, one per node, which keep copies of the files on node-local
  storage. Names of files without a directory are those of \<^verbatim>\<open>src/src\<close>.

  \<^bold>\<open>Parts and theories.\<close>
  \<^item> \<open>Ftc_Base\<close>, \<open>C_Strings\<close>: the prelude. Faults as values of \<open>fault + 'a\<close>, integer conversions,
    character arrays, decimal printing and scanning; the lemma collections \<open>rpc_effects\<close> and
    \<open>rpc_faults\<close>. \<open>Ordered_Map\<close>: \<^verbatim>\<open>std::map\<close> with its order, behind the locale \<open>ordered_map\<close>.
  \<^item> \<open>Address_Book\<close>: \<open>extract_ip_portion\<close> and \<open>ftc_comm_list_addr\<close> (ftc_comm.cpp) and
    \<open>ftc_client_comm_lookup_addr\<close> (ftc_comm_client.cpp). The locale \<open>registry\<close> states what servers
    and clients agree on about the address file, and is interpreted on its text format.
  \<^item> \<open>Request_Log\<close>: \<open>log_info_t\<close> (ftc_comm.h), \<open>initialize_log\<close> and \<open>logging_info\<close> (ftc_comm.cpp),
    the log4c set-up (ftc_logging.c).
  \<^item> \<open>Posix_Files\<close>: the operating system, a parameter of everything else. The locale \<open>posix_files\<close>
    holds what POSIX and \<^verbatim>\<open>std::filesystem\<close> document; it is interpreted on a file system with a
    descriptor table, on which the witnesses run.
  \<^item> \<open>Rpc_Messages\<close>: the messages of the \<^verbatim>\<open>MERCURY_GEN_PROC\<close> declarations in ftc_comm.h.
    \<open>Rpc_Dispatch\<close>: their registration on both sides, the way from a request to its handler, and
    the progress thread that runs callbacks (ftc_comm.cpp); \<open>Dispatch_Properties\<close>.
  \<^item> \<open>Server_Handlers\<close>: the open, read, close and seek handlers and the bulk callback (ftc_comm.cpp)
    over a record of the server's globals. \<open>Data_Mover\<close>: the thread of ftc_data_mover.cpp.
    \<open>Server_System\<close>: both interleaved, with the invariant of the maps. \<open>Server_Threads\<close> and
    \<open>Thread_Properties\<close>: the same at the grain of critical sections and system calls.
    \<open>Server_Startup\<close>: \<open>main\<close> and \<open>ftc_start_comm_server\<close> (ftc_server.cpp) and \<open>ftc_init_comm\<close>.
  \<^item> \<open>Client_Rpc\<close>: requests, callbacks and waits (ftc_comm_client.cpp). \<open>Client_Cache\<close>: ftc_client.cpp.
    \<open>Client_Threads\<close> and \<open>Client_Thread_Properties\<close>: several threads of a program in the library,
    with the requests they leave behind. \<open>Wrappers\<close>: the interposed calls (wrappers.c).
    \<open>Preload\<close> and \<open>Preload_Properties\<close>: the library under its own interposition (ftc_internal.h,
    ftc_logging.h, ftc_logging.c). \<open>Hex_Dump\<close>: \<open>buffer_to_hex\<close>.
  \<^item> \<open>Recovery_Store\<close> and \<open>Recovery_Properties\<close>: the files kept for failed nodes
    (ftc_fault_client.cpp); the locale \<open>stdio_files\<close> extends \<open>posix_files\<close>.
  \<^item> \<open>Hash_Ring\<close> and \<open>Ring_Properties\<close>: the consistent-hashing ring and the simulation over it
    (tests/load_distribution_simul.cpp).
  \<^item> \<open>Client_Runs\<close>: the operations of a client that meets no fault all return. \<open>Basic_Test\<close> and
    \<open>Test_Properties\<close>: the test program (tests/basic_test.c) over the interposed calls; the locale
    \<open>program_files\<close> extends \<open>posix_files\<close> by what a program does to its own files.
  \<^item> \<open>Demo\<close> evaluates the server on a concrete file; \<open>Server_Properties\<close>, \<open>Common_Properties\<close> and
    \<open>Client_Properties\<close> hold the properties of the parts with their witnesses.
  \<^item> \<open>End_To_End\<close>, \<open>Read_Session\<close>, \<open>Cluster\<close>, \<open>Cluster_Properties\<close> and this theory compose the parts:
    one call from the program to the server and back, a session of reads, and all clients and
    servers of a deployment. \<open>Ownership\<close> and \<open>Ownership_Properties\<close>: the same with crashes, and with
    the pairing of the clients' descriptors with those of the servers. \<open>Outage\<close>: what a server that
    stopped answering costs a client.

  \<^bold>\<open>Correspondence.\<close> \<open>server\<close> holds the globals of ftc_data_mover.cpp (\<open>fd_to_path\<close>, \<open>path_cache_map\<close>,
  \<open>data_queue\<close>), the mover's local list, and the operating system's state as \<open>world\<close>. \<open>client\<close>
  holds the globals of ftc_client.cpp and ftc_comm_client.cpp; its field \<open>sent\<close> is a history of the
  requests handed to \<^verbatim>\<open>HG_Forward\<close>. Each function of the source is a definition of its name, with
  its early returns, failed assertions and undefined behaviour as branches; assertions are active,
  as in the debug build the CMake files default to. \<open>subscript\<close> is the inserting subscript of \<^verbatim>\<open>std::map\<close>.

  \<^bold>\<open>Concurrency.\<close> The server runs its handlers on one progress thread; the data mover is a second
  thread. \<open>server_step\<close> has handlers as atomic steps and every access of the mover to shared state
  as a step of its own; \<open>thread_step\<close> cuts the open and close handlers where they take or release
  \<^verbatim>\<open>path_map_mutex\<close> and where they call the operating system, and lets the mover act at every cut.
  A client's operations are sequential in \<open>Client_Cache\<close> and the steps of interleaving threads in
  \<open>pool_step\<close>, where a request outlives the wait of the thread that sent it. What happens during a
  wait is a list of events (arriving bytes, the callback, spurious wake-ups, the deadline, and a
  callback that ties with the deadline and is not looked at); a list that ends without callback or
  deadline is a wait that never returns. In \<open>cluster_step\<close> a server may
  handle any request ever sent to its host, so that messages are lost, delayed, reordered and
  duplicated. In \<open>net_step\<close> a request is handled at most once, as Mercury's are, and hosts crash. No definition uses fuel: the mover's loop, the address scan and the progress loop end
  because their list or text gets shorter. \<open>logging_interposed\<close> recurses on the number of descriptors
  the process has left, which is what ends it in the program.

  \<^bold>\<open>What is shown.\<close> The server keeps its cache coherent over every run and interleaving, never
  changes a file and serves exactly the bytes of the path a descriptor was opened for; a closed file
  is copied by the next round of the mover or reported; a started server has no memory fault.
  Clients find the servers that posted their address; a server that stops answering costs a client
  at most three waits and is then never contacted again, except by seeks; requests reach the handler
  of their type and answers have the type their callback decodes. From the interposed \<open>open\<close> on,
  \<open>pread\<close> returns the file's bytes whatever the network does and whichever servers crash or refuse to
  open it, as long as live servers answer opens before the deadline; after an open they did not, it
  can return another file's. \<open>read\<close> streams the file while answers arrive; in a deployment every
  file is cached by one server only. The recovery store gives back what was stored; the ring moves
  only the data of servers that come and go. The output of log4c stays out of the cache; the request
  log does not, and floods the servers when its directory is tracked. The repository's test program
  prints its file whether or not a server answers. The remaining properties describe branches in
  which the code fails: default descriptors, answers after their deadline and seeks that block each
  other.

  \<^bold>\<open>Not modelled.\<close> Mercury and log4c are parameters (return codes, identifiers and events; the file
  operations log4c makes). Accesses of several threads to \<open>fd_map\<close> and \<open>fd_redir_map\<close>, which no mutex
  protects, count as atomic. The wrappers that are commented out at the end of wrappers.c, the stray
  copy of ftc_comm_client.cpp and the files CMake generated under build are not part of the program.
\<close>

section \<open>From the open to the read\<close>

text \<open>
  C2. An opened file is read as it is. Let a program open a file through the interposed \<open>open\<close>;
  let the request reach a server, in any reachable state, whose handler answers with a
  descriptor, and let that answer arrive, in time or as the deadline passes. Let the server then run on, with requests of any clients
  and its data mover, until it handles a \<open>pread\<close> of this descriptor, which nobody has closed or
  reused; the path may have been copied to the node-local storage before or after the open. If
  the \<open>pread\<close> returns, it returns -1 or exactly the bytes of the file at the offset and their
  number, whatever the network does to its answer.
\<close>

theorem opened_file_is_read_as_it_is:
  assumes "posix_files os content ofd" and "server_start s0" and "server_run os le t s0 s"
    and "counters_ok c" and "0 \<le> fd" and "fd < 2147483648"
    and "wrap_open real_open os' env hs cb evs p flags mode (c, w) = Inr (fd, c1, w1)"
    and "sent c1 = sent c @ [(h, Open_Req oin)]"
    and "ftc_open_rpc_handler os le hg oin s = Inr (s1, out1)"
    and "out_resp out1 = Some (Open_Out rfd)" and "0 \<le> rfd" and "rfd < 2147483648"
    and "filter (\<lambda>e. e \<noteq> Spurious) evs \<in> {[Callback 0 0 rfd], [Tie 0 0 rfd]}"
    and "server_run os le t s1 s2" and "fd_to_path s2 rfd = fd_to_path s1 rfd"
    and "content (world s2) (open_path oin) = Some d"
    and "posix_files os' content' ofd'" and "ofd' w1 fd = Some (lp, pos)" and "content' w1 lp = Some d"
    and "0 \<le> count" and "count < 2147483648" and "0 \<le> off" and "off < 9223372036854775808"
    and "req = mk_rpc_in count (send_bulk_handle hs') rfd fd off (client_rank c1)"
    and "served hg' req s2" and "ftc_rpc_handler os le hg' req s2 = Inr (s3, out2)"
    and "delivery out2 evs'"
    and "wrap_pread os' env hs' cb' evs' fd False buf count off (c1, w1) = Inr (r, b, c2, w2)"
  shows "r = -1 \<or>
    r = int (length (take (nat count) (drop (nat off) d))) \<and>
    b = store_bytes buf (take (nat count) (drop (nat off) d))"
proof -
  have "wait_ends evs \<in> {Answered 0 0 rfd, Tied 0 0 rfd}"
    using wait_ends_spurious [of evs] assms(13) by auto
  from wrap_open_pairs [OF counters_ok_sized [OF assms(4)] assms(5-8) this]
  have client: "fd_map c1 fd = Some (open_path oin)" "fd_redir_map c1 fd = Some rfd" by simp_all
  have "fd_to_path s1 rfd = Some (open_path oin)"
    using assms(9) by (rule open_handler_effect) (use assms(10) in auto)
  then have server: "fd_to_path s2 rfd = Some (open_path oin)" using assms(15) by simp
  have "server_run os le t s s1" by (rule server_run_one, rule open_step [OF assms(9)])
  with assms(3,14) have run: "server_run os le t s0 s2" by (blast intro: server_run_trans)
  show ?thesis
    by (rule pread_transparent [OF assms(1,2) run server assms(16,11,12,17-19) client assms(20-28)])
qed

theorem opened_file_is_read_as_it_is_witness:
  "\<exists>c2 w2. wrap_pread fsys_os demo_cenv demo_hs demo_cb [Push [20, 30, 40], Callback 0 0 3]
      7 False [0, 0, 0] 3 1 (demo_tracked, demo_local) = Inr (3, [20, 30, 40], c2, w2) \<and>
    ((3 :: int) = -1 \<or> (3 :: int) = int (length (take (nat 3) (drop (nat 1) demo_data))) \<and>
      [20, 30, 40] = store_bytes [0, 0, 0] (take (nat 3) (drop (nat 1) demo_data)))"
proof -
  obtain s3 where h: "ftc_rpc_handler fsys_os demo_le demo_call (demo_read_in 3 1) demo_opened =
     Inr (s3, transferring (demo_read_in 3 1) 3 [20, 30, 40])"
    using demo_served_pread by blast
  obtain c2 where run: "wrap_pread fsys_os demo_cenv demo_hs demo_cb [Push [20, 30, 40], Callback 0 0 3]
      7 False [0, 0, 0] 3 1 (demo_tracked, demo_local) = Inr (3, [20, 30, 40], c2, demo_local)"
    using demo_tracked_pread [of demo_tracked]
    by (auto simp: demo_tracked_def demo_client_def demo_like_def redirect_disabled_def)
  have req: "demo_read_in 3 1 = mk_rpc_in 3 (send_bulk_handle demo_hs) 0 7 1 (client_rank demo_tracked)"
    by (simp add: demo_read_in_def mk_rpc_in_def demo_hs_def demo_tracked_def demo_client_def)
  have sent: "sent demo_tracked = sent demo_untracked @ [(0, Open_Req demo_open_in)]"
    by (simp add: demo_tracked_def demo_untracked_def demo_client_def)
  have opened: "ftc_open_rpc_handler fsys_os demo_le demo_call demo_open_in demo_server =
      Inr (demo_opened, answered 0 (Open_Out 0))"
    by (simp add: demo_open_eq demo_opened_eq)
  have counters: "counters_ok demo_untracked"
    using demo_counters_ok by (simp add: counters_ok_def demo_untracked_def)
  have "(3 :: int) = -1 \<or> (3 :: int) = int (length (take (nat 3) (drop (nat 1) demo_data))) \<and>
      [20, 30, 40] = store_bytes [0, 0, 0] (take (nat 3) (drop (nat 1) demo_data))"
    by (rule opened_file_is_read_as_it_is [OF fsys.posix_files_axioms demo_start run_refl [of _ _ "''t''"] counters
          _ _ demo_tracked_open sent opened _ _ _ _ run_refl _ _ fsys.posix_files_axioms
          _ _ _ _ _ _ req demo_served h _ run, where pos = 0 and d = demo_data])
      (simp_all add: answered_def demo_opened_eq demo_fs_def demo_local_def demo_open_in_def
        demo_data_def delivery_def demo_delivered)
  with run show ?thesis by blast
qed

section \<open>From the open to the end of the file\<close>

text \<open>
  C3. An opened file streams through the cache. Let a program open a file through the interposed
  \<open>open\<close>, let the server answer with a descriptor, in time or as the deadline passes, and let the
  program then read the file
  piece by piece with \<open>read\<close>, in a session in which every answer arrives and the server's reads
  are not refused, while the server serves other requests and copies files and the client uses its
  other descriptors. Then the reads return the consecutive pieces of the file with their lengths,
  0 at its end, and together the bytes of the file up to the number asked for, whether the server
  reads the file itself or a copy of it.
\<close>

theorem opened_file_is_streamed:
  assumes "posix_files os content ofd" and "server_start s0" and "server_run os le t s0 s"
    and "counters_ok c" and "0 \<le> fd" and "fd < 2147483648"
    and "wrap_open real_open os' env hs cb evs p flags mode (c, w) = Inr (fd, c1, w1)"
    and "sent c1 = sent c @ [(h, Open_Req oin)]"
    and "ftc_open_rpc_handler os le hg oin s = Inr (s1, out1)"
    and "out_resp out1 = Some (Open_Out rfd)" and "0 \<le> rfd" and "rfd < 2147483648"
    and "filter (\<lambda>e. e \<noteq> Spurious) evs \<in> {[Callback 0 0 rfd], [Tie 0 0 rfd]}"
    and "content (world s1) (open_path oin) = Some d"
    and "read_session os le t ofd env os' fd rfd (s1, c1, w1) ns res (s2, c2, w2)"
  shows "res = chunks d ns \<and> concat (map snd res) = take (\<Sum>n\<leftarrow>ns. nat n) d"
proof -
  have "wait_ends evs \<in> {Answered 0 0 rfd, Tied 0 0 rfd}"
    using wait_ends_spurious [of evs] assms(13) by auto
  from wrap_open_pairs [OF counters_ok_sized [OF assms(4)] assms(5-8) this]
  have client: "fd_redir_map c1 fd = Some rfd" by simp
  have ok: "server_ok content ofd s"
    using posix_files.run_keeps_ok [OF assms(1,3) server_ok_start [OF assms(2)]] by simp
  obtain q where q: "ofd (world s1) rfd = Some (q, 0)" "content (world s1) q = Some d"
    by (rule opened_at_start [OF assms(1) ok assms(9-11,14)])
  have "server_ok content ofd s1"
    using posix_files.open_keeps_ok [OF assms(1) ok assms(9)] by simp
  with q client have "session_ok content ofd fd rfd q d 0 (s1, c1, w1)" by (simp add: session_ok_def)
  from session_results [OF assms(1,11,12,15) this] show ?thesis by (simp add: bytes_of_chunks)
qed

theorem opened_file_is_streamed_witness:
  "\<exists>s2 c2. read_session fsys_os demo_le ''t'' fs_table demo_cenv fsys_os 7 0
      (demo_opened, demo_tracked, demo_local) [3, 3]
      [(3, [10, 20, 30]), (2, [40, 50])] (s2, c2, demo_local) \<and>
    [(3, [10, 20, 30]), (2, [40, 50])] = chunks demo_data [3, 3]"
proof -
  let ?x = "(demo_opened, demo_tracked, demo_local)"
  have start: "demo_at 0 demo_opened" "demo_reader demo_tracked"
    by (simp_all add: demo_opened_eq demo_server_def demo_tracked_def demo_client_def demo_like_def)
  obtain s' c' where one: "read_session fsys_os demo_le ''t'' fs_table demo_cenv fsys_os 7 0 ?x [3]
      [(3, [10, 20, 30])] (s', c', demo_local)" "demo_at 3 s'" "demo_reader c'"
    using demo_session_step [OF session_start start, of "[10, 20, 30]" "''t''" demo_local]
    by (simp add: demo_data_def) blast
  obtain s2 c2 where two: "read_session fsys_os demo_le ''t'' fs_table demo_cenv fsys_os 7 0 ?x [3, 3]
      [(3, [10, 20, 30]), (2, [40, 50])] (s2, c2, demo_local)"
    using demo_session_step [OF one, of "[40, 50]"] by (simp add: demo_data_def) blast
  have sent: "sent demo_tracked = sent demo_untracked @ [(0, Open_Req demo_open_in)]"
    by (simp add: demo_tracked_def demo_untracked_def demo_client_def)
  have opened: "ftc_open_rpc_handler fsys_os demo_le demo_call demo_open_in demo_server =
      Inr (demo_opened, answered 0 (Open_Out 0))"
    by (simp add: demo_open_eq demo_opened_eq)
  have counters: "counters_ok demo_untracked"
    using demo_counters_ok by (simp add: counters_ok_def demo_untracked_def)
  have "[(3, [10, 20, 30]), (2, [40, 50])] = chunks demo_data [3, 3] \<and>
      concat (map snd [(3 :: int, [10, 20, 30]), (2, [40, 50])]) = take (\<Sum>n\<leftarrow>[3 :: int, 3]. nat n) demo_data"
    by (rule opened_file_is_streamed [OF fsys.posix_files_axioms demo_start run_refl counters
          _ _ demo_tracked_open sent opened _ _ _ _ _ two])
      (simp_all add: answered_def demo_opened_eq demo_fs_def demo_open_in_def)
  with two show ?thesis by blast
qed

end
